(* ===== verification/Go_Prelude.thy ===== *)
theory Go_Prelude
  imports Main "HOL-Library.Word"
begin

text \<open>
  Shared ground of the development: Go strings and the operations of the standard library's
  \<open>strings\<close> package that the program uses, Go error values with their \<open>Unwrap\<close> chain, gRPC
  statuses, and the lemmas and fact collections every component shares.

  A Go string is a sequence of bytes; HOL's \<open>string\<close> is a list of 8-bit characters, so the two
  agree byte for byte, and \<open>length\<close> is Go's \<open>len\<close>.
\<close>

section \<open>Fact collections\<close>

named_theorems go_str \<open>equations of the string operations\<close>
named_theorems go_err \<open>equations of error and status values\<close>

section \<open>Strings\<close>

subsection \<open>Prefixes and suffixes\<close>

text \<open>\<open>strings.HasPrefix(s, p)\<close>, \<open>strings.HasSuffix(s, p)\<close>, \<open>strings.TrimPrefix(s, p)\<close>.\<close>

definition has_prefix :: "string \<Rightarrow> string \<Rightarrow> bool" where
  "has_prefix s p \<longleftrightarrow> take (length p) s = p"

definition has_suffix :: "string \<Rightarrow> string \<Rightarrow> bool" where
  "has_suffix s p \<longleftrightarrow> length p \<le> length s \<and> drop (length s - length p) s = p"

definition trim_prefix :: "string \<Rightarrow> string \<Rightarrow> string" where
  "trim_prefix s p = (if has_prefix s p then drop (length p) s else s)"

lemma has_prefix_iff: "has_prefix s p \<longleftrightarrow> (\<exists>t. s = p @ t)"
proof
  assume "has_prefix s p"
  then have "s = p @ drop (length p) s"
    unfolding has_prefix_def by (metis append_take_drop_id)
  then show "\<exists>t. s = p @ t" ..
qed (auto simp: has_prefix_def)

lemma has_prefix_append [simp, go_str]: "has_prefix (p @ t) p"
  by (simp add: has_prefix_def)

lemma has_prefix_append_append [simp, go_str]: "has_prefix (p @ t) (p @ q) \<longleftrightarrow> has_prefix t q"
  by (simp add: has_prefix_def)

lemma has_prefix_Nil [simp, go_str]: "has_prefix s []"
  by (simp add: has_prefix_def)

lemma has_prefix_Cons [simp, go_str]:
  "has_prefix [] (c # p) \<longleftrightarrow> False"
  "has_prefix (d # s) (c # p) \<longleftrightarrow> d = c \<and> has_prefix s p"
  by (auto simp: has_prefix_def)

lemma has_suffix_iff: "has_suffix s p \<longleftrightarrow> (\<exists>t. s = t @ p)"
proof
  assume "has_suffix s p"
  then have "s = take (length s - length p) s @ p"
    unfolding has_suffix_def by (metis append_take_drop_id)
  then show "\<exists>t. s = t @ p" ..
qed (auto simp: has_suffix_def)

lemma trim_prefix_append [simp, go_str]: "trim_prefix (p @ t) p = t"
  by (simp add: trim_prefix_def)

lemma trim_prefix_id: "\<not> has_prefix s p \<Longrightarrow> trim_prefix s p = s"
  by (simp add: trim_prefix_def)

subsection \<open>Searching\<close>

text \<open>\<open>strings.Index(s, sub)\<close>: the first position of \<open>sub\<close>, \<open>None\<close> for Go's \<open>-1\<close>.\<close>

fun index_of :: "string \<Rightarrow> string \<Rightarrow> nat option" where
  "index_of [] sub = (if has_prefix [] sub then Some 0 else None)"
| "index_of (c # s) sub =
     (if has_prefix (c # s) sub then Some 0 else map_option Suc (index_of s sub))"

definition contains :: "string \<Rightarrow> string \<Rightarrow> bool" where
  "contains s sub \<longleftrightarrow> index_of s sub \<noteq> None"

text \<open>\<open>strings.LastIndex(s, c)\<close> for a one-byte substring.\<close>

fun last_index_of :: "string \<Rightarrow> char \<Rightarrow> nat option" where
  "last_index_of [] c = None"
| "last_index_of (d # s) c =
     (case last_index_of s c of
        Some i \<Rightarrow> Some (Suc i)
      | None \<Rightarrow> if d = c then Some 0 else None)"

lemma index_of_Some:
  "index_of s sub = Some i \<Longrightarrow> s = take i s @ sub @ drop (i + length sub) s"
proof (induction s arbitrary: i)
  case Nil
  then show ?case by (auto split: if_splits simp: has_prefix_def)
next
  case (Cons c s)
  show ?case
  proof (cases "has_prefix (c # s) sub")
    case True
    with Cons.prems show ?thesis by (auto simp: has_prefix_iff)
  next
    case False
    with Cons.prems obtain j where "index_of s sub = Some j" and "i = Suc j" by auto
    with Cons.IH [of j] show ?thesis by simp
  qed
qed

lemma index_of_None: "index_of s sub = None \<longleftrightarrow> (\<nexists>a b. s = a @ sub @ b)"
proof (induction s)
  case Nil
  then show ?case by (auto simp: has_prefix_def)
next
  case (Cons c s)
  have "(\<exists>a b. c # s = a @ sub @ b)
      \<longleftrightarrow> has_prefix (c # s) sub \<or> (\<exists>a b. s = a @ sub @ b)"
  proof
    assume "\<exists>a b. c # s = a @ sub @ b"
    then obtain a b where ab: "c # s = a @ sub @ b" by blast
    then show "has_prefix (c # s) sub \<or> (\<exists>a b. s = a @ sub @ b)"
      by (cases a) (auto simp: has_prefix_iff)
  next
    assume "has_prefix (c # s) sub \<or> (\<exists>a b. s = a @ sub @ b)"
    then show "\<exists>a b. c # s = a @ sub @ b"
    proof
      assume "has_prefix (c # s) sub"
      then have "\<exists>b. c # s = [] @ sub @ b" by (simp add: has_prefix_iff)
      then show ?thesis by blast
    next
      assume "\<exists>a b. s = a @ sub @ b"
      then obtain a b where "c # s = (c # a) @ sub @ b" by auto
      then show ?thesis by blast
    qed
  qed
  with Cons.IH show ?case by simp
qed

lemma contains_iff: "contains s sub \<longleftrightarrow> (\<exists>a b. s = a @ sub @ b)"
  by (simp add: contains_def index_of_None)

lemma last_index_of_None [simp, go_str]: "last_index_of s c = None \<longleftrightarrow> c \<notin> set s"
  by (induction s) (auto split: option.splits)

lemma last_index_of_Some:
  "last_index_of s c = Some i \<Longrightarrow> s = take i s @ c # drop (Suc i) s \<and> c \<notin> set (drop (Suc i) s)"
proof (induction s arbitrary: i)
  case Nil
  then show ?case by simp
next
  case (Cons d s)
  show ?case
  proof (cases "last_index_of s c")
    case None
    with Cons.prems show ?thesis by (auto split: if_splits)
  next
    case (Some j)
    with Cons.prems Cons.IH [of j] show ?thesis by auto
  qed
qed

subsection \<open>Split and join\<close>

text \<open>\<open>strings.Split(s, d)\<close> for a one-byte separator, and \<open>strings.Join(xs, sep)\<close>.\<close>

fun split_on :: "char \<Rightarrow> string \<Rightarrow> string list" where
  "split_on d [] = [[]]"
| "split_on d (c # cs) =
     (if c = d then [] # split_on d cs
      else (case split_on d cs of [] \<Rightarrow> [[c]] | x # xs \<Rightarrow> (c # x) # xs))"

fun join :: "string \<Rightarrow> string list \<Rightarrow> string" where
  "join sep [] = []"
| "join sep [x] = x"
| "join sep (x # y # ys) = x @ sep @ join sep (y # ys)"

lemma split_on_not_Nil [simp]: "split_on d s \<noteq> []"
  by (induction s) (auto split: list.splits)

lemma join_Cons: "xs \<noteq> [] \<Longrightarrow> join sep (x # xs) = x @ sep @ join sep xs"
  by (cases xs) auto

lemma join_split_on [simp, go_str]: "join [d] (split_on d s) = s"
proof (induction s)
  case Nil
  then show ?case by simp
next
  case (Cons c s)
  obtain x xs where x: "split_on d s = x # xs"
    by (cases "split_on d s") auto
  with Cons show ?case by (cases xs) (auto simp: join_Cons)
qed

lemma split_on_no_sep: "x \<in> set (split_on d s) \<Longrightarrow> d \<notin> set x"
proof (induction s arbitrary: x)
  case Nil
  then show ?case by simp
next
  case (Cons c s)
  then show ?case by (auto split: if_splits list.splits)
qed

lemma split_on_append_sep:
  "d \<notin> set x \<Longrightarrow> split_on d (x @ d # s) = x # split_on d s"
  by (induction x) auto

lemma split_on_single: "d \<notin> set x \<Longrightarrow> split_on d x = [x]"
  by (induction x) auto

lemma split_on_join:
  "xs \<noteq> [] \<Longrightarrow> \<forall>x \<in> set xs. d \<notin> set x \<Longrightarrow> split_on d (join [d] xs) = xs"
proof (induction xs rule: list_nonempty_induct)
  case (single x)
  then show ?case by (simp add: split_on_single)
next
  case (cons x xs)
  then show ?case by (simp add: join_Cons split_on_append_sep)
qed

lemma split_on_inject: "split_on d s = split_on d t \<longleftrightarrow> s = t"
  by (metis join_split_on)

lemma append_sep_inject:
  "d \<notin> set x \<Longrightarrow> d \<notin> set y \<Longrightarrow> x @ d # s = y @ d # t \<Longrightarrow> x = y \<and> s = t"
  by (induction x arbitrary: y) (auto simp: Cons_eq_append_conv)

lemma set_join: "set (join [d] xs) \<subseteq> insert d (\<Union> (set ` set xs))"
  by (induction xs rule: induct_list012) auto

subsection \<open>Line endings\<close>

text \<open>
  \<open>strings.ReplaceAll(s, "\r\n", "\n")\<close>: every non-overlapping occurrence, left to right.
  A lone carriage return stays.
\<close>

abbreviation CR :: char where "CR \<equiv> CHR 0x0D"
abbreviation LF :: char where "LF \<equiv> CHR 0x0A"

fun crlf_to_lf :: "string \<Rightarrow> string" where
  "crlf_to_lf [] = []"
| "crlf_to_lf [c] = [c]"
| "crlf_to_lf (c # d # s) =
     (if c = CR \<and> d = LF then LF # crlf_to_lf s else c # crlf_to_lf (d # s))"

lemma crlf_to_lf_CRLF [simp, go_str]: "crlf_to_lf (CR # LF # s) = LF # crlf_to_lf s"
  by simp

lemma crlf_to_lf_no_CR: "CR \<notin> set s \<Longrightarrow> crlf_to_lf s = s"
  by (induction s rule: crlf_to_lf.induct) auto

lemma crlf_to_lf_Cons_other: "c \<noteq> CR \<Longrightarrow> crlf_to_lf (c # s) = c # crlf_to_lf s"
  by (cases s) auto

lemma crlf_to_lf_eq_Nil [simp]: "crlf_to_lf s = [] \<longleftrightarrow> s = []"
  by (cases s rule: crlf_to_lf.cases) auto

lemma hd_crlf_to_lf:
  "s \<noteq> [] \<Longrightarrow> hd (crlf_to_lf s) = (if has_prefix s [CR, LF] then LF else hd s)"
  by (cases s rule: crlf_to_lf.cases) auto

subsection \<open>Lower case\<close>

text \<open>
  \<open>strings.ToLower\<close>, as far as a search for an ASCII text can tell: ASCII letters are lowered, and
  so are the two other code points whose lower case is an ASCII letter, the Kelvin sign (U+212A)
  and the dotted capital I (U+0130), in their UTF-8 form. Every other code point maps to
  non-ASCII bytes and is kept.
\<close>

definition lower_byte :: "char \<Rightarrow> char" where
  "lower_byte c = (let n = of_char c :: nat in if 65 \<le> n \<and> n \<le> 90 then char_of (n + 32) else c)"

fun to_lower :: "string \<Rightarrow> string" where
  "to_lower [] = []"
| "to_lower (a # s) =
     (if a = CHR 0xE2 \<and> take 2 s = [CHR 0x84, CHR 0xAA] then CHR ''k'' # to_lower (drop 2 s)
      else if a = CHR 0xC4 \<and> take 1 s = [CHR 0xB0] then CHR ''i'' # to_lower (drop 1 s)
      else lower_byte a # to_lower s)"

subsection \<open>Slicing\<close>

text \<open>\<open>s[:n]\<close> panics when \<open>n\<close> exceeds the length; \<open>None\<close> is the panic.\<close>

definition slice_to :: "nat \<Rightarrow> string \<Rightarrow> string option" where
  "slice_to n s = (if n \<le> length s then Some (take n s) else None)"

section \<open>Errors and statuses\<close>

text \<open>
  A Go \<open>error\<close> value is what the program can observe of it: which sentinel errors its
  \<open>Unwrap\<close> chain holds (\<open>errors.Is\<close>, \<open>errors.As\<close>), and its text (\<open>Error()\<close>). The sentinels
  are those the program tests for; \<open>Json_Syntax\<close> stands for the type \<open>json.SyntaxError\<close> of an
  \<open>errors.As\<close> test.
\<close>

datatype sentinel =
    Err_Canceled | Err_DeadlineExceeded
  | Err_NotFound | Err_BranchNotFound | Err_AlreadyExists | Err_Conflict
  | Err_Unrecognized | Json_Syntax

datatype gerr = Gerr (chain: "sentinel list") (err_text: string)

definition errors_is :: "gerr \<Rightarrow> sentinel \<Rightarrow> bool" where
  "errors_is e s \<longleftrightarrow> s \<in> set (chain e)"

lemma errors_is_Gerr [simp, go_err]: "errors_is (Gerr ss t) s \<longleftrightarrow> s \<in> set ss"
  by (simp add: errors_is_def)

text \<open>The codes of \<open>google.golang.org/grpc/codes\<close>.\<close>

datatype code =
    OK | Canceled | Unknown | InvalidArgument | DeadlineExceeded | NotFound | AlreadyExists
  | PermissionDenied | ResourceExhausted | FailedPrecondition | Aborted | OutOfRange
  | Unimplemented | Internal | Unavailable | DataLoss | Unauthenticated

text \<open>
  A status error, \<open>status.Error(code, msg)\<close> or \<open>status.Errorf(code, format, args)\<close>. The message is
  kept as its format and arguments, so that a statement can say what reached it.
\<close>

datatype status = Status (st_code: code) (st_fmt: string) (st_args: "string list")

definition status_error :: "code \<Rightarrow> string \<Rightarrow> status" where
  "status_error c m = Status c m []"

definition status_errorf :: "code \<Rightarrow> string \<Rightarrow> string list \<Rightarrow> status" where
  "status_errorf c f args = Status c f args"

lemma st_code_status_error [simp, go_err]: "st_code (status_error c m) = c"
  by (simp add: status_error_def)

lemma st_code_status_errorf [simp, go_err]: "st_code (status_errorf c f as) = c"
  by (simp add: status_errorf_def)

lemma st_args_status_error [simp, go_err]: "st_args (status_error c m) = []"
  by (simp add: status_error_def)

text \<open>\<open>status.Code(err)\<close> of a handler's outcome: \<open>OK\<close> for a nil error.\<close>

fun status_code :: "status + 'a \<Rightarrow> code" where
  "status_code (Inl e) = st_code e"
| "status_code (Inr r) = OK"

text \<open>A line of the server log, \<open>log.Printf(format, args)\<close>, again unrendered.\<close>

type_synonym log_line = "string \<times> string list"

end
