(* ===== verification/Go_Time.thy ===== *)
theory Go_Time
  imports Go_Prelude
begin

text \<open>
  Go's \<open>time.Time\<close> as far as the program uses it: an instant in nanoseconds since the Unix epoch
  with a zone offset in seconds, \<open>Add\<close>, \<open>After\<close>, \<open>IsZero\<close>, and \<open>Format(time.RFC3339Nano)\<close>, the
  form of a commit's time on the wire.
\<close>

section \<open>Instants\<close>

record gotime =
  t_ns :: int
  t_off :: int

definition time_add :: "gotime \<Rightarrow> int \<Rightarrow> gotime" where
  "time_add t d = t\<lparr>t_ns := t_ns t + d\<rparr>"

definition time_after :: "gotime \<Rightarrow> gotime \<Rightarrow> bool" where
  "time_after t u \<longleftrightarrow> t_ns u < t_ns t"

text \<open>The zero \<open>time.Time{}\<close>: year 1, January 1, UTC.\<close>

definition time_zero :: gotime where
  "time_zero = \<lparr>t_ns = - 62135596800 * 1000000000, t_off = 0\<rparr>"

lemma t_ns_time_add [simp]: "t_ns (time_add t d) = t_ns t + d"
  by (simp add: time_add_def)

section \<open>Calendar\<close>

text \<open>
  Year, month and day of the proleptic Gregorian calendar for a number of days since 1970-01-01.
  Years are counted from March inside 400-year eras, so that the leap day ends a year.
\<close>

definition civil :: "int \<Rightarrow> int \<times> int \<times> int" where
  "civil z =
     (let z' = z + 719468;
          era = z' div 146097;
          doe = z' mod 146097;
          yoe = (doe - doe div 1460 + doe div 36524 - doe div 146096) div 365;
          doy = doe - (365 * yoe + yoe div 4 - yoe div 100);
          mp = (5 * doy + 2) div 153;
          d = doy - (153 * mp + 2) div 5 + 1;
          m = (if mp < 10 then mp + 3 else mp - 9);
          y = yoe + era * 400 + (if m \<le> 2 then 1 else 0)
      in (y, m, d))"

section \<open>Formatting\<close>

fun nat_digits :: "nat \<Rightarrow> string" where
  "nat_digits n = (if n < 10 then [''0123456789'' ! n]
                   else nat_digits (n div 10) @ [''0123456789'' ! (n mod 10)])"

declare nat_digits.simps [simp del]

text \<open>\<open>appendInt(x, width)\<close>: a sign for a negative number, then zero-padded digits.\<close>

definition pad_int :: "nat \<Rightarrow> int \<Rightarrow> string" where
  "pad_int w x =
     (let ds = nat_digits (nat \<bar>x\<bar>)
      in (if x < 0 then ''-'' else '''') @ replicate (w - length ds) (CHR ''0'') @ ds)"

text \<open>The fraction of \<open>.999999999\<close>: trailing zeros dropped, nothing at all when it is zero.\<close>

definition frac_nano :: "int \<Rightarrow> string" where
  "frac_nano n = (if n = 0 then '''' else
     ''.'' @ rev (dropWhile (\<lambda>c. c = CHR ''0'') (rev (pad_int 9 n))))"

definition zone_suffix :: "int \<Rightarrow> string" where
  "zone_suffix off =
     (if off = 0 then ''Z''
      else (let m = (if off < 0 then - ((- off) div 60) else off div 60);
                a = \<bar>m\<bar>
            in (if m < 0 then ''-'' else ''+'') @ pad_int 2 (a div 60) @ '':'' @ pad_int 2 (a mod 60)))"

text \<open>\<open>t.Format(time.RFC3339Nano)\<close>, layout \<open>2006-01-02T15:04:05.999999999Z07:00\<close>.\<close>

definition format_rfc3339nano :: "gotime \<Rightarrow> string" where
  "format_rfc3339nano t =
     (let loc = t_ns t + t_off t * 1000000000;
          secs = loc div 1000000000;
          (y, m, d) = civil (secs div 86400);
          sod = secs mod 86400
      in pad_int 4 y @ ''-'' @ pad_int 2 m @ ''-'' @ pad_int 2 d @ ''T''
         @ pad_int 2 (sod div 3600) @ '':'' @ pad_int 2 (sod mod 3600 div 60) @ '':''
         @ pad_int 2 (sod mod 60) @ frac_nano (loc mod 1000000000) @ zone_suffix (t_off t))"

end
