(* ===== verification/Registry_Deps.thy ===== *)
theory Registry_Deps
  imports Go_Time
begin

text \<open>
  The interfaces the server is programmed against and whose code lives in other repositories:
  the storage engine (\<open>github.com/priompt/db-adapters\<close>), prompt validation and the semantic diff
  (\<open>github.com/priompt/proto\<close>) and the caller's identity (\<open>github.com/priompt/auth/authn\<close>).
  They are parameters of the model: records of functions, arguments of every definition that
  calls them. What the program relies on is stated by the predicates at the end of the theory,
  each taken from the documentation of the repository (README, \<open>Storage\<close> and
  \<open>Version history\<close>).
\<close>

section \<open>Data\<close>

text \<open>\<open>store.Prompt\<close>, \<open>store.Commit\<close> and \<open>store.Ref\<close>, with the fields the program reads.\<close>

record prompt =
  p_uri :: string
  p_template :: string
  p_slots :: "string list"
  p_version_hash :: string

record commit =
  c_hash :: string
  c_uri :: string
  c_template :: string
  c_slots :: "string list"
  c_version_hash :: string
  c_parent :: string
  c_parent2 :: string
  c_author :: string
  c_message :: string
  c_created_at :: gotime

record ref =
  r_uri :: string
  r_branch :: string
  r_commit :: string

section \<open>The storage engine\<close>

text \<open>
  One field per method of \<open>*store.Store\<close> that the program calls. Every call is a transition of
  the store's state \<open>'st\<close>, reads included, so that a call may fail, and other writers may act
  between two calls, without the definitions saying how. A method returns a Go pair of a value
  and an error; only \<open>Get\<close>'s value is ever used when its error is not nil
  (\<open>MergeBranch\<close> discards the error), so \<open>st_get\<close> keeps the pair and the others are sums.
\<close>

record 'st store =
  st_get :: "string \<Rightarrow> 'st \<Rightarrow> (prompt \<times> gerr option) \<times> 'st"
  st_list :: "string \<Rightarrow> 'st \<Rightarrow> (gerr + prompt list) \<times> 'st"
  st_resolve :: "string \<Rightarrow> string \<Rightarrow> 'st \<Rightarrow> (gerr + commit) \<times> 'st"
  st_get_commit :: "string \<Rightarrow> 'st \<Rightarrow> (gerr + commit) \<times> 'st"
  st_log :: "string \<Rightarrow> string \<Rightarrow> 'st \<Rightarrow> (gerr + commit list) \<times> 'st"
  st_commits :: "string \<Rightarrow> 'st \<Rightarrow> (gerr + commit list) \<times> 'st"
  st_branches :: "string \<Rightarrow> 'st \<Rightarrow> (gerr + ref list) \<times> 'st"
  st_commit :: "string \<Rightarrow> string \<Rightarrow> string \<Rightarrow> string list \<Rightarrow> string \<Rightarrow> string \<Rightarrow> 'st
                  \<Rightarrow> (gerr + string) \<times> 'st"
    \<comment> \<open>\<open>Commit(uri, branch, template, slots, author, message)\<close>\<close>
  st_branch :: "string \<Rightarrow> string \<Rightarrow> string \<Rightarrow> 'st \<Rightarrow> (gerr + string) \<times> 'st"
    \<comment> \<open>\<open>Branch(uri, name, from)\<close>\<close>
  st_merge :: "string \<Rightarrow> string \<Rightarrow> string \<Rightarrow> string \<Rightarrow> string \<Rightarrow> 'st \<Rightarrow> (gerr + string) \<times> 'st"
    \<comment> \<open>\<open>Merge(uri, into, from, author, message)\<close>\<close>
  st_set_branch :: "string \<Rightarrow> string \<Rightarrow> string \<Rightarrow> 'st \<Rightarrow> (gerr + commit) \<times> 'st"
    \<comment> \<open>\<open>SetBranch(uri, branch, commitHash)\<close>\<close>

section \<open>Validation, hashing and the semantic diff\<close>

text \<open>
  A semantic-diff result, as \<open>Server.diff\<close> and the command line read it. Line numbers are Go
  \<open>int\<close>s (64 bit); deltas are \<open>float64\<close> values that are only passed on, kept as their bit
  patterns.
\<close>

type_synonym float64 = "64 word"

record change =
  old_start :: "64 word"
  old_end :: "64 word"
  new_start :: "64 word"
  new_end :: "64 word"

record window =
  radius :: "64 word"
  delta :: float64

record direction =
  curve :: "window list"
  stopped_at_boundary :: bool

record sd_result =
  sd_change :: change
  signal2 :: float64
  sd_up :: direction
  sd_down :: direction
  sd_class :: string

record 'em lib =
  scheme :: string                         \<comment> \<open>\<open>validate.Scheme\<close>\<close>
  org :: "string \<Rightarrow> string"                  \<comment> \<open>\<open>validate.Org\<close>\<close>
  validate_prompt :: "string \<Rightarrow> string \<Rightarrow> string list \<Rightarrow> gerr option"  \<comment> \<open>\<open>validate.Prompt\<close>\<close>
  store_hash :: "string \<Rightarrow> string list \<Rightarrow> string"                       \<comment> \<open>\<open>store.Hash\<close>\<close>
  default_branch :: string                 \<comment> \<open>\<open>store.DefaultBranch\<close>\<close>
  analyze :: "'em option \<Rightarrow> string list \<Rightarrow> string list \<Rightarrow> gerr + sd_result list"
                                           \<comment> \<open>\<open>semdiff.Analyze\<close>; a nil embedder is \<open>None\<close>\<close>
  worst :: "sd_result list \<Rightarrow> string"        \<comment> \<open>\<open>semdiff.Worst\<close>\<close>
  sd_kind :: "change \<Rightarrow> string"              \<comment> \<open>\<open>semdiff.Kind\<close>\<close>

section \<open>The caller\<close>

text \<open>
  \<open>authn.Identity\<close>, and what a handler sees of its context: the pair that
  \<open>authn.FromContext(ctx)\<close> returns, an identity and whether there is one.
\<close>

record identity =
  id_org :: string
  id_sub :: string
  id_write :: bool
  id_expires :: gotime

type_synonym ctx = "identity \<times> bool"

section \<open>What the program relies on\<close>

text \<open>\<open>validate.Org\<close> is the first path segment of an address (README, \<open>Addresses\<close>).\<close>

definition org_laws :: "'em lib \<Rightarrow> bool" where
  "org_laws L \<longleftrightarrow>
     (\<forall>o' t. CHR ''/'' \<notin> set o' \<longrightarrow> org L (scheme L @ o' @ ''/'' @ t) = o')
   \<and> (\<forall>o'. CHR ''/'' \<notin> set o' \<longrightarrow> org L (scheme L @ o') = o')"

text \<open>The reads of the store write nothing.\<close>

definition reads_pure :: "'st store \<Rightarrow> bool" where
  "reads_pure st \<longleftrightarrow>
     (\<forall>u s. snd (st_get st u s) = s) \<and> (\<forall>p s. snd (st_list st p s) = s)
   \<and> (\<forall>u r s. snd (st_resolve st u r s) = s) \<and> (\<forall>h s. snd (st_get_commit st h s) = s)
   \<and> (\<forall>u b s. snd (st_log st u b s) = s) \<and> (\<forall>u s. snd (st_commits st u s) = s)
   \<and> (\<forall>u s. snd (st_branches st u s) = s)"

text \<open>
  The served HEAD of an address, and the effect of each write on it: a write touches no other
  address; a write that fails, or whose branch is not main, does not touch it at all; and a write
  to main makes it the content written, in the same transaction (README, \<open>Storage\<close>).
\<close>

definition served :: "'st store \<Rightarrow> 'st \<Rightarrow> string \<Rightarrow> prompt \<times> gerr option" where
  "served st s u = fst (st_get st u s)"

definition prompt_of :: "commit \<Rightarrow> prompt" where
  "prompt_of c = \<lparr>p_uri = c_uri c, p_template = c_template c, p_slots = c_slots c,
                  p_version_hash = c_version_hash c\<rparr>"

definition commit_contract :: "'em lib \<Rightarrow> 'st store \<Rightarrow> bool" where
  "commit_contract L st \<longleftrightarrow> (\<forall>u b t sl a g s r s'. st_commit st u b t sl a g s = (r, s') \<longrightarrow>
     (\<forall>v. v \<noteq> u \<or> b \<noteq> default_branch L \<or> isl r \<longrightarrow> served st s' v = served st s v)
   \<and> (b = default_branch L \<and> \<not> isl r \<longrightarrow>
        served st s' u = (\<lparr>p_uri = u, p_template = t, p_slots = sl,
                           p_version_hash = store_hash L t sl\<rparr>, None)))"

definition merge_contract :: "'em lib \<Rightarrow> 'st store \<Rightarrow> bool" where
  "merge_contract L st \<longleftrightarrow> (\<forall>u i f a g s r s'. st_merge st u i f a g s = (r, s') \<longrightarrow>
     (\<forall>v. v \<noteq> u \<or> i \<noteq> default_branch L \<or> isl r \<longrightarrow> served st s' v = served st s v)
   \<and> (\<forall>h. i = default_branch L \<and> r = Inr h \<longrightarrow>
        (\<exists>c. fst (st_get_commit st h s') = Inr c \<and> c_uri c = u
             \<and> served st s' u = (prompt_of c, None))))"

definition set_branch_contract :: "'em lib \<Rightarrow> 'st store \<Rightarrow> bool" where
  "set_branch_contract L st \<longleftrightarrow> (\<forall>u b h s r s'. st_set_branch st u b h s = (r, s') \<longrightarrow>
     (\<forall>v. v \<noteq> u \<or> b \<noteq> default_branch L \<or> isl r \<longrightarrow> served st s' v = served st s v)
   \<and> (\<forall>c. b = default_branch L \<and> r = Inr c \<longrightarrow>
        c_uri c = u \<and> served st s' u = (prompt_of c, None)))"

text \<open>Creating a branch never changes what an address already serves.\<close>

definition branch_contract :: "'st store \<Rightarrow> bool" where
  "branch_contract st \<longleftrightarrow> (\<forall>u n f s v p. served st s v = (p, None) \<longrightarrow>
     served st (snd (st_branch st u n f s)) v = (p, None))"

definition store_contract :: "'em lib \<Rightarrow> 'st store \<Rightarrow> bool" where
  "store_contract L st \<longleftrightarrow> reads_pure st \<and> commit_contract L st \<and> merge_contract L st
     \<and> set_branch_contract L st \<and> branch_contract st"

lemma reads_pure_get: "reads_pure st \<Longrightarrow> st_get st u s = (served st s u, s)"
  by (simp add: reads_pure_def served_def prod_eq_iff)

lemma store_contractD:
  assumes "store_contract L st"
  shows "reads_pure st" and "commit_contract L st" and "merge_contract L st"
    and "set_branch_contract L st" and "branch_contract st"
  using assms by (simp_all add: store_contract_def)

lemma commit_contractD:
  assumes "commit_contract L st" and "st_commit st u b t sl a g s = (r, s')"
  shows "v \<noteq> u \<or> b \<noteq> default_branch L \<or> isl r \<Longrightarrow> served st s' v = served st s v"
    and "b = default_branch L \<Longrightarrow> \<not> isl r \<Longrightarrow>
      served st s' u = (\<lparr>p_uri = u, p_template = t, p_slots = sl,
                         p_version_hash = store_hash L t sl\<rparr>, None)"
  using assms unfolding commit_contract_def by blast+

lemma merge_contractD:
  assumes "merge_contract L st" and "st_merge st u i f a g s = (r, s')"
  shows "v \<noteq> u \<or> i \<noteq> default_branch L \<or> isl r \<Longrightarrow> served st s' v = served st s v"
    and "i = default_branch L \<Longrightarrow> r = Inr h \<Longrightarrow> \<exists>c. fst (st_get_commit st h s') = Inr c
      \<and> c_uri c = u \<and> served st s' u = (prompt_of c, None)"
  using assms unfolding merge_contract_def by blast+

lemma set_branch_contractD:
  assumes "set_branch_contract L st" and "st_set_branch st u b h s = (r, s')"
  shows "v \<noteq> u \<or> b \<noteq> default_branch L \<or> isl r \<Longrightarrow> served st s' v = served st s v"
    and "b = default_branch L \<Longrightarrow> r = Inr c \<Longrightarrow> c_uri c = u \<and> served st s' u = (prompt_of c, None)"
  using assms unfolding set_branch_contract_def by blast+

lemma branch_contractD:
  "branch_contract st \<Longrightarrow> served st s v = (p, None) \<Longrightarrow>
     served st (snd (st_branch st u n f s)) v = (p, None)"
  unfolding branch_contract_def by blast

end
