(* ===== verification/Sample_Registry.thy ===== *)
theory Sample_Registry
  imports Registry_Deps
begin

text \<open>
  An instance of the parameters of \<open>Registry_Deps\<close>, small enough to evaluate: a storage engine
  over three lists and a library of validation, hashing and diff functions. It meets the
  contracts, so that the hypotheses of the properties can hold together; nothing else in the
  development depends on it.
\<close>

section \<open>A storage engine\<close>

record sample_store =
  s_heads :: "prompt list"
  s_refs :: "ref list"
  s_commits :: "commit list"

definition sample_empty :: sample_store where
  "sample_empty = \<lparr>s_heads = [], s_refs = [], s_commits = []\<rparr>"

definition not_found :: gerr where
  "not_found = Gerr [Err_NotFound] ''not found''"

definition find_head :: "string \<Rightarrow> sample_store \<Rightarrow> prompt option" where
  "find_head u s = find (\<lambda>p. p_uri p = u) (s_heads s)"

definition find_ref :: "string \<Rightarrow> string \<Rightarrow> sample_store \<Rightarrow> string option" where
  "find_ref u b s = map_option r_commit (find (\<lambda>r. r_uri r = u \<and> r_branch r = b) (s_refs s))"

definition find_commit :: "string \<Rightarrow> sample_store \<Rightarrow> commit option" where
  "find_commit h s = find (\<lambda>c. c_hash c = h) (s_commits s)"

definition find_tip :: "string \<Rightarrow> string \<Rightarrow> sample_store \<Rightarrow> commit option" where
  "find_tip u b s = Option.bind (find_ref u b s) (\<lambda>h. find_commit h s)"

definition set_head :: "prompt \<Rightarrow> sample_store \<Rightarrow> sample_store" where
  "set_head p s = s\<lparr>s_heads := p # filter (\<lambda>q. p_uri q \<noteq> p_uri p) (s_heads s)\<rparr>"

definition set_ref :: "string \<Rightarrow> string \<Rightarrow> string \<Rightarrow> sample_store \<Rightarrow> sample_store" where
  "set_ref u b h s = s\<lparr>s_refs := \<lparr>r_uri = u, r_branch = b, r_commit = h\<rparr>
     # filter (\<lambda>r. \<not> (r_uri r = u \<and> r_branch r = b)) (s_refs s)\<rparr>"

definition or_missing :: "'a option \<Rightarrow> gerr + 'a" where
  "or_missing x = (case x of None \<Rightarrow> Inl not_found | Some a \<Rightarrow> Inr a)"

text \<open>Move a branch to a commit; moving main materializes the served HEAD.\<close>

definition advance :: "commit \<Rightarrow> string \<Rightarrow> sample_store \<Rightarrow> sample_store" where
  "advance c b s =
     (let s1 = set_ref (c_uri c) b (c_hash c) s
      in if b = ''main'' then set_head (prompt_of c) s1 else s1)"

text \<open>A hash longer than every hash in the store, so that no commit or branch has it.\<close>

definition fresh_hash :: "sample_store \<Rightarrow> string" where
  "fresh_hash s = replicate (Suc (sum_list (map (length \<circ> c_hash) (s_commits s))
     + sum_list (map (length \<circ> r_commit) (s_refs s)))) (CHR ''c'')"

definition record_commit :: "commit \<Rightarrow> sample_store \<Rightarrow> sample_store" where
  "record_commit c s = s\<lparr>s_commits := c # s_commits s\<rparr>"

definition sample_hash :: "string \<Rightarrow> string list \<Rightarrow> string" where
  "sample_hash t sl = ''version:'' @ t @ ''|'' @ join '','' sl"

definition sample_commit :: "string \<Rightarrow> string \<Rightarrow> string \<Rightarrow> string list \<Rightarrow> string \<Rightarrow> string
    \<Rightarrow> sample_store \<Rightarrow> (gerr + string) \<times> sample_store" where
  "sample_commit u b t sl a g s =
     (let c = \<lparr>c_hash = fresh_hash s, c_uri = u, c_template = t, c_slots = sl,
               c_version_hash = sample_hash t sl,
               c_parent = (case find_ref u b s of None \<Rightarrow> '''' | Some h \<Rightarrow> h), c_parent2 = '''',
               c_author = a, c_message = g, c_created_at = time_zero\<rparr>
      in (Inr (c_hash c), advance c b (record_commit c s)))"

definition sample_branch :: "string \<Rightarrow> string \<Rightarrow> string \<Rightarrow> sample_store
    \<Rightarrow> (gerr + string) \<times> sample_store" where
  "sample_branch u n f s =
     (if find_ref u n s \<noteq> None then (Inl (Gerr [Err_AlreadyExists] ''exists''), s)
      else (case find_ref u f s of
              None \<Rightarrow> (Inl (Gerr [Err_BranchNotFound] ''no branch''), s)
            | Some h \<Rightarrow> (Inr h, set_ref u n h s)))"

definition sample_merge :: "string \<Rightarrow> string \<Rightarrow> string \<Rightarrow> string \<Rightarrow> string \<Rightarrow> sample_store
    \<Rightarrow> (gerr + string) \<times> sample_store" where
  "sample_merge u i f a g s =
     (case (find_tip u f s, find_ref u i s) of
        (Some src, Some tip) \<Rightarrow>
          (let c = src\<lparr>c_hash := fresh_hash s, c_uri := u, c_parent := tip,
                       c_parent2 := c_hash src, c_author := a, c_message := g\<rparr>
           in (Inr (c_hash c), advance c i (record_commit c s)))
      | _ \<Rightarrow> (Inl (Gerr [Err_BranchNotFound] ''no branch''), s))"

definition sample_set_branch :: "string \<Rightarrow> string \<Rightarrow> string \<Rightarrow> sample_store
    \<Rightarrow> (gerr + commit) \<times> sample_store" where
  "sample_set_branch u b h s =
     (case find_commit h s of
        None \<Rightarrow> (Inl not_found, s)
      | Some c \<Rightarrow> if c_uri c = u then (Inr c, advance c b s) else (Inl not_found, s))"

definition sample_resolve :: "string \<Rightarrow> string \<Rightarrow> sample_store \<Rightarrow> gerr + commit" where
  "sample_resolve u r s =
     (case find_tip u r s of
        Some c \<Rightarrow> Inr c
      | None \<Rightarrow> (case find_commit r s of
                  Some c \<Rightarrow> if c_uri c = u then Inr c else Inl not_found
                | None \<Rightarrow> Inl not_found))"

definition sample_ops :: "sample_store store" where
  "sample_ops =
     \<lparr>st_get = (\<lambda>u s. (case find_head u s of
          None \<Rightarrow> (\<lparr>p_uri = '''', p_template = '''', p_slots = [], p_version_hash = ''''\<rparr>,
                   Some not_found)
        | Some p \<Rightarrow> (p, None), s)),
      st_list = (\<lambda>p s. (Inr (filter (\<lambda>q. has_prefix (p_uri q) p) (s_heads s)), s)),
      st_resolve = (\<lambda>u r s. (sample_resolve u r s, s)),
      st_get_commit = (\<lambda>h s. (or_missing (find_commit h s), s)),
      st_log = (\<lambda>u b s. (map_sum id (\<lambda>c. [c]) (or_missing (find_tip u b s)), s)),
      st_commits = (\<lambda>u s. (Inr (filter (\<lambda>c. c_uri c = u) (s_commits s)), s)),
      st_branches = (\<lambda>u s. (Inr (filter (\<lambda>r. r_uri r = u) (s_refs s)), s)),
      st_commit = sample_commit,
      st_branch = sample_branch,
      st_merge = sample_merge,
      st_set_branch = sample_set_branch\<rparr>"

section \<open>A library\<close>

definition sample_change :: change where
  "sample_change = \<lparr>old_start = 1, old_end = 1, new_start = 1, new_end = 1\<rparr>"

definition sample_result :: sd_result where
  "sample_result = \<lparr>sd_change = sample_change, signal2 = 0,
     sd_up = \<lparr>curve = [], stopped_at_boundary = True\<rparr>,
     sd_down = \<lparr>curve = [], stopped_at_boundary = True\<rparr>, sd_class = ''structural''\<rparr>"

definition sample_lib :: "unit lib" where
  "sample_lib =
     \<lparr>scheme = ''priompt://'',
      org = (\<lambda>u. hd (split_on (CHR ''/'') (trim_prefix u ''priompt://''))),
      validate_prompt = (\<lambda>u t sl. if u = '''' then Some (Gerr [] ''uri is empty'')
                                  else if t = '''' then Some (Gerr [] ''template is empty'')
                                  else None),
      store_hash = sample_hash,
      default_branch = ''main'',
      analyze = (\<lambda>e a b. case e of None \<Rightarrow> Inl (Gerr [] ''no embedder'')
                        | Some _ \<Rightarrow> Inr (if a = b then [] else [sample_result])),
      worst = (\<lambda>rs. case rs of [] \<Rightarrow> '''' | r # _ \<Rightarrow> sd_class r),
      sd_kind = (\<lambda>_. ''replace'')\<rparr>"

section \<open>The contracts hold\<close>

lemma sample_simps [simp]:
  "st_get sample_ops = (\<lambda>u s. (case find_head u s of
          None \<Rightarrow> (\<lparr>p_uri = '''', p_template = '''', p_slots = [], p_version_hash = ''''\<rparr>,
                   Some not_found)
        | Some p \<Rightarrow> (p, None), s))"
  "st_commit sample_ops = sample_commit" "st_branch sample_ops = sample_branch"
  "st_merge sample_ops = sample_merge" "st_set_branch sample_ops = sample_set_branch"
  "st_get_commit sample_ops = (\<lambda>h s. (or_missing (find_commit h s), s))"
  "st_resolve sample_ops = (\<lambda>u r s. (sample_resolve u r s, s))"
  "default_branch sample_lib = ''main''" "store_hash sample_lib = sample_hash"
  "scheme sample_lib = ''priompt://''"
  "validate_prompt sample_lib u t sl = (if u = '''' then Some (Gerr [] ''uri is empty'')
     else if t = '''' then Some (Gerr [] ''template is empty'') else None)"
  "analyze sample_lib (Some e) a b = Inr (if a = b then [] else [sample_result])"
  "worst sample_lib [] = ''''" "worst sample_lib (r # rs) = sd_class r"
  by (simp_all add: sample_ops_def sample_lib_def)

lemma find_filter_other:
  "u \<noteq> v \<Longrightarrow> find (\<lambda>p. p_uri p = v) (filter (\<lambda>q. p_uri q \<noteq> u) ps) = find (\<lambda>p. p_uri p = v) ps"
  by (induction ps) auto

lemma find_head_simps [simp]:
  "find_head v (set_ref u b h s) = find_head v s"
  "find_head v (record_commit c s) = find_head v s"
  "find_head v (set_head p s) = (if p_uri p = v then Some p else find_head v s)"
  by (simp_all add: find_head_def set_ref_def record_commit_def set_head_def find_filter_other)

lemma find_head_advance [simp]:
  "find_head v (advance c b s) =
     (if b = ''main'' \<and> c_uri c = v then Some (prompt_of c) else find_head v s)"
  by (simp add: advance_def Let_def prompt_of_def)

lemma find_commit_record:
  "c_hash c = h \<Longrightarrow> find_commit h (advance c b (record_commit c s)) = Some c"
  by (simp add: find_commit_def advance_def record_commit_def set_head_def set_ref_def Let_def)

lemma sample_org_laws: "org_laws sample_lib"
proof -
  have "split_on (CHR ''/'') (o' @ CHR ''/'' # t) = o' # split_on (CHR ''/'') t"
    if "CHR ''/'' \<notin> set o'" for o' t
    using that by (rule split_on_append_sep)
  then show ?thesis
    by (simp add: org_laws_def sample_lib_def split_on_single
        trim_prefix_append [of "''priompt://''", simplified])
qed

lemma served_sample: "served sample_ops s u = (case find_head u s of
    None \<Rightarrow> (\<lparr>p_uri = '''', p_template = '''', p_slots = [], p_version_hash = ''''\<rparr>, Some not_found)
  | Some p \<Rightarrow> (p, None))"
  by (simp add: served_def)

theorem sample_store_contract: "store_contract sample_lib sample_ops"
  unfolding store_contract_def
proof (intro conjI)
  show "reads_pure sample_ops" by (simp add: reads_pure_def sample_ops_def)
  show "commit_contract sample_lib sample_ops"
    by (auto simp: commit_contract_def served_sample sample_commit_def Let_def prompt_of_def)
  show "merge_contract sample_lib sample_ops"
    unfolding merge_contract_def served_sample sample_simps sample_merge_def
    by (auto simp: Let_def prompt_of_def or_missing_def find_commit_record split: option.splits)
  show "set_branch_contract sample_lib sample_ops"
    by (auto simp: set_branch_contract_def served_sample sample_set_branch_def split: option.splits if_splits)
  show "branch_contract sample_ops"
    by (auto simp: branch_contract_def served_sample sample_branch_def split: option.splits)
qed

end
