(* ===== verification/Authz.thy ===== *)
theory Authz
  imports Registry_Deps
begin

text \<open>
  Authorization, \<open>internal/auth/auth.go\<close>: the write gate, the org scope of a token on a single
  address and on a listing prefix, and the author recorded on a commit.
\<close>

section \<open>Definitions\<close>

definition RequireWrite :: "ctx \<Rightarrow> status option" where
  "RequireWrite ctx =
     (case ctx of (i, ok) \<Rightarrow>
        if ok \<and> \<not> id_write i
        then Some (status_error PermissionDenied ''token is read-only'')
        else None)"

definition Scope :: "ctx \<Rightarrow> string" where
  "Scope ctx = id_org (fst ctx)"

definition auth_subject :: "ctx \<Rightarrow> string" where
  "auth_subject ctx = id_sub (fst ctx)"

definition ScopeOf :: "ctx \<Rightarrow> string" where
  "ScopeOf ctx =
     (let i = fst ctx in
      if id_sub i \<noteq> '''' then id_sub i
      else if id_org i \<noteq> '''' then id_org i
      else ''anonymous'')"

definition OrgOf :: "'em lib \<Rightarrow> string \<Rightarrow> string" where
  "OrgOf L uri = org L uri"

definition Authorize :: "'em lib \<Rightarrow> ctx \<Rightarrow> string \<Rightarrow> status option" where
  "Authorize L ctx uri =
     (let scope = Scope ctx in
      if scope = '''' \<or> scope = OrgOf L uri then None
      else Some (status_errorf PermissionDenied ''token not authorized for org %q'' [OrgOf L uri]))"

definition AuthorizePrefix :: "'em lib \<Rightarrow> ctx \<Rightarrow> string \<Rightarrow> status option" where
  "AuthorizePrefix L ctx pfx =
     (let scope = Scope ctx in
      if scope = '''' then None
      else let want = scheme L @ scope in
        if pfx = want \<or> has_prefix pfx (want @ ''/'') then None
        else Some (status_errorf PermissionDenied ''token not authorized for prefix %q'' [pfx]))"

definition InScope :: "'em lib \<Rightarrow> ctx \<Rightarrow> string \<Rightarrow> bool" where
  "InScope L ctx uri \<longleftrightarrow> (let scope = Scope ctx in scope = '''' \<or> scope = OrgOf L uri)"

section \<open>Lemmas\<close>

lemma Authorize_None [simp]: "Authorize L ctx uri = None \<longleftrightarrow> InScope L ctx uri"
  by (simp add: Authorize_def InScope_def Let_def)

lemma Authorize_pass [simp]: "InScope L ctx uri \<Longrightarrow> Authorize L ctx uri = None"
  by simp

lemma Authorize_Some_code: "Authorize L ctx uri = Some e \<Longrightarrow> st_code e = PermissionDenied"
  by (auto simp: Authorize_def Let_def split: if_splits)

lemma RequireWrite_None [simp]: "RequireWrite ctx = None \<longleftrightarrow> (snd ctx \<longrightarrow> id_write (fst ctx))"
  by (auto simp: RequireWrite_def split: prod.splits)

lemma RequireWrite_pass [simp]: "id_write (fst ctx) \<Longrightarrow> RequireWrite ctx = None"
  by simp

lemma RequireWrite_Some_code: "RequireWrite ctx = Some e \<Longrightarrow> st_code e = PermissionDenied"
  by (auto simp: RequireWrite_def split: prod.splits if_splits)

lemma AuthorizePrefix_Some_code:
  "AuthorizePrefix L ctx p = Some e \<Longrightarrow> st_code e = PermissionDenied"
  by (auto simp: AuthorizePrefix_def Let_def split: if_splits)

lemma AuthorizePrefix_None:
  "AuthorizePrefix L ctx p = None \<longleftrightarrow>
     Scope ctx = '''' \<or> p = scheme L @ Scope ctx \<or> (\<exists>t. p = scheme L @ Scope ctx @ ''/'' @ t)"
  by (auto simp: AuthorizePrefix_def Let_def has_prefix_iff)

lemma ScopeOf_nonempty: "ScopeOf ctx \<noteq> ''''"
  by (simp add: ScopeOf_def Let_def)

end
