(* ===== verification/Store_Status.thy ===== *)
theory Store_Status
  imports Registry_Deps
begin

text \<open>
  Translation of storage failures into gRPC statuses, \<open>internal/server/errors.go\<close>, with the log
  lines it writes, and the two wrappers of \<open>internal/server/server.go\<close>.
\<close>

section \<open>Definitions\<close>

text \<open>\<open>isUnavailable\<close>: the transport failures worth a retry, by their text.\<close>

definition unavailable_texts :: "string list" where
  "unavailable_texts =
     [''connection refused'', ''no such host'', ''connection reset'',
      ''i/o timeout'', ''server closed the connection'', ''failed to connect'',
      ''database is locked'', ''too many connections'', ''driver: bad connection'']"

definition isUnavailable :: "gerr \<Rightarrow> bool" where
  "isUnavailable e = (let s = to_lower (err_text e) in \<exists>m \<in> set unavailable_texts. contains s m)"

text \<open>\<open>storeError\<close> on an error that is not nil, which is how every handler calls it.\<close>

definition store_status :: "string \<Rightarrow> gerr \<Rightarrow> status \<times> log_line list" where
  "store_status op e =
     (if errors_is e Err_Canceled then (status_error Canceled ''request canceled'', [])
      else if errors_is e Err_DeadlineExceeded
        then (status_error DeadlineExceeded ''request deadline exceeded'', [])
      else if errors_is e Err_NotFound then (status_error NotFound ''not found'', [])
      else if errors_is e Err_BranchNotFound then (status_error NotFound ''branch not found'', [])
      else if errors_is e Err_AlreadyExists
        then (status_error AlreadyExists ''branch already exists'', [])
      else if errors_is e Err_Conflict
        then (status_error Aborted
                ''the branch moved while this write was in flight; re-read and retry'', [])
      else if isUnavailable e
        then (status_error Unavailable ''storage backend unavailable'',
              [(''%s: database unavailable: %v'', [op, err_text e])])
      else (status_errorf Internal ''%s failed'' [op], [(''%s: %v'', [op, err_text e])]))"

definition storeError :: "string \<Rightarrow> gerr option \<Rightarrow> status option \<times> log_line list" where
  "storeError op err =
     (case err of
        None \<Rightarrow> (None, [])
      | Some e \<Rightarrow> (case store_status op e of (st, lg) \<Rightarrow> (Some st, lg)))"

definition branchErr :: "gerr \<Rightarrow> status \<times> log_line list" where
  "branchErr e = store_status ''branch'' e"

definition diffCommitErr :: "gerr \<Rightarrow> status \<times> log_line list" where
  "diffCommitErr e =
     (if errors_is e Err_NotFound then (status_error NotFound ''commit not found'', [])
      else store_status ''diff commits'' e)"

section \<open>Properties\<close>

text \<open>
  No storage error reaches a client: the status \<open>storeError\<close> returns has one of eight fixed
  messages, and its only argument, if any, is the operation's name, never the error's text.
\<close>

theorem store_error_discloses_nothing:
  "st_args (fst (store_status op e)) \<in> {[], [op]}
   \<and> st_fmt (fst (store_status op e)) \<in>
      {''request canceled'', ''request deadline exceeded'', ''not found'', ''branch not found'',
       ''branch already exists'',
       ''the branch moved while this write was in flight; re-read and retry'',
       ''storage backend unavailable'', ''%s failed''}"
  by (simp add: store_status_def status_error_def status_errorf_def)

end
