(* ===== verification/L2_Cache.thy ===== *)
theory L2_Cache
  imports Registry_Deps
begin

text \<open>
  The server-side cache, \<open>internal/server/cache.go\<close>: the \<open>Cache\<close> interface with the contract its
  clients rely on, and the in-process implementation \<open>ttlCache\<close>, proved to meet it and to hit
  exactly within the time to live.
\<close>

section \<open>The interface\<close>

text \<open>\<open>pb.GetPromptResponse\<close>, what the cache holds.\<close>

record get_resp =
  g_uri :: string
  g_template :: string
  g_slots :: "string list"
  g_version_hash :: string
  g_commit_hash :: string

text \<open>The interface \<open>Cache\<close>, over the state \<open>'ca\<close> of an implementation.\<close>

record 'ca cache =
  c_get :: "string \<Rightarrow> 'ca \<Rightarrow> get_resp option \<times> 'ca"
  c_put :: "string \<Rightarrow> get_resp \<Rightarrow> 'ca \<Rightarrow> 'ca"
  c_invalidate :: "string \<Rightarrow> 'ca \<Rightarrow> gerr option \<times> 'ca"

text \<open>
  The contract. \<open>view\<close> is what an implementation may still answer for an address, now or later:
  it over-approximates a hit, since an entry may expire or a read may fail. Nothing but a \<open>Put\<close>
  adds to it, and an \<open>Invalidate\<close> that reports success removes the address.
\<close>

locale l2_cache =
  fixes K :: "'ca cache"
    and view :: "'ca \<Rightarrow> string \<Rightarrow> get_resp option"
  assumes get_sound: "fst (c_get K u c) = Some r \<Longrightarrow> view c u = Some r"
    and get_keeps: "view (snd (c_get K u c)) v = Some r \<Longrightarrow> view c v = Some r"
    and put_adds: "view (c_put K u r c) v = Some x \<Longrightarrow> (v = u \<and> x = r) \<or> view c v = Some x"
    and invalidate_keeps: "view (snd (c_invalidate K u c)) v = Some x \<Longrightarrow> view c v = Some x"
    and invalidate_clears:
      "fst (c_invalidate K u c) = None \<Longrightarrow> view (snd (c_invalidate K u c)) u = None"
begin

text \<open>An invariant of the cached entries survives every operation that respects it.\<close>

lemma get_invariant:
  assumes "\<And>v x. view c v = Some x \<Longrightarrow> P v x"
  shows "\<And>v x. view (snd (c_get K u c)) v = Some x \<Longrightarrow> P v x"
  using assms get_keeps by blast

lemma put_invariant:
  assumes "\<And>v x. view c v = Some x \<Longrightarrow> P v x" and "P u r"
  shows "\<And>v x. view (c_put K u r c) v = Some x \<Longrightarrow> P v x"
  using assms put_adds by metis

lemma invalidate_invariant:
  assumes "\<And>v x. view c v = Some x \<Longrightarrow> P v x"
  shows "\<And>v x. view (snd (c_invalidate K u c)) v = Some x \<Longrightarrow> P v x"
  using assms invalidate_keeps by blast

lemma invalidated_misses:
  assumes "fst (c_invalidate K u c) = None"
  shows "fst (c_get K u (snd (c_invalidate K u c))) = None"
proof (rule ccontr)
  assume "fst (c_get K u (snd (c_invalidate K u c))) \<noteq> None"
  then obtain r where "fst (c_get K u (snd (c_invalidate K u c))) = Some r" by blast
  then have "view (snd (c_invalidate K u c)) u = Some r" by (rule get_sound)
  with invalidate_clears [OF assms] show False by simp
qed

end

text \<open>A cache whose invalidation cannot fail, as the in-process one.\<close>

locale reliable_cache = l2_cache +
  assumes invalidate_succeeds: "fst (c_invalidate K u c) = None"
begin

lemma always_misses_after_invalidate: "fst (c_get K u (snd (c_invalidate K u c))) = None"
  by (rule invalidated_misses) (rule invalidate_succeeds)

end

section \<open>The in-process cache\<close>

record cache_entry =
  e_resp :: get_resp
  e_expiry :: gotime

text \<open>\<open>clock\<close> is the value \<open>time.Now()\<close> would return; the environment moves it, the cache reads it.\<close>

record ttl_cache =
  ttl :: int
  m :: "string \<Rightarrow> cache_entry option"
  clock :: gotime

definition NewMemCache :: "gotime \<Rightarrow> int \<Rightarrow> ttl_cache option" where
  "NewMemCache now t = (if t \<le> 0 then None else Some \<lparr>ttl = t, m = Map.empty, clock = now\<rparr>)"

definition ttl_get :: "string \<Rightarrow> ttl_cache \<Rightarrow> get_resp option \<times> ttl_cache" where
  "ttl_get uri c =
     ((case m c uri of
         None \<Rightarrow> None
       | Some e \<Rightarrow> if time_after (clock c) (e_expiry e) then None else Some (e_resp e)), c)"

definition ttl_put :: "string \<Rightarrow> get_resp \<Rightarrow> ttl_cache \<Rightarrow> ttl_cache" where
  "ttl_put uri resp c =
     c\<lparr>m := (m c)(uri \<mapsto> \<lparr>e_resp = resp, e_expiry = time_add (clock c) (ttl c)\<rparr>)\<rparr>"

definition ttl_invalidate :: "string \<Rightarrow> ttl_cache \<Rightarrow> gerr option \<times> ttl_cache" where
  "ttl_invalidate uri c = (None, c\<lparr>m := (m c)(uri := None)\<rparr>)"

definition mem_cache :: "ttl_cache cache" where
  "mem_cache = \<lparr>c_get = ttl_get, c_put = ttl_put, c_invalidate = ttl_invalidate\<rparr>"

text \<open>The passage of time between two calls.\<close>

definition ttl_tick :: "int \<Rightarrow> ttl_cache \<Rightarrow> ttl_cache" where
  "ttl_tick d c = c\<lparr>clock := time_add (clock c) d\<rparr>"

definition ttl_view :: "ttl_cache \<Rightarrow> string \<Rightarrow> get_resp option" where
  "ttl_view c u = map_option e_resp (m c u)"

lemmas ttl_defs = ttl_get_def ttl_put_def ttl_invalidate_def ttl_tick_def time_after_def

lemma mem_cache_simps [simp]:
  "c_get mem_cache = ttl_get" "c_put mem_cache = ttl_put" "c_invalidate mem_cache = ttl_invalidate"
  by (simp_all add: mem_cache_def)

lemma ttl_view_tick [simp]: "ttl_view (ttl_tick d c) = ttl_view c"
  by (simp add: ttl_view_def ttl_tick_def fun_eq_iff)

interpretation mem: reliable_cache mem_cache ttl_view
  by unfold_locales
     (auto simp: ttl_defs ttl_view_def split: option.splits if_splits)

section \<open>Behaviour over a history\<close>

text \<open>
  The specification of the cache is a history of events, most recent first. \<open>last_write\<close> is the
  response the latest \<open>Put\<close> of an address stored, with the time elapsed since, unless an
  \<open>Invalidate\<close> came after it.
\<close>

datatype cache_event = Put string get_resp | Invalidate string | Get string | Tick nat

fun cache_apply :: "cache_event \<Rightarrow> ttl_cache \<Rightarrow> ttl_cache" where
  "cache_apply (Put u r) c = ttl_put u r c"
| "cache_apply (Invalidate u) c = snd (ttl_invalidate u c)"
| "cache_apply (Get u) c = snd (ttl_get u c)"
| "cache_apply (Tick d) c = ttl_tick (int d) c"

fun cache_after :: "cache_event list \<Rightarrow> ttl_cache \<Rightarrow> ttl_cache" where
  "cache_after [] c = c"
| "cache_after (e # es) c = cache_apply e (cache_after es c)"

fun last_write :: "string \<Rightarrow> cache_event list \<Rightarrow> (get_resp \<times> nat) option" where
  "last_write u [] = None"
| "last_write u (Put v r # es) = (if u = v then Some (r, 0) else last_write u es)"
| "last_write u (Invalidate v # es) = (if u = v then None else last_write u es)"
| "last_write u (Get v # es) = last_write u es"
| "last_write u (Tick d # es) = map_option (\<lambda>(r, a). (r, a + d)) (last_write u es)"

lemma cache_after_ttl [simp]: "ttl (cache_after es c) = ttl c"
proof (induction es)
  case (Cons e es)
  then show ?case by (cases e) (simp_all add: ttl_defs)
qed simp

lemma cache_after_entry:
  assumes "NewMemCache now t = Some c"
  shows "m (cache_after es c) u =
    map_option (\<lambda>(r, a). \<lparr>e_resp = r, e_expiry = time_add (clock (cache_after es c)) (t - int a)\<rparr>)
      (last_write u es)"
proof (induction es)
  case Nil
  from assms show ?case by (auto simp: NewMemCache_def split: if_splits)
next
  case (Cons e es)
  from assms have t: "ttl c = t" by (auto simp: NewMemCache_def split: if_splits)
  show ?case
  proof (cases e)
    case (Tick d)
    with Cons show ?thesis
      by (cases "last_write u es") (auto simp: ttl_defs time_add_def)
  qed (use Cons t in \<open>auto simp: ttl_defs\<close>)
qed

text \<open>
  C33. The in-process cache against its specification: whatever puts, invalidations, reads and
  passage of time came before, a read answers the response of the latest put of that address if
  it was not invalidated since and at most the time to live ago, and misses otherwise.
\<close>

theorem mem_cache_serves_latest_within_ttl:
  assumes "NewMemCache now t = Some c"
  shows "fst (ttl_get u (cache_after es c)) =
    (case last_write u es of
       Some (r, age) \<Rightarrow> if int age \<le> t then Some r else None
     | None \<Rightarrow> None)"
  using cache_after_entry [OF assms, of es u]
  by (cases "last_write u es") (auto simp: ttl_defs)

text \<open>A put is served for the whole time to live and not a nanosecond longer.\<close>

theorem mem_cache_serves_latest_within_ttl_witness:
  "\<exists>c r. NewMemCache time_zero 30 = Some c
     \<and> fst (ttl_get ''a'' (cache_after [Tick 30, Put ''a'' r] c)) = Some r
     \<and> fst (ttl_get ''a'' (cache_after [Tick 31, Put ''a'' r] c)) = None"
proof -
  obtain c where c: "NewMemCache time_zero 30 = Some c" by (simp add: NewMemCache_def)
  note spec = mem_cache_serves_latest_within_ttl [OF c, of "''a''"]
  show ?thesis
    using c spec [of "[Tick 30, Put ''a'' r]" for r] spec [of "[Tick 31, Put ''a'' r]" for r]
    by auto
qed

end
