(* ===== verification/Prompt_Server.thy ===== *)
theory Prompt_Server
  imports Authz Store_Status L2_Cache
begin

text \<open>
  The gRPC handlers, \<open>internal/server/server.go\<close>, in the order of the file. A handler is a
  transition of the world it acts on, the store, the cache, the notifier and the log, and its
  result is a status or a response. The early returns and the order of the effects are the
  code's.
\<close>

section \<open>Messages\<close>

record publish_req =
  pq_uri :: string
  pq_template :: string
  pq_slots :: "string list"
  pq_message :: string
  pq_branch :: string

record get_req =
  gq_uri :: string
  gq_ref :: string

record diff_req =
  dq_uri :: string
  dq_new_template :: string

record history_req =
  hq_uri :: string
  hq_branch :: string

record create_branch_req =
  bq_uri :: string
  bq_name :: string
  bq_from :: string

record merge_req =
  mq_uri :: string
  mq_into :: string
  mq_from :: string
  mq_message :: string

record diff_commits_req =
  cq_uri :: string
  cq_from_hash :: string
  cq_to_hash :: string

record set_branch_req =
  sq_uri :: string
  sq_branch :: string
  sq_commit_hash :: string

record prompt_entry =
  pe_uri :: string
  pe_version_hash :: string

record pb_branch =
  br_name :: string
  br_commit_hash :: string

record pb_commit =
  pc_hash :: string
  pc_version_hash :: string
  pc_parent :: string
  pc_parent2 :: string
  pc_author :: string
  pc_message :: string
  pc_created_at :: string

record pb_window =
  pw_radius :: "32 word"
  pw_delta :: float64

record pb_change =
  ch_old_start :: "32 word"
  ch_old_end :: "32 word"
  ch_new_start :: "32 word"
  ch_new_end :: "32 word"
  ch_kind :: string
  ch_point_delta :: float64
  ch_up :: "pb_window list"
  ch_down :: "pb_window list"
  ch_up_boundary :: bool
  ch_down_boundary :: bool
  ch_classification :: string

section \<open>The server and its world\<close>

text \<open>The interface \<open>Notifier\<close>, over the state \<open>'nt\<close> of an implementation.\<close>

record 'nt notifier =
  n_publish :: "string \<Rightarrow> string \<Rightarrow> string \<Rightarrow> 'nt \<Rightarrow> gerr option \<times> 'nt"

text \<open>The struct \<open>Server\<close>; \<open>None\<close> is a nil field.\<close>

record ('st, 'ca, 'nt, 'em) server =
  sv_store :: "'st store"
  sv_cache :: "'ca cache option"
  sv_embedder :: "'em option"
  sv_notifier :: "'nt notifier option"

record ('st, 'ca, 'nt) world =
  w_store :: 'st
  w_cache :: 'ca
  w_notif :: 'nt
  w_log :: "log_line list"

definition NewServer ::
  "'st store \<Rightarrow> 'ca cache option \<Rightarrow> 'em option \<Rightarrow> 'nt notifier option
   \<Rightarrow> ('st, 'ca, 'nt, 'em) server" where
  "NewServer st cache emb n =
     \<lparr>sv_store = st, sv_cache = cache, sv_embedder = emb, sv_notifier = n\<rparr>"

subsection \<open>Calls\<close>

text \<open>A call of the store, a log write, a failure reported through \<open>storeError\<close>.\<close>

definition on_store ::
  "('st \<Rightarrow> 'a \<times> 'st) \<Rightarrow> ('st, 'ca, 'nt) world \<Rightarrow> 'a \<times> ('st, 'ca, 'nt) world" where
  "on_store f w = (case f (w_store w) of (r, s) \<Rightarrow> (r, w\<lparr>w_store := s\<rparr>))"

definition log_w :: "log_line list \<Rightarrow> ('st, 'ca, 'nt) world \<Rightarrow> ('st, 'ca, 'nt) world" where
  "log_w ls w = w\<lparr>w_log := w_log w @ ls\<rparr>"

definition fail_with ::
  "status \<times> log_line list \<Rightarrow> ('st, 'ca, 'nt) world \<Rightarrow> (status + 'r) \<times> ('st, 'ca, 'nt) world" where
  "fail_with sl w = (case sl of (st, ls) \<Rightarrow> (Inl st, log_w ls w))"

text \<open>\<open>if s.Notifier != nil { _ = s.Notifier.Publish(uri, hash, class) }\<close>: the error is dropped.\<close>

definition notify ::
  "('st, 'ca, 'nt, 'em) server \<Rightarrow> string \<Rightarrow> string \<Rightarrow> string
   \<Rightarrow> ('st, 'ca, 'nt) world \<Rightarrow> ('st, 'ca, 'nt) world" where
  "notify S uri hash class w =
     (case sv_notifier S of
        None \<Rightarrow> w
      | Some n \<Rightarrow> w\<lparr>w_notif := snd (n_publish n uri hash class (w_notif w))\<rparr>)"

section \<open>Helpers of the handlers\<close>

definition branchOr :: "'em lib \<Rightarrow> string \<Rightarrow> string" where
  "branchOr L b = (if b = '''' then default_branch L else b)"

definition invalidate ::
  "'ca cache option \<Rightarrow> string \<Rightarrow> ('st, 'ca, 'nt) world \<Rightarrow> status option \<times> ('st, 'ca, 'nt) world" where
  "invalidate c uri w =
     (case c of
        None \<Rightarrow> (None, w)
      | Some K \<Rightarrow>
          (case c_invalidate K uri (w_cache w) of
             (None, ca) \<Rightarrow> (None, w\<lparr>w_cache := ca\<rparr>)
           | (Some e, ca) \<Rightarrow>
               (Some (status_error Unavailable
                  ''the change is stored but the cache could not be cleared; retry so readers see it''),
                log_w [(''cache invalidate %s: %v'', [uri, err_text e])] (w\<lparr>w_cache := ca\<rparr>))))"

definition splitLines :: "string \<Rightarrow> string list" where
  "splitLines s =
     (let s = crlf_to_lf s;
          s = (if has_suffix s [LF] then s else s @ [LF])
      in split_on LF s)"

definition classify ::
  "'em lib \<Rightarrow> ('st, 'ca, 'nt, 'em) server \<Rightarrow> string \<Rightarrow> string \<Rightarrow> string \<times> log_line list" where
  "classify L S oldT newT =
     (if sv_embedder S = None \<or> oldT = '''' then ('''', [])
      else (case analyze L (sv_embedder S) (splitLines oldT) (splitLines newT) of
              Inl e \<Rightarrow> ('''', [(''classify: semantic verdict unavailable, notifying without one: %v'',
                               [err_text e])])
            | Inr res \<Rightarrow> (worst L res, [])))"

text \<open>\<open>int32(x)\<close> of a Go \<open>int\<close> keeps the low 32 bits.\<close>

definition int32 :: "64 word \<Rightarrow> 32 word" where
  "int32 x = ucast x"

definition toWindows :: "window list \<Rightarrow> pb_window list" where
  "toWindows ws = map (\<lambda>w. \<lparr>pw_radius = int32 (radius w), pw_delta = delta w\<rparr>) ws"

definition diff_change :: "'em lib \<Rightarrow> sd_result \<Rightarrow> pb_change" where
  "diff_change L r =
     \<lparr>ch_old_start = int32 (old_start (sd_change r)),
      ch_old_end = int32 (old_end (sd_change r)),
      ch_new_start = int32 (new_start (sd_change r)),
      ch_new_end = int32 (new_end (sd_change r)),
      ch_kind = sd_kind L (sd_change r),
      ch_point_delta = signal2 r,
      ch_up = toWindows (curve (sd_up r)),
      ch_down = toWindows (curve (sd_down r)),
      ch_up_boundary = stopped_at_boundary (sd_up r),
      ch_down_boundary = stopped_at_boundary (sd_down r),
      ch_classification = sd_class r\<rparr>"

text \<open>The method \<open>(*Server).diff\<close>.\<close>

definition server_diff ::
  "'em lib \<Rightarrow> ('st, 'ca, 'nt, 'em) server \<Rightarrow> string \<Rightarrow> string
   \<Rightarrow> ('st, 'ca, 'nt) world \<Rightarrow> (status + pb_change list) \<times> ('st, 'ca, 'nt) world" where
  "server_diff L S oldT newT w =
     (case analyze L (sv_embedder S) (splitLines oldT) (splitLines newT) of
        Inl e \<Rightarrow> (Inl (status_error Internal ''diff failed''), log_w [(''diff: %v'', [err_text e])] w)
      | Inr results \<Rightarrow> (Inr (map (diff_change L) results), w))"

definition commitsPB :: "commit list \<Rightarrow> pb_commit list" where
  "commitsPB cs =
     map (\<lambda>c. \<lparr>pc_hash = c_hash c, pc_version_hash = c_version_hash c, pc_parent = c_parent c,
               pc_parent2 = c_parent2 c, pc_author = c_author c, pc_message = c_message c,
               pc_created_at = format_rfc3339nano (c_created_at c)\<rparr>) cs"

section \<open>PublishPrompt\<close>

text \<open>
  The handler in three parts: the checks before anything is read, the comparison with what the
  target branch already holds (which may end the call), and the commit with what follows it.
\<close>

datatype publish_step = Finish "status + string" | Commit_as string

definition publish_precheck ::
  "'em lib \<Rightarrow> ('st, 'ca, 'nt, 'em) server \<Rightarrow> publish_req \<Rightarrow> string \<Rightarrow> string
   \<Rightarrow> ('st, 'ca, 'nt) world \<Rightarrow> publish_step \<times> ('st, 'ca, 'nt) world" where
  "publish_precheck L S req hash branch w =
     (if branch \<noteq> default_branch L then
        (case on_store (st_resolve (sv_store S) (pq_uri req) branch) w of
           (Inr tip, w1) \<Rightarrow>
             (if c_version_hash tip = hash then (Finish (Inr hash), w1) else (Commit_as '''', w1))
         | (Inl _, w1) \<Rightarrow> (Commit_as '''', w1))
      else
        (case on_store (st_get (sv_store S) (pq_uri req)) w of
           ((prev, None), w1) \<Rightarrow>
             (if p_version_hash prev = hash then
                (case invalidate (sv_cache S) (pq_uri req) w1 of
                   (Some e, w2) \<Rightarrow> (Finish (Inl e), w2)
                 | (None, w2) \<Rightarrow> (Finish (Inr hash), w2))
              else
                (case classify L S (p_template prev) (pq_template req) of
                   (class, ls) \<Rightarrow> (Commit_as class, log_w ls w1)))
         | ((prev, Some e), w1) \<Rightarrow>
             (if errors_is e Err_NotFound then (Commit_as ''new'', w1) else (Commit_as '''', w1))))"

definition publish_commit ::
  "'em lib \<Rightarrow> ('st, 'ca, 'nt, 'em) server \<Rightarrow> ctx \<Rightarrow> publish_req \<Rightarrow> string \<Rightarrow> string \<Rightarrow> string
   \<Rightarrow> ('st, 'ca, 'nt) world \<Rightarrow> (status + string) \<times> ('st, 'ca, 'nt) world" where
  "publish_commit L S ctx req hash branch class w =
     (case on_store (st_commit (sv_store S) (pq_uri req) branch (pq_template req) (pq_slots req)
                      (ScopeOf ctx) (pq_message req)) w of
        (Inl e, w1) \<Rightarrow> fail_with (store_status ''publish'' e) w1
      | (Inr _, w1) \<Rightarrow>
          (if branch = default_branch L then
             (case invalidate (sv_cache S) (pq_uri req) w1 of
                (invErr, w2) \<Rightarrow>
                  (let w3 = notify S (pq_uri req) hash class w2
                   in (case invErr of Some e \<Rightarrow> (Inl e, w3) | None \<Rightarrow> (Inr hash, w3))))
           else (Inr hash, w1)))"

definition PublishPrompt ::
  "'em lib \<Rightarrow> ('st, 'ca, 'nt, 'em) server \<Rightarrow> ctx \<Rightarrow> publish_req
   \<Rightarrow> ('st, 'ca, 'nt) world \<Rightarrow> (status + string) \<times> ('st, 'ca, 'nt) world" where
  "PublishPrompt L S ctx req w =
     (case Authorize L ctx (pq_uri req) of Some e \<Rightarrow> (Inl e, w) | None \<Rightarrow>
      (case RequireWrite ctx of Some e \<Rightarrow> (Inl e, w) | None \<Rightarrow>
       (case validate_prompt L (pq_uri req) (pq_template req) (pq_slots req) of
          Some e \<Rightarrow> (Inl (status_errorf InvalidArgument ''invalid prompt: %v'' [err_text e]), w)
        | None \<Rightarrow>
            (let hash = store_hash L (pq_template req) (pq_slots req);
                 branch = branchOr L (pq_branch req)
             in (case publish_precheck L S req hash branch w of
                   (Finish r, w1) \<Rightarrow> (r, w1)
                 | (Commit_as class, w1) \<Rightarrow> publish_commit L S ctx req hash branch class w1)))))"

section \<open>GetPrompt\<close>

definition getByRef ::
  "'em lib \<Rightarrow> ('st, 'ca, 'nt, 'em) server \<Rightarrow> string \<Rightarrow> string
   \<Rightarrow> ('st, 'ca, 'nt) world \<Rightarrow> (status + get_resp) \<times> ('st, 'ca, 'nt) world" where
  "getByRef L S uri rf w =
     (case on_store (st_resolve (sv_store S) uri rf) w of
        (Inl e, w1) \<Rightarrow>
          (if errors_is e Err_NotFound \<or> errors_is e Err_BranchNotFound
           then (Inl (status_errorf NotFound ''ref %q not found for %q'' [rf, uri]), w1)
           else fail_with (store_status ''resolve'' e) w1)
      | (Inr c, w1) \<Rightarrow>
          (case validate_prompt L uri (c_template c) (c_slots c) of
             Some e \<Rightarrow> (Inl (status_errorf DataLoss ''stored prompt invalid: %v'' [err_text e]), w1)
           | None \<Rightarrow> (Inr \<lparr>g_uri = uri, g_template = c_template c, g_slots = c_slots c,
                          g_version_hash = c_version_hash c, g_commit_hash = c_hash c\<rparr>, w1)))"

text \<open>The part of \<open>GetPrompt\<close> that runs on a cache miss, up to the response it would cache.\<close>

definition get_head ::
  "'em lib \<Rightarrow> ('st, 'ca, 'nt, 'em) server \<Rightarrow> string
   \<Rightarrow> ('st, 'ca, 'nt) world \<Rightarrow> (status + get_resp) \<times> ('st, 'ca, 'nt) world" where
  "get_head L S uri w =
     (case on_store (st_get (sv_store S) uri) w of
        ((p, Some e), w1) \<Rightarrow>
          (if errors_is e Err_NotFound
           then (Inl (status_errorf NotFound ''prompt %q not found'' [uri]), w1)
           else fail_with (store_status ''lookup'' e) w1)
      | ((p, None), w1) \<Rightarrow>
          (case validate_prompt L (p_uri p) (p_template p) (p_slots p) of
             Some e \<Rightarrow> (Inl (status_errorf DataLoss ''stored prompt invalid: %v'' [err_text e]), w1)
           | None \<Rightarrow> (Inr \<lparr>g_uri = p_uri p, g_template = p_template p, g_slots = p_slots p,
                          g_version_hash = p_version_hash p, g_commit_hash = ''''\<rparr>, w1)))"

definition GetPrompt ::
  "'em lib \<Rightarrow> ('st, 'ca, 'nt, 'em) server \<Rightarrow> ctx \<Rightarrow> get_req
   \<Rightarrow> ('st, 'ca, 'nt) world \<Rightarrow> (status + get_resp) \<times> ('st, 'ca, 'nt) world" where
  "GetPrompt L S ctx req w =
     (let uri = gq_uri req in
      case Authorize L ctx uri of Some e \<Rightarrow> (Inl e, w) | None \<Rightarrow>
        (if gq_ref req \<noteq> '''' then getByRef L S uri (gq_ref req) w
         else (case sv_cache S of
             None \<Rightarrow> get_head L S uri w
           | Some K \<Rightarrow>
               (case c_get K uri (w_cache w) of
                  (Some resp, ca) \<Rightarrow> (Inr resp, w\<lparr>w_cache := ca\<rparr>)
                | (None, ca) \<Rightarrow>
                    (case get_head L S uri (w\<lparr>w_cache := ca\<rparr>) of
                       (Inl e, w1) \<Rightarrow> (Inl e, w1)
                     | (Inr resp, w1) \<Rightarrow> (Inr resp, w1\<lparr>w_cache := c_put K uri resp (w_cache w1)\<rparr>))))))"

section \<open>ListPrompts and DiffPrompt\<close>

definition ListPrompts ::
  "'em lib \<Rightarrow> ('st, 'ca, 'nt, 'em) server \<Rightarrow> ctx \<Rightarrow> string
   \<Rightarrow> ('st, 'ca, 'nt) world \<Rightarrow> (status + prompt_entry list) \<times> ('st, 'ca, 'nt) world" where
  "ListPrompts L S ctx reqPrefix w =
     (let scope = Scope ctx;
          pfx = (if reqPrefix = '''' \<and> scope \<noteq> '''' then scheme L @ scope @ ''/'' else reqPrefix)
      in case AuthorizePrefix L ctx pfx of Some e \<Rightarrow> (Inl e, w) | None \<Rightarrow>
        (case on_store (st_list (sv_store S) pfx) w of
           (Inl e, w1) \<Rightarrow> fail_with (store_status ''list'' e) w1
         | (Inr prompts, w1) \<Rightarrow>
             (Inr (map (\<lambda>p. \<lparr>pe_uri = p_uri p, pe_version_hash = p_version_hash p\<rparr>)
                (filter (\<lambda>p. InScope L ctx (p_uri p)) prompts)), w1)))"

definition DiffPrompt ::
  "'em lib \<Rightarrow> ('st, 'ca, 'nt, 'em) server \<Rightarrow> ctx \<Rightarrow> diff_req
   \<Rightarrow> ('st, 'ca, 'nt) world \<Rightarrow> (status + pb_change list) \<times> ('st, 'ca, 'nt) world" where
  "DiffPrompt L S ctx req w =
     (case Authorize L ctx (dq_uri req) of Some e \<Rightarrow> (Inl e, w) | None \<Rightarrow>
      (case on_store (st_get (sv_store S) (dq_uri req)) w of
         ((p, Some e), w1) \<Rightarrow>
           (if errors_is e Err_NotFound
            then (Inl (status_errorf NotFound ''prompt %q not found'' [dq_uri req]), w1)
            else fail_with (store_status ''lookup'' e) w1)
       | ((p, None), w1) \<Rightarrow> server_diff L S (p_template p) (dq_new_template req) w1))"

section \<open>History, ListCommits, ListBranches\<close>

definition History ::
  "'em lib \<Rightarrow> ('st, 'ca, 'nt, 'em) server \<Rightarrow> ctx \<Rightarrow> history_req
   \<Rightarrow> ('st, 'ca, 'nt) world \<Rightarrow> (status + pb_commit list) \<times> ('st, 'ca, 'nt) world" where
  "History L S ctx req w =
     (case Authorize L ctx (hq_uri req) of Some e \<Rightarrow> (Inl e, w) | None \<Rightarrow>
      (case on_store (st_log (sv_store S) (hq_uri req) (branchOr L (hq_branch req))) w of
         (Inl e, w1) \<Rightarrow> fail_with (branchErr e) w1
       | (Inr cs, w1) \<Rightarrow> (Inr (commitsPB cs), w1)))"

definition ListCommits ::
  "'em lib \<Rightarrow> ('st, 'ca, 'nt, 'em) server \<Rightarrow> ctx \<Rightarrow> string
   \<Rightarrow> ('st, 'ca, 'nt) world \<Rightarrow> (status + pb_commit list) \<times> ('st, 'ca, 'nt) world" where
  "ListCommits L S ctx uri w =
     (case Authorize L ctx uri of Some e \<Rightarrow> (Inl e, w) | None \<Rightarrow>
      (case on_store (st_commits (sv_store S) uri) w of
         (Inl e, w1) \<Rightarrow> fail_with (store_status ''list commits'' e) w1
       | (Inr cs, w1) \<Rightarrow> (Inr (commitsPB cs), w1)))"

definition ListBranches ::
  "'em lib \<Rightarrow> ('st, 'ca, 'nt, 'em) server \<Rightarrow> ctx \<Rightarrow> string
   \<Rightarrow> ('st, 'ca, 'nt) world \<Rightarrow> (status + pb_branch list) \<times> ('st, 'ca, 'nt) world" where
  "ListBranches L S ctx uri w =
     (case Authorize L ctx uri of Some e \<Rightarrow> (Inl e, w) | None \<Rightarrow>
      (case on_store (st_branches (sv_store S) uri) w of
         (Inl e, w1) \<Rightarrow> fail_with (store_status ''list branches'' e) w1
       | (Inr refs, w1) \<Rightarrow>
           (Inr (map (\<lambda>r. \<lparr>br_name = r_branch r, br_commit_hash = r_commit r\<rparr>) refs), w1)))"

section \<open>CreateBranch, MergeBranch, DiffCommits, SetBranch\<close>

definition CreateBranch ::
  "'em lib \<Rightarrow> ('st, 'ca, 'nt, 'em) server \<Rightarrow> ctx \<Rightarrow> create_branch_req
   \<Rightarrow> ('st, 'ca, 'nt) world \<Rightarrow> (status + string) \<times> ('st, 'ca, 'nt) world" where
  "CreateBranch L S ctx req w =
     (case Authorize L ctx (bq_uri req) of Some e \<Rightarrow> (Inl e, w) | None \<Rightarrow>
      (case RequireWrite ctx of Some e \<Rightarrow> (Inl e, w) | None \<Rightarrow>
       (if bq_name req = '''' then (Inl (status_error InvalidArgument ''branch name required''), w)
        else (case on_store (st_branch (sv_store S) (bq_uri req) (bq_name req)
                              (branchOr L (bq_from req))) w of
                (Inl e, w1) \<Rightarrow> fail_with (branchErr e) w1
              | (Inr hash, w1) \<Rightarrow> (Inr hash, w1)))))"

text \<open>\<open>merge_notify\<close> is the notification of \<open>MergeBranch\<close>: read the merge commit back and, when its
  content differs from what main served, publish it with a verdict.\<close>

definition merge_notify ::
  "'em lib \<Rightarrow> ('st, 'ca, 'nt, 'em) server \<Rightarrow> string \<Rightarrow> prompt \<Rightarrow> string
   \<Rightarrow> ('st, 'ca, 'nt) world \<Rightarrow> ('st, 'ca, 'nt) world" where
  "merge_notify L S uri prev hash w =
     (if sv_notifier S = None then w
      else (case on_store (st_get_commit (sv_store S) hash) w of
              (Inl _, w1) \<Rightarrow> w1
            | (Inr c, w1) \<Rightarrow>
                (if c_version_hash c \<noteq> p_version_hash prev then
                   (case classify L S (p_template prev) (c_template c) of
                      (class, ls) \<Rightarrow> notify S uri (c_version_hash c) class (log_w ls w1))
                 else w1)))"

text \<open>The zero \<open>store.Prompt\<close> that \<open>var prev store.Prompt\<close> declares.\<close>

definition zero_prompt :: prompt where
  "zero_prompt = \<lparr>p_uri = '''', p_template = '''', p_slots = [], p_version_hash = ''''\<rparr>"

definition MergeBranch ::
  "'em lib \<Rightarrow> ('st, 'ca, 'nt, 'em) server \<Rightarrow> ctx \<Rightarrow> merge_req
   \<Rightarrow> ('st, 'ca, 'nt) world \<Rightarrow> (status + string) \<times> ('st, 'ca, 'nt) world" where
  "MergeBranch L S ctx req w =
     (case Authorize L ctx (mq_uri req) of Some e \<Rightarrow> (Inl e, w) | None \<Rightarrow>
      (case RequireWrite ctx of Some e \<Rightarrow> (Inl e, w) | None \<Rightarrow>
       (let into = branchOr L (mq_into req);
            onMain = (into = default_branch L)
        in case (if onMain
                 then (case on_store (st_get (sv_store S) (mq_uri req)) w of
                         ((p, _), w1) \<Rightarrow> (p, w1))
                 else (zero_prompt, w)) of (prev, w1) \<Rightarrow>
          (case on_store (st_merge (sv_store S) (mq_uri req) into (mq_from req) (ScopeOf ctx)
                           (mq_message req)) w1 of
             (Inl e, w2) \<Rightarrow> fail_with (branchErr e) w2
           | (Inr hash, w2) \<Rightarrow>
               (if onMain then
                  (case invalidate (sv_cache S) (mq_uri req) w2 of
                     (invErr, w3) \<Rightarrow>
                       (let w4 = merge_notify L S (mq_uri req) prev hash w3
                        in (case invErr of Some e \<Rightarrow> (Inl e, w4) | None \<Rightarrow> (Inr hash, w4))))
                else (Inr hash, w2))))))"

text \<open>\<open>store.ErrNotFound\<close> is returned for a commit of another prompt; its text is never read.\<close>

definition commitOf ::
  "('st, 'ca, 'nt, 'em) server \<Rightarrow> string \<Rightarrow> string
   \<Rightarrow> ('st, 'ca, 'nt) world \<Rightarrow> (gerr + commit) \<times> ('st, 'ca, 'nt) world" where
  "commitOf S uri hash w =
     (case on_store (st_get_commit (sv_store S) hash) w of
        (Inr c, w1) \<Rightarrow> (if c_uri c \<noteq> uri then (Inl (Gerr [Err_NotFound] ''not found''), w1)
                       else (Inr c, w1))
      | (Inl e, w1) \<Rightarrow> (Inl e, w1))"

definition DiffCommits ::
  "'em lib \<Rightarrow> ('st, 'ca, 'nt, 'em) server \<Rightarrow> ctx \<Rightarrow> diff_commits_req
   \<Rightarrow> ('st, 'ca, 'nt) world \<Rightarrow> (status + pb_change list) \<times> ('st, 'ca, 'nt) world" where
  "DiffCommits L S ctx req w =
     (case Authorize L ctx (cq_uri req) of Some e \<Rightarrow> (Inl e, w) | None \<Rightarrow>
      (case commitOf S (cq_uri req) (cq_from_hash req) w of
         (Inl e, w1) \<Rightarrow> fail_with (diffCommitErr e) w1
       | (Inr from, w1) \<Rightarrow>
           (case commitOf S (cq_uri req) (cq_to_hash req) w1 of
              (Inl e, w2) \<Rightarrow> fail_with (diffCommitErr e) w2
            | (Inr to, w2) \<Rightarrow> server_diff L S (c_template from) (c_template to) w2)))"

definition SetBranch ::
  "'em lib \<Rightarrow> ('st, 'ca, 'nt, 'em) server \<Rightarrow> ctx \<Rightarrow> set_branch_req
   \<Rightarrow> ('st, 'ca, 'nt) world \<Rightarrow> (status + string) \<times> ('st, 'ca, 'nt) world" where
  "SetBranch L S ctx req w =
     (case Authorize L ctx (sq_uri req) of Some e \<Rightarrow> (Inl e, w) | None \<Rightarrow>
      (case RequireWrite ctx of Some e \<Rightarrow> (Inl e, w) | None \<Rightarrow>
       (if sq_commit_hash req = '''' then (Inl (status_error InvalidArgument ''commit_hash required''), w)
        else
          (let branch = branchOr L (sq_branch req)
           in case (if branch = default_branch L
                    then (case on_store (st_get (sv_store S) (sq_uri req)) w of
                            ((p, None), w1) \<Rightarrow> (p_template p, w1)
                          | ((p, Some e), w1) \<Rightarrow> ('''', w1))
                    else ('''', w)) of (prevT, w1) \<Rightarrow>
             (case on_store (st_set_branch (sv_store S) (sq_uri req) branch (sq_commit_hash req)) w1 of
                (Inl e, w2) \<Rightarrow>
                  (if errors_is e Err_NotFound
                   then (Inl (status_errorf NotFound ''commit %q not found for %q''
                                [sq_commit_hash req, sq_uri req]), w2)
                   else fail_with (store_status ''set branch'' e) w2)
              | (Inr c, w2) \<Rightarrow>
                  (if branch = default_branch L then
                     (case invalidate (sv_cache S) (sq_uri req) w2 of
                        (Some e, w3) \<Rightarrow> (Inl e, w3)
                      | (None, w3) \<Rightarrow>
                          (if sv_notifier S = None then (Inr (c_version_hash c), w3)
                           else (case classify L S prevT (c_template c) of
                                   (class, ls) \<Rightarrow>
                                     (Inr (c_version_hash c),
                                      notify S (sq_uri req) (c_version_hash c) class (log_w ls w3)))))
                   else (Inr (c_version_hash c), w2)))))))"

end
