(* ===== verification/Sample_Server.thy ===== *)
theory Sample_Server
  imports Sample_Registry Prompt_Server
begin

text \<open>
  A server over the instance of \<open>Sample_Registry\<close>, with the in-process cache and a notifier that
  records its events (as the repository's tests do), and a few callers: the concrete inputs of
  the witnesses.
\<close>

definition rec_notifier :: "(string \<times> string \<times> string) list notifier" where
  "rec_notifier = \<lparr>n_publish = (\<lambda>u h c es. (None, es @ [(u, h, c)]))\<rparr>"

definition sample_server ::
  "'ca cache option \<Rightarrow> (sample_store, 'ca, (string \<times> string \<times> string) list, unit) server" where
  "sample_server K = NewServer sample_ops K (Some ()) (Some rec_notifier)"

definition sample_cache :: ttl_cache where
  "sample_cache = \<lparr>ttl = 30, m = Map.empty, clock = time_zero\<rparr>"

definition sample_world :: "'ca \<Rightarrow> (sample_store, 'ca, (string \<times> string \<times> string) list) world" where
  "sample_world c = \<lparr>w_store = sample_empty, w_cache = c, w_notif = [], w_log = []\<rparr>"

definition caller :: "string \<Rightarrow> bool \<Rightarrow> ctx" where
  "caller o' wr = (\<lparr>id_org = o', id_sub = '''', id_write = wr, id_expires = time_zero\<rparr>, True)"

text \<open>\<open>priompt://acme/r/p\<close>.\<close>

definition acme_uri :: string where
  "acme_uri = ''priompt://acme/r/p''"

definition publish_of :: "string \<Rightarrow> string \<Rightarrow> publish_req" where
  "publish_of t b = \<lparr>pq_uri = acme_uri, pq_template = t, pq_slots = [], pq_message = ''m'', pq_branch = b\<rparr>"

lemma sample_server_simps [simp]:
  "sv_store (sample_server K) = sample_ops"
  "sv_cache (sample_server K) = K"
  "sv_embedder (sample_server K) = Some ()"
  "sv_notifier (sample_server K) = Some rec_notifier"
  by (simp_all add: sample_server_def NewServer_def)

lemma sample_world_simps [simp]:
  "w_store (sample_world c) = sample_empty" "w_cache (sample_world c) = c"
  "w_notif (sample_world c) = []"
  by (simp_all add: sample_world_def)

lemma rec_notifier_publish [simp]: "n_publish rec_notifier u h c es = (None, es @ [(u, h, c)])"
  by (simp add: rec_notifier_def)

lemma org_acme [simp]: "org sample_lib acme_uri = ''acme''"
  by (simp add: sample_lib_def acme_uri_def trim_prefix_def)

lemma scope_caller [simp]: "Scope (caller o' wr) = o'" "snd (caller o' wr)"
  "id_write (fst (caller o' wr)) = wr"
  by (simp_all add: Scope_def caller_def)

lemma caller_in_scope [simp]: "InScope sample_lib (caller o' wr) acme_uri \<longleftrightarrow> o' = '''' \<or> o' = ''acme''"
  by (simp add: InScope_def OrgOf_def)

lemma acme_uri_not_Nil [simp]: "acme_uri \<noteq> ''''"
  by (simp add: acme_uri_def)

text \<open>Evaluation of a handler on the sample store: the handler's parts, then the store's.\<close>

lemmas handler_eval = PublishPrompt_def publish_precheck_def publish_commit_def GetPrompt_def
  get_head_def getByRef_def MergeBranch_def merge_notify_def SetBranch_def CreateBranch_def
  on_store_def fail_with_def log_w_def invalidate_def notify_def classify_def branchOr_def Let_def

lemmas sample_eval = publish_of_def sample_empty_def sample_commit_def sample_merge_def
  sample_branch_def sample_set_branch_def sample_resolve_def find_head_def find_ref_def
  find_commit_def find_tip_def fresh_hash_def
  advance_def set_ref_def set_head_def record_commit_def prompt_of_def not_found_def or_missing_def
  ttl_get_def ttl_put_def ttl_invalidate_def sample_cache_def sample_world_def

end
