(* ===== verification/Server_Access.thy ===== *)
theory Server_Access
  imports Sample_Server
begin

text \<open>
  Who may do what: the service as one dispatch over its eleven methods, and the access-control
  properties that hold of every call, whatever the store, the cache and the notifier do.
\<close>

section \<open>The service\<close>

datatype rpc =
    RpcPublish publish_req
  | RpcGet get_req
  | RpcList string
  | RpcDiff diff_req
  | RpcHistory history_req
  | RpcListCommits string
  | RpcListBranches string
  | RpcCreateBranch create_branch_req
  | RpcMerge merge_req
  | RpcDiffCommits diff_commits_req
  | RpcSetBranch set_branch_req

datatype rpc_resp =
    Hash_resp string
  | Prompt_resp get_resp
  | Entries_resp "prompt_entry list"
  | Changes_resp "pb_change list"
  | Commits_resp "pb_commit list"
  | Branches_resp "pb_branch list"

definition wrap :: "('a \<Rightarrow> 'b) \<Rightarrow> (status + 'a) \<times> 'w \<Rightarrow> (status + 'b) \<times> 'w" where
  "wrap f = map_prod (map_sum id f) id"

fun handle ::
  "'em lib \<Rightarrow> ('st, 'ca, 'nt, 'em) server \<Rightarrow> ctx \<Rightarrow> rpc
   \<Rightarrow> ('st, 'ca, 'nt) world \<Rightarrow> (status + rpc_resp) \<times> ('st, 'ca, 'nt) world" where
  "handle L S ctx (RpcPublish q) w = wrap Hash_resp (PublishPrompt L S ctx q w)"
| "handle L S ctx (RpcGet q) w = wrap Prompt_resp (GetPrompt L S ctx q w)"
| "handle L S ctx (RpcList p) w = wrap Entries_resp (ListPrompts L S ctx p w)"
| "handle L S ctx (RpcDiff q) w = wrap Changes_resp (DiffPrompt L S ctx q w)"
| "handle L S ctx (RpcHistory q) w = wrap Commits_resp (History L S ctx q w)"
| "handle L S ctx (RpcListCommits u) w = wrap Commits_resp (ListCommits L S ctx u w)"
| "handle L S ctx (RpcListBranches u) w = wrap Branches_resp (ListBranches L S ctx u w)"
| "handle L S ctx (RpcCreateBranch q) w = wrap Hash_resp (CreateBranch L S ctx q w)"
| "handle L S ctx (RpcMerge q) w = wrap Hash_resp (MergeBranch L S ctx q w)"
| "handle L S ctx (RpcDiffCommits q) w = wrap Changes_resp (DiffCommits L S ctx q w)"
| "handle L S ctx (RpcSetBranch q) w = wrap Hash_resp (SetBranch L S ctx q w)"

text \<open>The one address a call is about; a listing has a prefix instead.\<close>

fun rpc_uri :: "rpc \<Rightarrow> string option" where
  "rpc_uri (RpcPublish q) = Some (pq_uri q)"
| "rpc_uri (RpcGet q) = Some (gq_uri q)"
| "rpc_uri (RpcList p) = None"
| "rpc_uri (RpcDiff q) = Some (dq_uri q)"
| "rpc_uri (RpcHistory q) = Some (hq_uri q)"
| "rpc_uri (RpcListCommits u) = Some u"
| "rpc_uri (RpcListBranches u) = Some u"
| "rpc_uri (RpcCreateBranch q) = Some (bq_uri q)"
| "rpc_uri (RpcMerge q) = Some (mq_uri q)"
| "rpc_uri (RpcDiffCommits q) = Some (cq_uri q)"
| "rpc_uri (RpcSetBranch q) = Some (sq_uri q)"

fun mutating :: "rpc \<Rightarrow> bool" where
  "mutating (RpcPublish q) = True"
| "mutating (RpcCreateBranch q) = True"
| "mutating (RpcMerge q) = True"
| "mutating (RpcSetBranch q) = True"
| "mutating _ = False"

lemma wrap_simps [simp]:
  "wrap f (Inl e, w) = (Inl e, w)"
  "wrap f (Inr r, w) = (Inr (f r), w)"
  "fst (wrap f x) = map_sum id f (fst x)"
  "snd (wrap f x) = snd x"
  by (simp_all add: wrap_def)

lemma wrap_Inr: "wrap f x = (Inr r, w) \<longleftrightarrow> (\<exists>a. x = (Inr a, w) \<and> r = f a)"
  by (cases x; cases "fst x") (auto simp: wrap_def)

lemma wrap_eqD: "wrap f x = (r, w) \<Longrightarrow> x = (fst x, w)"
  by (cases x) (simp add: wrap_def)

lemma wrap_denied:
  "\<exists>e. x = (Inl e, w) \<and> P e \<Longrightarrow> \<exists>e. wrap f x = (Inl e, w) \<and> P e"
  by auto

lemmas handler_defs = PublishPrompt_def GetPrompt_def DiffPrompt_def History_def ListCommits_def
  ListBranches_def CreateBranch_def MergeBranch_def DiffCommits_def SetBranch_def

section \<open>Org scope\<close>

lemma Authorize_denied:
  assumes "\<not> InScope L ctx u"
  obtains e where "Authorize L ctx u = Some e" and "st_code e = PermissionDenied"
proof (cases "Authorize L ctx u")
  case None
  with assms show ?thesis by simp
next
  case (Some e)
  then show ?thesis using that Authorize_Some_code by blast
qed

text \<open>
  A call on an address outside the caller's org is refused with \<open>PermissionDenied\<close> and does
  nothing at all: no store call, no cache access, no event, no log line.
\<close>

lemma out_of_scope_call_denied:
  assumes "rpc_uri q = Some u" and "\<not> InScope L ctx u"
  shows "\<exists>e. handle L S ctx q w = (Inl e, w) \<and> st_code e = PermissionDenied"
proof -
  obtain e where "Authorize L ctx u = Some e" and "st_code e = PermissionDenied"
    using assms(2) by (rule Authorize_denied)
  with assms(1) show ?thesis by (cases q) (simp_all add: handler_defs Let_def)
qed

text \<open>
  A read-only caller changes nothing: a mutating call by an identity without the write grant
  is refused with \<open>PermissionDenied\<close> and leaves the world as it was.
\<close>

lemma read_only_caller_cannot_write:
  assumes "mutating q" and "snd ctx" and "\<not> id_write (fst ctx)"
  shows "\<exists>e. handle L S ctx q w = (Inl e, w) \<and> st_code e = PermissionDenied"
proof -
  have "RequireWrite ctx \<noteq> None" using assms(2,3) by simp
  then obtain e where e: "RequireWrite ctx = Some e" by blast
  note denied = RequireWrite_Some_code [OF e] Authorize_Some_code [of L ctx]
  have "\<exists>e. PublishPrompt L S ctx q' w = (Inl e, w) \<and> st_code e = PermissionDenied"
    "\<exists>e. CreateBranch L S ctx b w = (Inl e, w) \<and> st_code e = PermissionDenied"
    "\<exists>e. MergeBranch L S ctx g w = (Inl e, w) \<and> st_code e = PermissionDenied"
    "\<exists>e. SetBranch L S ctx s w = (Inl e, w) \<and> st_code e = PermissionDenied" for q' b g s
    using e denied by (auto simp: handler_defs split: option.split)
  with assms(1) show ?thesis by (cases q) (auto intro: wrap_denied)
qed

section \<open>What a read leaves untouched\<close>

lemma on_store_simps [simp]:
  "fst (on_store f w) = fst (f (w_store w))"
  "snd (on_store f w) = w\<lparr>w_store := snd (f (w_store w))\<rparr>"
  by (simp_all add: on_store_def split: prod.splits)

lemma on_store_eq: "on_store f w = (r, w') \<longleftrightarrow>
    fst (f (w_store w)) = r \<and> w' = w\<lparr>w_store := snd (f (w_store w))\<rparr>"
  by (auto simp: on_store_def split: prod.splits)

lemma on_store_case:
  "(case on_store f w of (r, w') \<Rightarrow> g r w') =
     g (fst (f (w_store w))) (w\<lparr>w_store := snd (f (w_store w))\<rparr>)"
  by (simp add: on_store_def split: prod.splits)

lemma on_store_pure:
  assumes "snd (f (w_store w)) = w_store w"
  shows "on_store f w = (fst (f (w_store w)), w)"
  using assms by (cases "f (w_store w)") (auto simp: on_store_def)

lemma reads_pure_simps:
  assumes "reads_pure st"
  shows "on_store (st_get st u) w = (fst (st_get st u (w_store w)), w)"
    and "on_store (st_list st p) w = (fst (st_list st p (w_store w)), w)"
    and "on_store (st_resolve st u rf) w = (fst (st_resolve st u rf (w_store w)), w)"
    and "on_store (st_get_commit st h) w = (fst (st_get_commit st h (w_store w)), w)"
    and "on_store (st_log st u b) w = (fst (st_log st u b (w_store w)), w)"
    and "on_store (st_commits st u) w = (fst (st_commits st u (w_store w)), w)"
    and "on_store (st_branches st u) w = (fst (st_branches st u (w_store w)), w)"
  using assms by (simp_all add: reads_pure_def on_store_pure)

lemma fail_with_simps [simp]:
  "fst (fail_with sl w) = Inl (fst sl)"
  "w_store (snd (fail_with sl w)) = w_store w"
  "w_cache (snd (fail_with sl w)) = w_cache w"
  "w_notif (snd (fail_with sl w)) = w_notif w"
  by (simp_all add: fail_with_def log_w_def split: prod.splits)

lemma log_w_simps [simp]:
  "w_store (log_w ls w) = w_store w"
  "w_cache (log_w ls w) = w_cache w"
  "w_notif (log_w ls w) = w_notif w"
  by (simp_all add: log_w_def)

lemma notify_simps [simp]:
  "w_store (notify S u h c w) = w_store w"
  "w_cache (notify S u h c w) = w_cache w"
  "w_log (notify S u h c w) = w_log w"
  "sv_notifier S = None \<Longrightarrow> notify S u h c w = w"
  "sv_notifier S = Some n \<Longrightarrow> w_notif (notify S u h c w) = snd (n_publish n u h c (w_notif w))"
  by (auto simp: notify_def split: option.splits)

lemma invalidate_simps [simp]:
  "w_store (snd (invalidate c u w)) = w_store w"
  "w_notif (snd (invalidate c u w)) = w_notif w"
  "invalidate None u w = (None, w)"
  by (auto simp: invalidate_def split: option.splits prod.splits)

lemma server_diff_simps [simp]:
  "w_store (snd (server_diff L S a b w)) = w_store w"
  "w_cache (snd (server_diff L S a b w)) = w_cache w"
  "w_notif (snd (server_diff L S a b w)) = w_notif w"
  by (simp_all add: server_diff_def split: sum.splits)

lemma get_head_frame [simp]:
  "w_cache (snd (get_head L S u w)) = w_cache w"
  "w_notif (snd (get_head L S u w)) = w_notif w"
  by (auto simp: get_head_def on_store_case split: prod.splits option.splits)

lemma getByRef_frame [simp]:
  "w_cache (snd (getByRef L S u r w)) = w_cache w"
  "w_notif (snd (getByRef L S u r w)) = w_notif w"
  by (auto simp: getByRef_def on_store_case split: sum.splits option.splits)

lemma get_head_store: "reads_pure (sv_store S) \<Longrightarrow> w_store (snd (get_head L S u w)) = w_store w"
  by (auto simp: get_head_def reads_pure_simps split: prod.splits option.splits)

lemma getByRef_store: "reads_pure (sv_store S) \<Longrightarrow> w_store (snd (getByRef L S u r w)) = w_store w"
  by (auto simp: getByRef_def reads_pure_simps split: sum.splits option.splits)

lemma commitOf_frame [simp]:
  "w_cache (snd (commitOf S u h w)) = w_cache w"
  "w_notif (snd (commitOf S u h w)) = w_notif w"
  by (auto simp: commitOf_def on_store_case split: sum.splits)

lemma commitOf_pure:
  "reads_pure (sv_store S) \<Longrightarrow> commitOf S u h w = (fst (commitOf S u h w), w)"
  by (auto simp: commitOf_def reads_pure_simps split: sum.splits)

text \<open>The four handlers that only ask the store: nothing but the store and the log can change.\<close>

lemma list_frame:
  "w_cache (snd (ListPrompts L S ctx p w)) = w_cache w"
  "w_notif (snd (ListPrompts L S ctx p w)) = w_notif w"
  "reads_pure (sv_store S) \<Longrightarrow> w_store (snd (ListPrompts L S ctx p w)) = w_store w"
  by (auto simp: ListPrompts_def Let_def on_store_case reads_pure_simps
      split: sum.splits option.splits)

lemma diff_frame:
  "w_cache (snd (DiffPrompt L S ctx d w)) = w_cache w"
  "w_notif (snd (DiffPrompt L S ctx d w)) = w_notif w"
  "reads_pure (sv_store S) \<Longrightarrow> w_store (snd (DiffPrompt L S ctx d w)) = w_store w"
  by (auto simp: DiffPrompt_def on_store_eq reads_pure_simps split: prod.splits option.splits)

lemma history_frame:
  "w_cache (snd (History L S ctx h w)) = w_cache w"
  "w_notif (snd (History L S ctx h w)) = w_notif w"
  "reads_pure (sv_store S) \<Longrightarrow> w_store (snd (History L S ctx h w)) = w_store w"
  by (auto simp: History_def on_store_case reads_pure_simps split: sum.splits option.splits)

lemma list_commits_frame:
  "w_cache (snd (ListCommits L S ctx u w)) = w_cache w"
  "w_notif (snd (ListCommits L S ctx u w)) = w_notif w"
  "reads_pure (sv_store S) \<Longrightarrow> w_store (snd (ListCommits L S ctx u w)) = w_store w"
  by (auto simp: ListCommits_def on_store_case reads_pure_simps split: sum.splits option.splits)

lemma list_branches_frame:
  "w_cache (snd (ListBranches L S ctx u w)) = w_cache w"
  "w_notif (snd (ListBranches L S ctx u w)) = w_notif w"
  "reads_pure (sv_store S) \<Longrightarrow> w_store (snd (ListBranches L S ctx u w)) = w_store w"
  by (auto simp: ListBranches_def on_store_case reads_pure_simps split: sum.splits option.splits)

lemma commitOf_eq_frame:
  "commitOf S u h w = (r, w') \<Longrightarrow> w_cache w' = w_cache w \<and> w_notif w' = w_notif w"
  using commitOf_frame [of S u h w] by simp

lemma diff_commits_frame:
  "w_cache (snd (DiffCommits L S ctx d w)) = w_cache w"
  "w_notif (snd (DiffCommits L S ctx d w)) = w_notif w"
  by (auto simp: DiffCommits_def split: option.splits prod.splits sum.splits
      dest!: commitOf_eq_frame)

lemma diff_commits_store:
  "reads_pure (sv_store S) \<Longrightarrow> w_store (snd (DiffCommits L S ctx d w)) = w_store w"
  unfolding DiffCommits_def
  by (subst (1 2) commitOf_pure) (auto split: sum.splits option.splits)

lemma get_head_eq_frame:
  "get_head L S u w = (r, w') \<Longrightarrow> w_cache w' = w_cache w \<and> w_notif w' = w_notif w
     \<and> (reads_pure (sv_store S) \<longrightarrow> w_store w' = w_store w)"
  using get_head_frame [of L S u w] get_head_store [of S L u w] by auto

lemma get_frame:
  "w_notif (snd (GetPrompt L S ctx q w)) = w_notif w"
  "reads_pure (sv_store S) \<Longrightarrow> w_store (snd (GetPrompt L S ctx q w)) = w_store w"
  by (auto simp: GetPrompt_def Let_def get_head_store getByRef_store
      split: option.splits prod.splits sum.splits dest!: get_head_eq_frame)

lemmas read_frames = list_frame diff_frame history_frame list_commits_frame list_branches_frame
  diff_commits_frame diff_commits_store get_frame

lemma reading_frame:
  assumes "reads_pure (sv_store S)" and "\<not> mutating q"
  shows "w_store (snd (handle L S ctx q w)) = w_store w"
    and "w_notif (snd (handle L S ctx q w)) = w_notif w"
  using assms by (cases q; simp add: read_frames)+

text \<open>
  The seven reading methods are reads: over a store whose reads write nothing, they leave the
  store as it was and send no event, so together with the write gate a read-only token can never
  change what is served.
\<close>

theorem read_calls_change_nothing:
  assumes "reads_pure (sv_store S)" and "\<not> mutating q"
  shows "w_store (snd (handle L S ctx q w)) = w_store w
       \<and> w_notif (snd (handle L S ctx q w)) = w_notif w"
  using reading_frame [OF assms] by simp

theorem read_calls_change_nothing_witness:
  "reads_pure sample_ops
   \<and> w_store (snd (handle sample_lib (sample_server (Some mem_cache)) (caller ''acme'' False)
        (RpcGet \<lparr>gq_uri = acme_uri, gq_ref = ''''\<rparr>) (sample_world sample_cache))) = sample_empty"
proof -
  let ?q = "RpcGet \<lparr>gq_uri = acme_uri, gq_ref = ''''\<rparr>"
  have r: "reads_pure (sv_store (sample_server (Some mem_cache)))"
    using store_contractD(1) [OF sample_store_contract] by simp
  have q: "\<not> mutating ?q" by simp
  show ?thesis
    using r read_calls_change_nothing [OF r q, of sample_lib "caller ''acme'' False"
        "sample_world sample_cache"] by simp
qed

section \<open>Listings\<close>

text \<open>
  A listing never crosses the org boundary: whatever the store returns for the prefix, every
  entry of the answer lies in the caller's scope.
\<close>

theorem listing_stays_in_scope:
  assumes "ListPrompts L S ctx p w = (Inr es, w')" and "e \<in> set es"
  shows "InScope L ctx (pe_uri e)"
  using assms
  by (auto simp: ListPrompts_def Let_def on_store_case fail_with_def
      split: option.splits sum.splits prod.splits if_splits)

text \<open>A store that answers with an address of another org as well.\<close>

definition leaky_ops :: "sample_store store" where
  "leaky_ops = sample_ops\<lparr>st_list := (\<lambda>p s. (Inr
     [\<lparr>p_uri = acme_uri, p_template = ''t'', p_slots = [], p_version_hash = ''h1''\<rparr>,
      \<lparr>p_uri = ''priompt://acmecorp/r/p'', p_template = ''t'', p_slots = [], p_version_hash = ''h2''\<rparr>], s))\<rparr>"

theorem listing_stays_in_scope_witness:
  "\<exists>es w'. ListPrompts sample_lib (NewServer leaky_ops (Some mem_cache) None (Some rec_notifier))
      (caller ''acme'' False) ''priompt://acme'' (sample_world sample_cache) = (Inr es, w')
    \<and> length es = 1 \<and> (\<forall>e \<in> set es. InScope sample_lib (caller ''acme'' False) (pe_uri e))"
proof -
  let ?r = "ListPrompts sample_lib (NewServer leaky_ops (Some mem_cache) None (Some rec_notifier))
      (caller ''acme'' False) ''priompt://acme'' (sample_world sample_cache)"
  have r: "?r = (Inr [\<lparr>pe_uri = acme_uri, pe_version_hash = ''h1''\<rparr>], snd ?r)"
    by (simp add: prod_eq_iff ListPrompts_def Let_def NewServer_def leaky_ops_def on_store_case
        AuthorizePrefix_def)
       (simp add: sample_lib_def InScope_def OrgOf_def trim_prefix_def acme_uri_def)
  show ?thesis
    by (intro exI conjI, rule r) (use listing_stays_in_scope [OF r] in auto)
qed

text \<open>
  The prefix check stops at the org separator: a prefix a scoped token may list is its own
  org, or leads only to addresses of its own org, and no prefix under another org passes, not even
  one whose name starts with the token's org.
\<close>

theorem prefix_check_respects_org_boundary:
  assumes "org_laws L" and "Scope ctx \<noteq> ''''" and "CHR ''/'' \<notin> set (Scope ctx)"
  shows "(AuthorizePrefix L ctx p = None \<longrightarrow>
            p = scheme L @ Scope ctx \<or> (\<forall>t. InScope L ctx (p @ t)))
       \<and> (o' \<noteq> Scope ctx \<and> CHR ''/'' \<notin> set o' \<longrightarrow>
            AuthorizePrefix L ctx (scheme L @ o') \<noteq> None
            \<and> AuthorizePrefix L ctx (scheme L @ o' @ ''/'' @ t) \<noteq> None)"
proof (intro conjI impI)
  assume p: "AuthorizePrefix L ctx p = None"
  have "\<forall>t u. org L (scheme L @ Scope ctx @ ''/'' @ t @ u) = Scope ctx"
    using assms(1,3) by (simp add: org_laws_def)
  with p assms(2) show "p = scheme L @ Scope ctx \<or> (\<forall>t. InScope L ctx (p @ t))"
    by (auto simp: AuthorizePrefix_None InScope_def OrgOf_def)
next
  assume o': "o' \<noteq> Scope ctx \<and> CHR ''/'' \<notin> set o'"
  have "o' \<noteq> Scope ctx @ CHR ''/'' # u" for u using o' by auto
  moreover have "Scope ctx \<noteq> o' @ CHR ''/'' # u" for u using assms(3) by auto
  moreover have "o' @ CHR ''/'' # t \<noteq> Scope ctx @ CHR ''/'' # u" for u
    using o' assms(3) append_sep_inject by metis
  ultimately show "AuthorizePrefix L ctx (scheme L @ o') \<noteq> None"
    "AuthorizePrefix L ctx (scheme L @ o' @ ''/'' @ t) \<noteq> None"
    using o' assms(2) unfolding AuthorizePrefix_None by simp_all metis+
qed

theorem prefix_check_respects_org_boundary_witness:
  "org_laws sample_lib \<and> AuthorizePrefix sample_lib (caller ''acme'' False) ''priompt://acmecorp/x'' \<noteq> None
   \<and> AuthorizePrefix sample_lib (caller ''acme'' False) ''priompt://acme/'' = None
   \<and> (\<forall>t. InScope sample_lib (caller ''acme'' False) (''priompt://acme/'' @ t))"
proof -
  have hyps: "org_laws sample_lib" "Scope (caller ''acme'' False) \<noteq> ''''"
    "CHR ''/'' \<notin> set (Scope (caller ''acme'' False))"
    using sample_org_laws by simp_all
  have pass: "AuthorizePrefix sample_lib (caller ''acme'' False) ''priompt://acme/'' = None"
    by (simp add: AuthorizePrefix_def sample_lib_def)
  note spec = prefix_check_respects_org_boundary [OF hyps]
  have "scheme sample_lib = ''priompt://''" by (simp add: sample_lib_def)
  with pass spec [of "''priompt://acme/''" "''acmecorp''" "''x''"] hyps(1) show ?thesis by simp
qed

end
