(* ===== verification/Server_Safety.thy ===== *)
theory Server_Safety
  imports Server_Access
begin

text \<open>
  What agents can be served: over any store, however its content changes, and any cache that meets
  its contract, every prompt a read answers has passed validation. The proof is an invariant of
  the cached entries, kept by every call and every move of the environment.
\<close>

section \<open>The effect of each handler on the cache\<close>

text \<open>An entry is valid when the validation that runs at write time accepts it.\<close>

definition valid_resp :: "'em lib \<Rightarrow> get_resp \<Rightarrow> bool" where
  "valid_resp L r \<longleftrightarrow> validate_prompt L (g_uri r) (g_template r) (g_slots r) = None"

definition cache_valid ::
  "'em lib \<Rightarrow> ('ca \<Rightarrow> string \<Rightarrow> get_resp option) \<Rightarrow> 'ca \<Rightarrow> bool" where
  "cache_valid L view ca \<longleftrightarrow> (\<forall>u r. view ca u = Some r \<longrightarrow> valid_resp L r)"

lemma get_head_valid: "get_head L S u w = (Inr r, w') \<Longrightarrow> valid_resp L r"
  by (auto simp: get_head_def valid_resp_def fail_with_def
      split: prod.splits option.splits if_splits)

lemma getByRef_valid: "getByRef L S u rf w = (Inr r, w') \<Longrightarrow> valid_resp L r"
  by (auto simp: getByRef_def valid_resp_def fail_with_def
      split: prod.splits option.splits if_splits sum.splits)

lemma classify_log_frame [simp]:
  "w_cache (log_w (snd (classify L S a b)) w) = w_cache w"
  by simp

lemma merge_notify_cache [simp]: "w_cache (merge_notify L S u p h w) = w_cache w"
  by (auto simp: merge_notify_def on_store_eq split: prod.splits sum.splits)

lemma create_branch_cache: "w_cache (snd (CreateBranch L S ctx q w)) = w_cache w"
  by (auto simp: CreateBranch_def on_store_eq split: option.splits prod.splits sum.splits)

text \<open>What one \<open>invalidate\<close> does to the cache, and whether it reports success.\<close>

definition cache_inv :: "'ca cache option \<Rightarrow> string \<Rightarrow> 'ca \<Rightarrow> 'ca" where
  "cache_inv c u ca = (case c of None \<Rightarrow> ca | Some K \<Rightarrow> snd (c_invalidate K u ca))"

definition inv_ok :: "'ca cache option \<Rightarrow> string \<Rightarrow> 'ca \<Rightarrow> bool" where
  "inv_ok c u ca \<longleftrightarrow> (case c of None \<Rightarrow> True | Some K \<Rightarrow> fst (c_invalidate K u ca) = None)"

lemma invalidate_eq:
  "invalidate c u w = (r, w') \<Longrightarrow>
     w_cache w' = cache_inv c u (w_cache w) \<and> w_store w' = w_store w \<and> w_notif w' = w_notif w
     \<and> (r = None \<longleftrightarrow> inv_ok c u (w_cache w))"
  by (auto simp: invalidate_def cache_inv_def inv_ok_def split: option.splits prod.splits)

lemma invalidate_status:
  "invalidate c u w = (Some e, w') \<Longrightarrow> st_code e = Unavailable"
  by (auto simp: invalidate_def split: option.splits prod.splits)

lemma publish_precheck_cache:
  "publish_precheck L S q h b w = (Finish r, w') \<Longrightarrow>
     w_cache w' = w_cache w \<or> b = default_branch L \<and> w_cache w' = cache_inv (sv_cache S) (pq_uri q) (w_cache w)"
  by (auto simp: publish_precheck_def on_store_eq dest!: invalidate_eq
      split: option.splits prod.splits sum.splits if_splits)

lemma publish_commit_cache:
  "publish_commit L S ctx q h b c w = (r, w') \<Longrightarrow>
     w_cache w' = w_cache w \<or> b = default_branch L \<and> w_cache w' = cache_inv (sv_cache S) (pq_uri q) (w_cache w)"
  by (auto simp: publish_commit_def on_store_eq Let_def fail_with_def dest!: invalidate_eq
      split: option.splits prod.splits sum.splits if_splits)

lemma merge_cache:
  "MergeBranch L S ctx q w = (r, w') \<Longrightarrow>
     w_cache w' = w_cache w
   \<or> branchOr L (mq_into q) = default_branch L \<and> w_cache w' = cache_inv (sv_cache S) (mq_uri q) (w_cache w)"
  by (auto simp: MergeBranch_def on_store_eq Let_def fail_with_def dest!: invalidate_eq
      split: option.splits prod.splits sum.splits if_splits)

lemma set_branch_cache:
  "SetBranch L S ctx q w = (r, w') \<Longrightarrow>
     w_cache w' = w_cache w
   \<or> branchOr L (sq_branch q) = default_branch L \<and> w_cache w' = cache_inv (sv_cache S) (sq_uri q) (w_cache w)"
  by (auto simp: SetBranch_def on_store_eq Let_def fail_with_def dest!: invalidate_eq
      split: option.splits prod.splits sum.splits if_splits)

lemma publish_precheck_commit:
  "publish_precheck L S q h b w = (Commit_as c, w') \<Longrightarrow> w_cache w' = w_cache w \<and> w_notif w' = w_notif w"
  by (auto simp: publish_precheck_def on_store_eq split: option.splits prod.splits sum.splits if_splits)

lemma publish_cache:
  "PublishPrompt L S ctx q w = (r, w') \<Longrightarrow>
     w_cache w' = w_cache w
   \<or> branchOr L (pq_branch q) = default_branch L \<and> w_cache w' = cache_inv (sv_cache S) (pq_uri q) (w_cache w)"
  by (auto simp: PublishPrompt_def Let_def
      dest!: publish_commit_cache publish_precheck_commit publish_precheck_cache
      split: option.splits prod.splits publish_step.splits)

lemma getByRef_eq_frame:
  "getByRef L S u rf w = (r, w') \<Longrightarrow> w_cache w' = w_cache w \<and> w_notif w' = w_notif w"
  using getByRef_frame [of L S u rf w] by simp

text \<open>The ways a read of a server with a cache can go.\<close>

lemma GetPrompt_cases [consumes 2, case_names denied ref hit error miss]:
  assumes "GetPrompt L S ctx q w = (r, w')" and "sv_cache S = Some K"
  obtains e where "r = Inl e" and "w' = w"
  | "gq_ref q \<noteq> ''''" and "getByRef L S (gq_uri q) (gq_ref q) w = (r, w')"
  | x ca where "gq_ref q = ''''" and "c_get K (gq_uri q) (w_cache w) = (Some x, ca)"
      and "r = Inr x" and "w' = w\<lparr>w_cache := ca\<rparr>"
  | ca e where "gq_ref q = ''''" and "c_get K (gq_uri q) (w_cache w) = (None, ca)"
      and "get_head L S (gq_uri q) (w\<lparr>w_cache := ca\<rparr>) = (Inl e, w')" and "r = Inl e"
  | ca x w1 where "gq_ref q = ''''" and "c_get K (gq_uri q) (w_cache w) = (None, ca)"
      and "get_head L S (gq_uri q) (w\<lparr>w_cache := ca\<rparr>) = (Inr x, w1)" and "r = Inr x"
      and "w' = w1\<lparr>w_cache := c_put K (gq_uri q) x ca\<rparr>"
proof (cases "Authorize L ctx (gq_uri q)")
  case (Some e)
  with assms(1) show ?thesis by (intro that(1)) (auto simp: GetPrompt_def Let_def)
next
  case auth: None
  obtain y ca where c: "c_get K (gq_uri q) (w_cache w) = (y, ca)" by fastforce
  obtain z w1 where g: "get_head L S (gq_uri q) (w\<lparr>w_cache := ca\<rparr>) = (z, w1)" by fastforce
  have w1: "w_cache w1 = ca" using get_head_eq_frame [OF g] by simp
  note eval = assms auth c g w1
  show ?thesis
  proof (cases "gq_ref q = ''''")
    case False
    with eval show ?thesis by (intro that(2)) (auto simp: GetPrompt_def Let_def)
  next
    case True
    show ?thesis
    proof (cases y)
      case (Some x)
      with True eval show ?thesis by (intro that(3)) (auto simp: GetPrompt_def Let_def)
    next
      case None
      show ?thesis
      proof (cases z)
        case (Inl e)
        with True None eval show ?thesis by (intro that(4)) (auto simp: GetPrompt_def Let_def)
      next
        case (Inr x)
        with True None eval show ?thesis by (intro that(5)) (auto simp: GetPrompt_def Let_def)
      qed
    qed
  qed
qed

section \<open>A write to main that succeeds\<close>

text \<open>The address whose served HEAD a call writes.\<close>

fun writes_main :: "'em lib \<Rightarrow> rpc \<Rightarrow> string option" where
  "writes_main L (RpcPublish q) =
     (if branchOr L (pq_branch q) = default_branch L then Some (pq_uri q) else None)"
| "writes_main L (RpcMerge q) =
     (if branchOr L (mq_into q) = default_branch L then Some (mq_uri q) else None)"
| "writes_main L (RpcSetBranch q) =
     (if branchOr L (sq_branch q) = default_branch L then Some (sq_uri q) else None)"
| "writes_main L _ = None"

lemma publish_main_success:
  assumes "PublishPrompt L S ctx q w = (Inr h, w')" and "branchOr L (pq_branch q) = default_branch L"
  shows "inv_ok (sv_cache S) (pq_uri q) (w_cache w)
       \<and> w_cache w' = cache_inv (sv_cache S) (pq_uri q) (w_cache w)"
  using assms
  by (auto simp: PublishPrompt_def publish_precheck_def publish_commit_def on_store_eq Let_def
      fail_with_def dest!: invalidate_eq
      split: option.splits prod.splits sum.splits if_splits publish_step.splits)

lemma merge_main_success:
  assumes "MergeBranch L S ctx q w = (Inr h, w')" and "branchOr L (mq_into q) = default_branch L"
  shows "inv_ok (sv_cache S) (mq_uri q) (w_cache w)
       \<and> w_cache w' = cache_inv (sv_cache S) (mq_uri q) (w_cache w)"
  using assms
  by (auto simp: MergeBranch_def on_store_eq Let_def fail_with_def dest!: invalidate_eq
      split: option.splits prod.splits sum.splits if_splits)

lemma set_branch_main_success:
  assumes "SetBranch L S ctx q w = (Inr h, w')" and "branchOr L (sq_branch q) = default_branch L"
  shows "inv_ok (sv_cache S) (sq_uri q) (w_cache w)
       \<and> w_cache w' = cache_inv (sv_cache S) (sq_uri q) (w_cache w)"
  using assms
  by (auto simp: SetBranch_def on_store_eq Let_def fail_with_def dest!: invalidate_eq
      split: option.splits prod.splits sum.splits if_splits)

lemma main_write_success:
  assumes "handle L S ctx q w = (Inr r, w')" and "writes_main L q = Some u"
  shows "inv_ok (sv_cache S) u (w_cache w) \<and> w_cache w' = cache_inv (sv_cache S) u (w_cache w)"
  using assms
  by (cases q)
     (auto simp: wrap_Inr split: if_splits
        dest: publish_main_success merge_main_success set_branch_main_success)

section \<open>The invariant, over any cache that meets its contract\<close>

context l2_cache
begin

lemma view_cache_inv: "view (cache_inv (Some K) u ca) v = Some x \<Longrightarrow> view ca v = Some x"
  unfolding cache_inv_def option.case by (rule invalidate_keeps)

lemma view_after_success: "inv_ok (Some K) u ca \<Longrightarrow> view (cache_inv (Some K) u ca) u = None"
  by (simp add: cache_inv_def inv_ok_def invalidate_clears)

lemma get_view:
  assumes "GetPrompt L S ctx q w = (r, w')" and "sv_cache S = Some K"
    and "view (w_cache w') v = Some x"
  shows "view (w_cache w) v = Some x
    \<or> (\<exists>w1 w2. v = gq_uri q \<and> get_head L S v w1 = (Inr x, w2) \<and> r = Inr x)"
  using assms(1,2)
proof (cases rule: GetPrompt_cases)
  case ref
  then show ?thesis using assms(3) by (auto dest: getByRef_eq_frame)
next
  case (hit y ca)
  then show ?thesis using assms(3) get_keeps [of "gq_uri q" "w_cache w"] by simp
next
  case (error ca e)
  then show ?thesis
    using assms(3) get_keeps [of "gq_uri q" "w_cache w"] by (auto dest: get_head_eq_frame)
next
  case (miss ca y w1)
  then have "(v = gq_uri q \<and> x = y) \<or> view ca v = Some x"
    using assms(3) put_adds by simp
  then show ?thesis
    using miss get_keeps [of "gq_uri q" "w_cache w" v x] by auto
qed (use assms(3) in simp)

lemma other_cache:
  "\<not> mutating q \<and> (\<forall>g. q \<noteq> RpcGet g) \<or> (\<exists>g. q = RpcCreateBranch g) \<Longrightarrow>
     w_cache (snd (handle L S ctx q w)) = w_cache w"
  by (cases q) (simp_all add: read_frames create_branch_cache)

text \<open>No call adds anything to the cache but what a validated read of the store returned.\<close>

lemma handle_view:
  assumes "sv_cache S = Some K" and "handle L S ctx q w = (r, w')"
    and "view (w_cache w') v = Some x"
  shows "view (w_cache w) v = Some x \<or> (\<exists>w1 w2. get_head L S v w1 = (Inr x, w2))"
proof -
  have inv: "view (w_cache w) v = Some x"
    if "w_cache w' = w_cache w \<or> B \<and> w_cache w' = cache_inv (sv_cache S) u (w_cache w)" for B u
    using that assms(3) unfolding assms(1) by (auto dest: view_cache_inv)
  have w': "w' = snd (handle L S ctx q w)" using assms(2) by simp
  have same: "w_cache w' = w_cache w"
    if "\<not> mutating q \<and> (\<forall>g. q \<noteq> RpcGet g) \<or> (\<exists>g. q = RpcCreateBranch g)"
    unfolding w' using that by (rule other_cache)
  show ?thesis
  proof (cases q)
    case (RpcPublish p)
    with assms(2) have "PublishPrompt L S ctx p w = (fst (PublishPrompt L S ctx p w), w')"
      by (auto intro: wrap_eqD)
    then show ?thesis using publish_cache inv by blast
  next
    case (RpcMerge p)
    with assms(2) have "MergeBranch L S ctx p w = (fst (MergeBranch L S ctx p w), w')"
      by (auto intro: wrap_eqD)
    then show ?thesis using merge_cache inv by blast
  next
    case (RpcSetBranch p)
    with assms(2) have "SetBranch L S ctx p w = (fst (SetBranch L S ctx p w), w')"
      by (auto intro: wrap_eqD)
    then show ?thesis using set_branch_cache inv by blast
  next
    case (RpcGet p)
    with assms(2) have "GetPrompt L S ctx p w = (fst (GetPrompt L S ctx p w), w')"
      by (auto intro: wrap_eqD)
    then show ?thesis using get_view assms(1,3) by blast
  qed (use same assms(3) in auto)
qed

lemma handle_cache_valid:
  assumes "sv_cache S = Some K" and "handle L S ctx q w = (r, w')" and "cache_valid L view (w_cache w)"
  shows "cache_valid L view (w_cache w')"
  using handle_view [OF assms(1,2)] assms(3) get_head_valid unfolding cache_valid_def by blast

lemma get_valid:
  assumes "sv_cache S = Some K" and "cache_valid L view (w_cache w)"
    and "GetPrompt L S ctx q w = (Inr x, w')"
  shows "valid_resp L x"
  using assms(3,1)
proof (cases rule: GetPrompt_cases)
  case ref
  then show ?thesis by (blast intro: getByRef_valid)
next
  case (hit y ca)
  then have "view (w_cache w) (gq_uri q) = Some x"
    using get_sound [of "gq_uri q" "w_cache w" x] by simp
  then show ?thesis using assms(2) by (auto simp: cache_valid_def)
next
  case (miss ca y w1)
  then show ?thesis using get_head_valid by blast
qed simp_all

end

section \<open>Every run of the server\<close>

text \<open>
  The server among everything it does not control: between its calls, and during one through the
  store's own transitions, the store may take any content (other nodes, other tools, corruption),
  and cached entries may disappear (expiry, eviction).
\<close>

inductive server_step ::
  "'em lib \<Rightarrow> ('st, 'ca, 'nt, 'em) server \<Rightarrow> ('ca \<Rightarrow> string \<Rightarrow> get_resp option)
   \<Rightarrow> ('st, 'ca, 'nt) world \<Rightarrow> ('st, 'ca, 'nt) world \<Rightarrow> bool"
  for L S view where
  call: "handle L S ctx q w = (r, w') \<Longrightarrow> server_step L S view w w'"
| store_moves: "server_step L S view w (w\<lparr>w_store := s\<rparr>)"
| cache_shrinks: "(\<And>u r. view ca u = Some r \<Longrightarrow> view (w_cache w) u = Some r) \<Longrightarrow>
    server_step L S view w (w\<lparr>w_cache := ca\<rparr>)"

inductive server_reachable ::
  "'em lib \<Rightarrow> ('st, 'ca, 'nt, 'em) server \<Rightarrow> ('ca \<Rightarrow> string \<Rightarrow> get_resp option)
   \<Rightarrow> ('st, 'ca, 'nt) world \<Rightarrow> bool"
  for L S view where
  start: "(\<And>u. view (w_cache w) u = None) \<Longrightarrow> server_reachable L S view w"
| step: "server_reachable L S view w \<Longrightarrow> server_step L S view w w' \<Longrightarrow>
    server_reachable L S view w'"

context l2_cache
begin

lemma step_cache_valid:
  assumes "server_step L S view w w'" and "sv_cache S = Some K" and "cache_valid L view (w_cache w)"
  shows "cache_valid L view (w_cache w')"
  using assms(1)
proof (cases rule: server_step.cases)
  case (call ctx q r)
  with assms(2,3) show ?thesis using handle_cache_valid by blast
qed (use assms(3) in \<open>auto simp: cache_valid_def\<close>)

lemma reachable_cache_valid:
  assumes "server_reachable L S view w" and "sv_cache S = Some K"
  shows "cache_valid L view (w_cache w)"
  using assms
proof (induction rule: server_reachable.induct)
  case (start w)
  then show ?case by (simp add: cache_valid_def)
next
  case (step w w')
  then show ?case using step_cache_valid by blast
qed

lemma reachable_get_valid:
  assumes "server_reachable L S view w" and "sv_cache S = Some K"
    and "GetPrompt L S ctx q w = (Inr x, w')"
  shows "valid_resp L x"
  using get_valid [OF assms(2) _ assms(3)] reachable_cache_valid [OF assms(1,2)] by blast

lemma main_write_leaves_nothing:
  assumes "sv_cache S = Some K" and "handle L S ctx q w = (Inr r, w')" and "writes_main L q = Some u"
  shows "view (w_cache w') u = None"
  using main_write_success [OF assms(2,3)] view_after_success unfolding assms(1) by simp

end

text \<open>
  C3. A malformed prompt never reaches an agent: in every run of a server with a cache that meets
  the contract, over a store that may hold or turn into anything at any moment, each prompt a read
  answers, from the store, from the cache or pinned to a version, passes the validation that runs
  when prompts are written.
\<close>

theorem served_prompts_are_valid:
  assumes "l2_cache K view" and "sv_cache S = Some K" and "server_reachable L S view w"
    and "GetPrompt L S ctx q w = (Inr resp, w')"
  shows "validate_prompt L (g_uri resp) (g_template resp) (g_slots resp) = None"
  using l2_cache.reachable_get_valid [OF assms(1,3,2,4)] by (simp add: valid_resp_def)

text \<open>The sample server after a first publish, and after a read has filled its cache.\<close>

definition v1_world :: "(sample_store, ttl_cache, (string \<times> string \<times> string) list) world" where
  "v1_world = snd (handle sample_lib (sample_server (Some mem_cache)) (caller ''acme'' True)
     (RpcPublish (publish_of ''v1'' '''')) (sample_world sample_cache))"

definition v1_resp :: get_resp where
  "v1_resp = \<lparr>g_uri = acme_uri, g_template = ''v1'', g_slots = [],
              g_version_hash = sample_hash ''v1'' [], g_commit_hash = ''''\<rparr>"

definition read_v1 :: get_req where
  "read_v1 = \<lparr>gq_uri = acme_uri, gq_ref = ''''\<rparr>"

definition cached_world :: "(sample_store, ttl_cache, (string \<times> string \<times> string) list) world" where
  "cached_world = snd (GetPrompt sample_lib (sample_server (Some mem_cache)) (caller ''acme'' False)
     read_v1 v1_world)"

lemma publish_v1: "handle sample_lib (sample_server (Some mem_cache)) (caller ''acme'' True)
     (RpcPublish (publish_of ''v1'' '''')) (sample_world sample_cache)
   = (Inr (Hash_resp (sample_hash ''v1'' [])), v1_world)"
  unfolding v1_world_def prod_eq_iff by (simp add: handler_eval sample_eval)

lemma get_v1: "GetPrompt sample_lib (sample_server (Some mem_cache)) (caller ''acme'' False)
     read_v1 v1_world = (Inr v1_resp, cached_world)"
  unfolding cached_world_def prod_eq_iff
  by (simp add: v1_world_def read_v1_def v1_resp_def) (simp add: handler_eval sample_eval)

lemma cached_v1: "ttl_view (w_cache cached_world) acme_uri = Some v1_resp"
  by (simp add: cached_world_def v1_world_def read_v1_def v1_resp_def ttl_view_def)
     (simp add: handler_eval sample_eval)

lemma v1_reachable: "server_reachable sample_lib (sample_server (Some mem_cache)) ttl_view v1_world"
proof (rule server_reachable.step)
  show "server_reachable sample_lib (sample_server (Some mem_cache)) ttl_view (sample_world sample_cache)"
    by (rule server_reachable.start) (simp add: ttl_view_def sample_cache_def)
  show "server_step sample_lib (sample_server (Some mem_cache)) ttl_view (sample_world sample_cache) v1_world"
    using publish_v1 by (rule server_step.call)
qed

theorem served_prompts_are_valid_witness:
  "server_reachable sample_lib (sample_server (Some mem_cache)) ttl_view v1_world
   \<and> GetPrompt sample_lib (sample_server (Some mem_cache)) (caller ''acme'' False) read_v1 v1_world
       = (Inr v1_resp, cached_world)
   \<and> validate_prompt sample_lib (g_uri v1_resp) (g_template v1_resp) (g_slots v1_resp) = None"
  using v1_reachable get_v1
    served_prompts_are_valid [OF mem.l2_cache_axioms _ v1_reachable get_v1] by simp

text \<open>
  A write to main that reports success leaves no old version behind: after a publish, merge or
  rollback of main that answers without an error, the cache holds nothing for the address,
  whatever it held before and whatever the store did.
\<close>

theorem successful_main_write_clears_cache:
  assumes "l2_cache K view" and "sv_cache S = Some K"
    and "handle L S ctx q w = (Inr r, w')" and "writes_main L q = Some u"
  shows "view (w_cache w') u = None"
  using l2_cache.main_write_leaves_nothing [OF assms] .

text \<open>A rollback of an address whose current version is cached.\<close>

definition rollback_v1 :: rpc where
  "rollback_v1 = RpcSetBranch \<lparr>sq_uri = acme_uri, sq_branch = '''', sq_commit_hash = ''c''\<rparr>"

lemma rollback_v1_ok: "\<exists>w'. handle sample_lib (sample_server (Some mem_cache)) (caller ''acme'' True)
    rollback_v1 cached_world = (Inr (Hash_resp (sample_hash ''v1'' [])), w')"
  by (simp add: prod_eq_iff rollback_v1_def cached_world_def v1_world_def read_v1_def)
     (simp add: handler_eval sample_eval)

theorem successful_main_write_clears_cache_witness:
  "ttl_view (w_cache cached_world) acme_uri \<noteq> None
   \<and> (\<exists>r w'. handle sample_lib (sample_server (Some mem_cache)) (caller ''acme'' True)
                rollback_v1 cached_world = (Inr r, w') \<and> ttl_view (w_cache w') acme_uri = None)"
proof -
  obtain w' where w': "handle sample_lib (sample_server (Some mem_cache)) (caller ''acme'' True)
      rollback_v1 cached_world = (Inr (Hash_resp (sample_hash ''v1'' [])), w')"
    using rollback_v1_ok by blast
  have "writes_main sample_lib rollback_v1 = Some acme_uri"
    by (simp add: rollback_v1_def branchOr_def)
  then have "ttl_view (w_cache w') acme_uri = None"
    using successful_main_write_clears_cache [OF mem.l2_cache_axioms _ w'] by simp
  with w' cached_v1 show ?thesis by blast
qed

end
