(* ===== verification/Server_Events.thy ===== *)
theory Server_Events
  imports Server_Safety
begin

text \<open>
  What the writing handlers do on main, branch by branch: the store transition, the event, the
  cache, the answer. Then the two retries after a cache clear that failed: a publish heals itself
  and sends nothing twice; a rollback sends its event on the retry, with a verdict that compares
  the restored version with itself.
\<close>

section \<open>PublishPrompt\<close>

text \<open>The caller may write the address.\<close>

definition may_write :: "'em lib \<Rightarrow> ctx \<Rightarrow> string \<Rightarrow> bool" where
  "may_write L ctx u \<longleftrightarrow> InScope L ctx u \<and> RequireWrite ctx = None"

text \<open>The verdict a publish over the current HEAD carries.\<close>

definition publish_class ::
  "'em lib \<Rightarrow> ('st, 'ca, 'nt, 'em) server \<Rightarrow> prompt \<times> gerr option \<Rightarrow> string \<Rightarrow> string" where
  "publish_class L S prev t =
     (case prev of
        (p, None) \<Rightarrow> fst (classify L S (p_template p) t)
      | (p, Some e) \<Rightarrow> if errors_is e Err_NotFound then ''new'' else '''')"

lemma may_write_simps:
  assumes "may_write L ctx u"
  shows "Authorize L ctx u = None" "RequireWrite ctx = None"
  using assms by (simp_all add: may_write_def)

lemma fst_invalidate:
  "fst (invalidate c u w) = (if inv_ok c u (w_cache w) then None else Some
     (status_error Unavailable
        ''the change is stored but the cache could not be cleared; retry so readers see it''))"
  by (auto simp: invalidate_def inv_ok_def split: option.splits prod.splits)

text \<open>The answer of a call whose only remaining failure is the cache clear.\<close>

definition cleared_or :: "bool \<Rightarrow> 'r \<Rightarrow> status + 'r \<Rightarrow> bool" where
  "cleared_or ok h r \<longleftrightarrow> (if ok then r = Inr h else \<exists>e. r = Inl e \<and> st_code e = Unavailable)"

lemma invalidate_cleared:
  "invalidate c u w = (r, w') \<Longrightarrow>
     cleared_or (inv_ok c u (w_cache w)) h (case r of Some e \<Rightarrow> Inl e | None \<Rightarrow> Inr h)"
  using invalidate_eq [of c u w r w'] invalidate_status [of c u w _ w']
  by (cases r) (auto simp: cleared_or_def)

lemma precheck_main_same:
  assumes "reads_pure (sv_store S)" and "served (sv_store S) (w_store w) (pq_uri q) = (p, None)"
    and "p_version_hash p = h"
  obtains r w' where "publish_precheck L S q h (default_branch L) w = (Finish r, w')"
    and "w_store w' = w_store w" and "w_notif w' = w_notif w"
    and "w_cache w' = cache_inv (sv_cache S) (pq_uri q) (w_cache w)"
    and "cleared_or (inv_ok (sv_cache S) (pq_uri q) (w_cache w)) h r"
proof -
  obtain x w' where iv: "invalidate (sv_cache S) (pq_uri q) w = (x, w')" by fastforce
  have pre: "publish_precheck L S q h (default_branch L) w
      = (Finish (case x of Some e \<Rightarrow> Inl e | None \<Rightarrow> Inr h), w')"
    using assms iv
    by (auto simp: publish_precheck_def reads_pure_simps reads_pure_get split: option.splits)
  show ?thesis
    using that [OF pre] iv by (auto dest: invalidate_eq invalidate_cleared)
qed

lemma precheck_main_change:
  assumes "reads_pure (sv_store S)"
    and "\<not> (\<exists>p. served (sv_store S) (w_store w) (pq_uri q) = (p, None) \<and> p_version_hash p = h)"
  obtains ls where "publish_precheck L S q h (default_branch L) w
    = (Commit_as (publish_class L S (served (sv_store S) (w_store w) (pq_uri q)) (pq_template q)),
       log_w ls w)"
proof -
  obtain p err where sv: "served (sv_store S) (w_store w) (pq_uri q) = (p, err)" by fastforce
  have nil: "log_w [] w = w" by (simp add: log_w_def)
  show ?thesis
  proof (cases err)
    case None
    with sv assms have "publish_precheck L S q h (default_branch L) w
        = (Commit_as (publish_class L S (p, err) (pq_template q)),
           log_w (snd (classify L S (p_template p) (pq_template q))) w)"
      by (auto simp: publish_precheck_def publish_class_def reads_pure_simps reads_pure_get split: prod.splits)
    with that sv show ?thesis by simp
  next
    case (Some e)
    with sv assms(1) have "publish_precheck L S q h (default_branch L) w
        = (Commit_as (publish_class L S (p, err) (pq_template q)), log_w [] w)"
      by (simp add: publish_precheck_def publish_class_def reads_pure_simps reads_pure_get nil)
    with that sv show ?thesis by simp
  qed
qed

lemma commit_main:
  assumes "sv_notifier S = Some n"
    and "st_commit (sv_store S) (pq_uri q) (default_branch L) (pq_template q) (pq_slots q)
           (ScopeOf ctx) (pq_message q) (w_store w) = (Inr c, s')"
    and "publish_commit L S ctx q h (default_branch L) class w = (r, w')"
  shows "w_store w' = s'" and "w_cache w' = cache_inv (sv_cache S) (pq_uri q) (w_cache w)"
    and "w_notif w' = snd (n_publish n (pq_uri q) h class (w_notif w))"
    and "cleared_or (inv_ok (sv_cache S) (pq_uri q) (w_cache w)) h r"
proof -
  obtain x w2 where iv: "invalidate (sv_cache S) (pq_uri q) (w\<lparr>w_store := s'\<rparr>) = (x, w2)"
    by fastforce
  have "(r, w') = (case x of Some e \<Rightarrow> Inl e | None \<Rightarrow> Inr h, notify S (pq_uri q) h class w2)"
    using assms(2,3) iv by (auto simp: publish_commit_def on_store_def split: option.splits)
  then show "w_store w' = s'" "w_cache w' = cache_inv (sv_cache S) (pq_uri q) (w_cache w)"
    "w_notif w' = snd (n_publish n (pq_uri q) h class (w_notif w))"
    "cleared_or (inv_ok (sv_cache S) (pq_uri q) (w_cache w)) h r"
    using invalidate_eq [OF iv] invalidate_cleared [OF iv, of h] assms(1) by simp_all
qed

lemma commit_main_fails:
  assumes "st_commit (sv_store S) (pq_uri q) (default_branch L) (pq_template q) (pq_slots q)
           (ScopeOf ctx) (pq_message q) (w_store w) = (Inl e, s')"
    and "publish_commit L S ctx q h (default_branch L) class w = (r, w')"
  shows "w_store w' = s'" "w_cache w' = w_cache w" "w_notif w' = w_notif w"
    "r = Inl (fst (store_status ''publish'' e))"
  using assms by (auto simp: publish_commit_def on_store_def fail_with_def split: prod.splits)

lemma publish_passes:
  assumes "may_write L ctx (pq_uri q)"
    and "validate_prompt L (pq_uri q) (pq_template q) (pq_slots q) = None"
    and "branchOr L (pq_branch q) = b"
  shows "PublishPrompt L S ctx q w =
    (case publish_precheck L S q (store_hash L (pq_template q) (pq_slots q)) b w of
       (Finish r, w1) \<Rightarrow> (r, w1)
     | (Commit_as class, w1) \<Rightarrow>
         publish_commit L S ctx q (store_hash L (pq_template q) (pq_slots q)) b class w1)"
  unfolding PublishPrompt_def may_write_simps [OF assms(1)] assms(2,3) option.case Let_def by (rule refl)

lemma publish_main_same:
  assumes "reads_pure (sv_store S)" and "may_write L ctx (pq_uri q)"
    and "validate_prompt L (pq_uri q) (pq_template q) (pq_slots q) = None"
    and "branchOr L (pq_branch q) = default_branch L"
    and "served (sv_store S) (w_store w) (pq_uri q) = (p, None)"
    and "p_version_hash p = store_hash L (pq_template q) (pq_slots q)"
    and "PublishPrompt L S ctx q w = (r, w')"
  shows "w_store w' = w_store w" and "w_notif w' = w_notif w"
    and "w_cache w' = cache_inv (sv_cache S) (pq_uri q) (w_cache w)"
    and "cleared_or (inv_ok (sv_cache S) (pq_uri q) (w_cache w))
           (store_hash L (pq_template q) (pq_slots q)) r"
proof -
  obtain r1 w1 where pre: "publish_precheck L S q (store_hash L (pq_template q) (pq_slots q))
      (default_branch L) w = (Finish r1, w1)"
    and w1: "w_store w1 = w_store w" "w_notif w1 = w_notif w"
      "w_cache w1 = cache_inv (sv_cache S) (pq_uri q) (w_cache w)"
      "cleared_or (inv_ok (sv_cache S) (pq_uri q) (w_cache w))
         (store_hash L (pq_template q) (pq_slots q)) r1"
    using precheck_main_same [OF assms(1,5,6)] .
  have "r1 = r" "w1 = w'"
    using assms(7) unfolding publish_passes [OF assms(2-4)] pre by simp_all
  then show "w_store w' = w_store w" "w_notif w' = w_notif w"
    "w_cache w' = cache_inv (sv_cache S) (pq_uri q) (w_cache w)"
    "cleared_or (inv_ok (sv_cache S) (pq_uri q) (w_cache w))
       (store_hash L (pq_template q) (pq_slots q)) r"
    using w1 by simp_all
qed

lemma publish_main_change:
  assumes "reads_pure (sv_store S)" and "may_write L ctx (pq_uri q)"
    and "validate_prompt L (pq_uri q) (pq_template q) (pq_slots q) = None"
    and "branchOr L (pq_branch q) = default_branch L"
    and "\<not> (\<exists>p. served (sv_store S) (w_store w) (pq_uri q) = (p, None)
              \<and> p_version_hash p = store_hash L (pq_template q) (pq_slots q))"
    and "PublishPrompt L S ctx q w = (r, w')"
  obtains ls where "publish_commit L S ctx q (store_hash L (pq_template q) (pq_slots q))
      (default_branch L)
      (publish_class L S (served (sv_store S) (w_store w) (pq_uri q)) (pq_template q)) (log_w ls w)
      = (r, w')"
  using precheck_main_change [OF assms(1,5)] assms(6) unfolding publish_passes [OF assms(2-4)]
  by (metis (no_types, lifting) old.prod.case publish_step.simps(6))

text \<open>
  C14. Publishing to main, in full. Content main already serves is written nowhere and announced
  to nobody; the cache is cleared all the same. Anything else is committed; a failed commit is
  reported and changes neither cache nor subscribers' view; a successful one is announced exactly
  once, with its version and verdict, whether or not the cache could be cleared, and the answer is
  the version hash if it could and \<open>Unavailable\<close> if not.
\<close>

theorem publish_on_main:
  assumes "reads_pure (sv_store S)" and "sv_notifier S = Some n"
    and "may_write L ctx (pq_uri q)"
    and "validate_prompt L (pq_uri q) (pq_template q) (pq_slots q) = None"
    and "branchOr L (pq_branch q) = default_branch L"
    and "PublishPrompt L S ctx q w = (r, w')"
  shows "let u = pq_uri q; h = store_hash L (pq_template q) (pq_slots q); s = w_store w;
             ok = inv_ok (sv_cache S) u (w_cache w) in
    if \<exists>p. served (sv_store S) s u = (p, None) \<and> p_version_hash p = h
    then w_store w' = s \<and> w_notif w' = w_notif w \<and> w_cache w' = cache_inv (sv_cache S) u (w_cache w)
         \<and> cleared_or ok h r
    else (case st_commit (sv_store S) u (default_branch L) (pq_template q) (pq_slots q)
                 (ScopeOf ctx) (pq_message q) s of
            (Inl e, s') \<Rightarrow> w_store w' = s' \<and> w_notif w' = w_notif w \<and> w_cache w' = w_cache w
                        \<and> r = Inl (fst (store_status ''publish'' e))
          | (Inr _, s') \<Rightarrow> w_store w' = s' \<and> w_cache w' = cache_inv (sv_cache S) u (w_cache w)
                        \<and> w_notif w' = snd (n_publish n u h
                             (publish_class L S (served (sv_store S) s u) (pq_template q)) (w_notif w))
                        \<and> cleared_or ok h r)"
proof (cases "\<exists>p. served (sv_store S) (w_store w) (pq_uri q) = (p, None)
    \<and> p_version_hash p = store_hash L (pq_template q) (pq_slots q)")
  case True
  then show ?thesis
    using publish_main_same [OF assms(1,3-5) _ _ assms(6)] unfolding Let_def if_P [OF True] by blast
next
  case False
  obtain ls where c: "publish_commit L S ctx q (store_hash L (pq_template q) (pq_slots q))
      (default_branch L)
      (publish_class L S (served (sv_store S) (w_store w) (pq_uri q)) (pq_template q)) (log_w ls w)
      = (r, w')"
    using publish_main_change [OF assms(1,3-5) False assms(6)] .
  show ?thesis
    unfolding Let_def if_not_P [OF False]
    using commit_main [OF assms(2) _ c] commit_main_fails [OF _ c]
    by (auto split: prod.splits sum.splits)
qed

text \<open>After a publish whose commit the store accepts, main serves the content.\<close>

lemma publish_stored:
  assumes "store_contract L (sv_store S)" and "sv_notifier S = Some n" and "may_write L ctx (pq_uri q)"
    and "validate_prompt L (pq_uri q) (pq_template q) (pq_slots q) = None"
    and "branchOr L (pq_branch q) = default_branch L"
    and "st_commit (sv_store S) (pq_uri q) (default_branch L) (pq_template q) (pq_slots q)
           (ScopeOf ctx) (pq_message q) (w_store w) = (Inr c, s')"
    and "PublishPrompt L S ctx q w = (r, w')"
  shows "\<exists>p. served (sv_store S) (w_store w') (pq_uri q) = (p, None)
           \<and> p_version_hash p = store_hash L (pq_template q) (pq_slots q)"
proof (cases "\<exists>p. served (sv_store S) (w_store w) (pq_uri q) = (p, None)
    \<and> p_version_hash p = store_hash L (pq_template q) (pq_slots q)")
  case True
  then show ?thesis
    using publish_main_same(1) [OF store_contractD(1) [OF assms(1)] assms(3-5) _ _ assms(7)] by auto
next
  case False
  obtain ls where c: "publish_commit L S ctx q (store_hash L (pq_template q) (pq_slots q))
      (default_branch L)
      (publish_class L S (served (sv_store S) (w_store w) (pq_uri q)) (pq_template q)) (log_w ls w)
      = (r, w')"
    using publish_main_change [OF store_contractD(1) [OF assms(1)] assms(3-5) False assms(7)] .
  have "w_store w' = s'" using commit_main(1) [OF assms(2) _ c] assms(6) by simp
  then show ?thesis
    using commit_contractD(2) [OF store_contractD(2) [OF assms(1)] assms(6)] by simp
qed

text \<open>
  C35. A publish whose cache clear failed heals on retry: once the cache is reachable, sending the
  same request again answers the version hash, writes nothing, announces nothing a second time,
  and clears the cache.
\<close>

theorem publish_retry_heals:
  assumes "store_contract L (sv_store S)" and "sv_notifier S = Some n" and "may_write L ctx (pq_uri q)"
    and "validate_prompt L (pq_uri q) (pq_template q) (pq_slots q) = None"
    and "branchOr L (pq_branch q) = default_branch L"
    and "st_commit (sv_store S) (pq_uri q) (default_branch L) (pq_template q) (pq_slots q)
           (ScopeOf ctx) (pq_message q) (w_store w) = (Inr c, s')"
    and "PublishPrompt L S ctx q w = (r, w')"
    and "inv_ok (sv_cache S) (pq_uri q) ca"
    and "PublishPrompt L S ctx q (w'\<lparr>w_cache := ca\<rparr>) = (r2, w2)"
  shows "r2 = Inr (store_hash L (pq_template q) (pq_slots q))
       \<and> w_store w2 = w_store w' \<and> w_notif w2 = w_notif w'
       \<and> w_cache w2 = cache_inv (sv_cache S) (pq_uri q) ca"
  using publish_stored [OF assms(1-7)] assms(8)
    publish_main_same [OF store_contractD(1) [OF assms(1)] assms(3-5) _ _ assms(9)]
  by (auto simp: cleared_or_def)

section \<open>MergeBranch and SetBranch\<close>

lemma merge_passes:
  assumes "reads_pure (sv_store S)" and "may_write L ctx (mq_uri q)"
    and "branchOr L (mq_into q) = default_branch L"
  shows "MergeBranch L S ctx q w =
    (case on_store (st_merge (sv_store S) (mq_uri q) (default_branch L) (mq_from q) (ScopeOf ctx)
             (mq_message q)) w of
       (Inl e, w2) \<Rightarrow> fail_with (branchErr e) w2
     | (Inr hash, w2) \<Rightarrow>
         (case invalidate (sv_cache S) (mq_uri q) w2 of (invErr, w3) \<Rightarrow>
           (case invErr of Some e \<Rightarrow> Inl e | None \<Rightarrow> Inr hash,
            merge_notify L S (mq_uri q) (fst (served (sv_store S) (w_store w) (mq_uri q))) hash w3)))"
proof -
  have get: "st_get (sv_store S) (mq_uri q) (w_store w)
      = (served (sv_store S) (w_store w) (mq_uri q), w_store w)"
    using assms(1) by (rule reads_pure_get)
  show ?thesis
    unfolding MergeBranch_def may_write_simps [OF assms(2)] assms(3) option.case Let_def
      simp_thms if_True on_store_def [of "st_get _ _"] get
    by (auto simp: case_prod_beta split: sum.splits option.splits)
qed

text \<open>
  C25. Merging into main, in full. A failed merge changes neither the cache nor what subscribers
  heard. A successful one always clears the cache, answers the merge commit if that worked and
  \<open>Unavailable\<close> if not, and sends at most one event: when the merge commit can be read back and
  its content differs from the content main served before, the event names the merged version.
\<close>

theorem merge_into_main:
  assumes "reads_pure (sv_store S)" and "sv_notifier S = Some n" and "may_write L ctx (mq_uri q)"
    and "branchOr L (mq_into q) = default_branch L"
    and "MergeBranch L S ctx q w = (r, w')"
  shows "let u = mq_uri q; prev = fst (served (sv_store S) (w_store w) u);
             ok = inv_ok (sv_cache S) u (w_cache w) in
    case st_merge (sv_store S) u (default_branch L) (mq_from q) (ScopeOf ctx) (mq_message q)
           (w_store w) of
      (Inl e, s') \<Rightarrow> w_store w' = s' \<and> w_notif w' = w_notif w \<and> w_cache w' = w_cache w
                  \<and> r = Inl (fst (branchErr e))
    | (Inr h, s') \<Rightarrow> w_store w' = s' \<and> w_cache w' = cache_inv (sv_cache S) u (w_cache w)
        \<and> cleared_or ok h r
        \<and> w_notif w' = (case fst (st_get_commit (sv_store S) h s') of
              Inl _ \<Rightarrow> w_notif w
            | Inr c \<Rightarrow> if c_version_hash c = p_version_hash prev then w_notif w
                else snd (n_publish n u (c_version_hash c)
                       (fst (classify L S (p_template prev) (c_template c))) (w_notif w)))"
proof -
  obtain x s' where mg: "st_merge (sv_store S) (mq_uri q) (default_branch L) (mq_from q)
      (ScopeOf ctx) (mq_message q) (w_store w) = (x, s')" by fastforce
  note run = assms(5) [unfolded merge_passes [OF assms(1,3,4)] on_store_def mg]
  show ?thesis
  proof (cases x)
    case (Inl e)
    with run mg show ?thesis
      by (auto simp: Let_def fail_with_def split: prod.splits)
  next
    case (Inr h)
    obtain iv w3 where iv: "invalidate (sv_cache S) (mq_uri q) (w\<lparr>w_store := s'\<rparr>) = (iv, w3)"
      by fastforce
    have w3: "w_store w3 = s'" "w_notif w3 = w_notif w"
      "w_cache w3 = cache_inv (sv_cache S) (mq_uri q) (w_cache w)"
      using invalidate_eq [OF iv] by simp_all
    have r: "r = (case iv of Some e \<Rightarrow> Inl e | None \<Rightarrow> Inr h)"
      and w': "w' = merge_notify L S (mq_uri q) (fst (served (sv_store S) (w_store w) (mq_uri q))) h w3"
      using run Inr iv by simp_all
    have "cleared_or (inv_ok (sv_cache S) (mq_uri q) (w_cache w)) h r"
      using invalidate_cleared [OF iv, of h] r by simp
    moreover have "st_get_commit (sv_store S) h s' = (fst (st_get_commit (sv_store S) h s'), s')"
      using assms(1) by (simp add: reads_pure_def prod_eq_iff)
    ultimately show ?thesis
      unfolding Let_def mg w' using Inr w3 assms(1,2)
      by (auto simp: merge_notify_def reads_pure_simps split: sum.splits prod.splits)
  qed
qed

lemma set_branch_passes:
  assumes "reads_pure (sv_store S)" and "may_write L ctx (sq_uri q)" and "sq_commit_hash q \<noteq> ''''"
    and "branchOr L (sq_branch q) = default_branch L" and "sv_notifier S = Some n"
  shows "SetBranch L S ctx q w =
    (case on_store (st_set_branch (sv_store S) (sq_uri q) (default_branch L) (sq_commit_hash q)) w of
       (Inl e, w2) \<Rightarrow>
         (if errors_is e Err_NotFound
          then (Inl (status_errorf NotFound ''commit %q not found for %q''
                       [sq_commit_hash q, sq_uri q]), w2)
          else fail_with (store_status ''set branch'' e) w2)
     | (Inr c, w2) \<Rightarrow>
         (case invalidate (sv_cache S) (sq_uri q) w2 of
            (Some e, w3) \<Rightarrow> (Inl e, w3)
          | (None, w3) \<Rightarrow>
              (Inr (c_version_hash c),
               (case classify L S (case served (sv_store S) (w_store w) (sq_uri q) of
                                     (p, None) \<Rightarrow> p_template p | (p, Some e) \<Rightarrow> '''') (c_template c) of
                 (class, ls) \<Rightarrow> notify S (sq_uri q) (c_version_hash c) class (log_w ls w3)))))"
proof -
  have get: "st_get (sv_store S) (sq_uri q) (w_store w)
      = (served (sv_store S) (w_store w) (sq_uri q), w_store w)"
    using assms(1) by (rule reads_pure_get)
  have ne: "(sq_commit_hash q = '''') = False" "(sv_notifier S = None) = False"
    using assms(3,5) by simp_all
  show ?thesis
    unfolding SetBranch_def may_write_simps [OF assms(2)] assms(4) option.case Let_def ne
      simp_thms if_True if_False on_store_def [of "st_get _ _"] get
    by (auto simp: case_prod_beta split: sum.splits option.splits)
qed

text \<open>The template main served before a call, as \<open>SetBranch\<close> reads it: empty when there was none.\<close>

definition old_template :: "'st store \<Rightarrow> 'st \<Rightarrow> string \<Rightarrow> string" where
  "old_template st s u = (case served st s u of (p, None) \<Rightarrow> p_template p | (p, Some e) \<Rightarrow> '''')"

lemma set_main_moved:
  assumes "reads_pure (sv_store S)" and "sv_notifier S = Some n" and "may_write L ctx (sq_uri q)"
    and "sq_commit_hash q \<noteq> ''''" and "branchOr L (sq_branch q) = default_branch L"
    and "st_set_branch (sv_store S) (sq_uri q) (default_branch L) (sq_commit_hash q) (w_store w)
         = (Inr c, s')"
    and "SetBranch L S ctx q w = (r, w')"
  shows "w_store w' = s'" and "w_cache w' = cache_inv (sv_cache S) (sq_uri q) (w_cache w)"
    and "cleared_or (inv_ok (sv_cache S) (sq_uri q) (w_cache w)) (c_version_hash c) r"
    and "w_notif w' = (if inv_ok (sv_cache S) (sq_uri q) (w_cache w)
           then snd (n_publish n (sq_uri q) (c_version_hash c)
             (fst (classify L S (old_template (sv_store S) (w_store w) (sq_uri q)) (c_template c)))
             (w_notif w))
           else w_notif w)"
proof -
  note run = assms(7) [unfolded set_branch_passes [OF assms(1,3,4,5,2)] on_store_def assms(6)]
  obtain iv w3 where iv: "invalidate (sv_cache S) (sq_uri q) (w\<lparr>w_store := s'\<rparr>) = (iv, w3)"
    by fastforce
  have w3: "w_store w3 = s'" "w_notif w3 = w_notif w"
    "w_cache w3 = cache_inv (sv_cache S) (sq_uri q) (w_cache w)"
    "iv = None \<longleftrightarrow> inv_ok (sv_cache S) (sq_uri q) (w_cache w)"
    using invalidate_eq [OF iv] by simp_all
  have r: "r = (case iv of Some e \<Rightarrow> Inl e | None \<Rightarrow> Inr (c_version_hash c))"
    using run iv by (auto simp: case_prod_beta split: option.splits)
  obtain cl ls where cl: "classify L S (old_template (sv_store S) (w_store w) (sq_uri q))
      (c_template c) = (cl, ls)" by fastforce
  have w': "w' = (if iv = None then notify S (sq_uri q) (c_version_hash c) cl (log_w ls w3) else w3)"
    using run iv cl by (auto simp: old_template_def split: option.splits)
  show "w_store w' = s'" "w_cache w' = cache_inv (sv_cache S) (sq_uri q) (w_cache w)"
    "w_notif w' = (if inv_ok (sv_cache S) (sq_uri q) (w_cache w)
       then snd (n_publish n (sq_uri q) (c_version_hash c)
         (fst (classify L S (old_template (sv_store S) (w_store w) (sq_uri q)) (c_template c)))
         (w_notif w))
       else w_notif w)"
    unfolding w' cl using w3 assms(2) by simp_all
  show "cleared_or (inv_ok (sv_cache S) (sq_uri q) (w_cache w)) (c_version_hash c) r"
    using invalidate_cleared [OF iv, of "c_version_hash c"] r by simp
qed

text \<open>
  C26. Moving main to another commit, in full. A commit the store does not know for this address is
  \<open>NotFound\<close> and changes nothing but the store's own state. After a successful move the cache is
  cleared; only if that worked is the move announced, once, with the restored version and a
  verdict against the template served before, and the version hash answered; otherwise the answer
  is \<open>Unavailable\<close> and nothing is announced.
\<close>

theorem set_main_branch:
  assumes "reads_pure (sv_store S)" and "sv_notifier S = Some n" and "may_write L ctx (sq_uri q)"
    and "sq_commit_hash q \<noteq> ''''" and "branchOr L (sq_branch q) = default_branch L"
    and "SetBranch L S ctx q w = (r, w')"
  shows "let u = sq_uri q; ok = inv_ok (sv_cache S) u (w_cache w) in
    case st_set_branch (sv_store S) u (default_branch L) (sq_commit_hash q) (w_store w) of
      (Inl e, s') \<Rightarrow> w_store w' = s' \<and> w_notif w' = w_notif w \<and> w_cache w' = w_cache w
        \<and> (\<exists>st. r = Inl st \<and> (errors_is e Err_NotFound \<longrightarrow> st_code st = NotFound))
    | (Inr c, s') \<Rightarrow> w_store w' = s' \<and> w_cache w' = cache_inv (sv_cache S) u (w_cache w)
        \<and> cleared_or ok (c_version_hash c) r
        \<and> w_notif w' = (if ok then snd (n_publish n u (c_version_hash c)
              (fst (classify L S (old_template (sv_store S) (w_store w) u) (c_template c))) (w_notif w))
            else w_notif w)"
proof -
  obtain x s' where mv: "st_set_branch (sv_store S) (sq_uri q) (default_branch L) (sq_commit_hash q)
      (w_store w) = (x, s')" by fastforce
  show ?thesis
  proof (cases x)
    case (Inl e)
    with assms(6) mv show ?thesis
      unfolding set_branch_passes [OF assms(1,3,4,5,2)] on_store_def
      by (auto simp: Let_def fail_with_def status_errorf_def split: prod.splits if_splits)
  next
    case (Inr c)
    then show ?thesis
      using set_main_moved [OF assms(1-5) _ assms(6)] mv by (simp add: Let_def)
  qed
qed

text \<open>
  C36. A rollback whose cache clear failed loses its verdict. The first call moves main and returns
  \<open>Unavailable\<close> before anything is announced; the retry the error asks for announces the move, but
  main already serves the restored commit by then, so the verdict compares that version with
  itself instead of with the version that was replaced. (\<open>PublishPrompt\<close> and \<open>MergeBranch\<close>
  announce before they report a failed clear, and are not affected.)
\<close>

theorem rollback_retry_compares_with_itself:
  assumes "store_contract L (sv_store S)" and "sv_notifier S = Some n" and "may_write L ctx (sq_uri q)"
    and "sq_commit_hash q \<noteq> ''''" and "branchOr L (sq_branch q) = default_branch L"
    and "st_set_branch (sv_store S) (sq_uri q) (default_branch L) (sq_commit_hash q) (w_store w)
         = (Inr c, s1)"
    and "\<not> inv_ok (sv_cache S) (sq_uri q) (w_cache w)"
    and "SetBranch L S ctx q w = (r1, w1)"
    and "st_set_branch (sv_store S) (sq_uri q) (default_branch L) (sq_commit_hash q) s1
         = (Inr c', s2)"
    and "inv_ok (sv_cache S) (sq_uri q) ca"
    and "SetBranch L S ctx q (w1\<lparr>w_cache := ca\<rparr>) = (r2, w2)"
  shows "status_code r1 = Unavailable \<and> w_notif w1 = w_notif w
       \<and> r2 = Inr (c_version_hash c')
       \<and> w_notif w2 = snd (n_publish n (sq_uri q) (c_version_hash c')
                              (fst (classify L S (c_template c) (c_template c'))) (w_notif w))"
proof -
  note pure = store_contractD(1) [OF assms(1)]
  note first = set_main_moved [OF pure assms(2-6,8)]
  have "st_set_branch (sv_store S) (sq_uri q) (default_branch L) (sq_commit_hash q)
      (w_store (w1\<lparr>w_cache := ca\<rparr>)) = (Inr c', s2)"
    using first(1) assms(9) by simp
  note second = set_main_moved [OF pure assms(2-5) this assms(11), simplified, unfolded first(1)]
  have "old_template (sv_store S) s1 (sq_uri q) = c_template c"
    using set_branch_contractD(2) [OF store_contractD(4) [OF assms(1)] assms(6)]
    by (simp add: old_template_def prompt_of_def)
  then show ?thesis
    using first second assms(7,10) by (auto simp: cleared_or_def)
qed

section \<open>Branches other than main\<close>

text \<open>
  The address a write to main is about is the only one whose served prompt can change, and a call
  that writes no main branch is invisible to readers and subscribers.
\<close>

lemma write_elsewhere:
  assumes "store_contract L st"
  shows "v \<noteq> u \<or> b \<noteq> default_branch L \<Longrightarrow>
      served st (snd (st_commit st u b t sl a g s)) v = served st s v"
    and "v \<noteq> u \<or> b \<noteq> default_branch L \<Longrightarrow>
      served st (snd (st_merge st u b f a g s)) v = served st s v"
    and "v \<noteq> u \<or> b \<noteq> default_branch L \<Longrightarrow>
      served st (snd (st_set_branch st u b h s)) v = served st s v"
    and "served st s v = (p, None) \<Longrightarrow> served st (snd (st_branch st u nm f s)) v = (p, None)"
  subgoal by (rule commit_contractD(1) [OF store_contractD(2) [OF assms] surjective_pairing]) blast
  subgoal by (rule merge_contractD(1) [OF store_contractD(3) [OF assms] surjective_pairing]) blast
  subgoal by (rule set_branch_contractD(1) [OF store_contractD(4) [OF assms] surjective_pairing]) blast
  subgoal by (rule branch_contractD [OF store_contractD(5) [OF assms]])
  done

lemma publish_precheck_store:
  "reads_pure (sv_store S) \<Longrightarrow> publish_precheck L S q h b w = (x, w') \<Longrightarrow>
     w_store w' = w_store w \<and> w_notif w' = w_notif w"
  by (auto simp: publish_precheck_def reads_pure_simps dest!: invalidate_eq
      split: prod.splits sum.splits option.splits if_splits)

lemma publish_commit_store:
  "publish_commit L S ctx q h b c w = (r, w') \<Longrightarrow>
     w_store w' = snd (st_commit (sv_store S) (pq_uri q) b (pq_template q) (pq_slots q)
                         (ScopeOf ctx) (pq_message q) (w_store w))
   \<and> (b \<noteq> default_branch L \<longrightarrow> w_notif w' = w_notif w)"
  by (auto simp: publish_commit_def on_store_eq Let_def fail_with_def log_w_def dest!: invalidate_eq
      split: prod.splits sum.splits option.splits if_splits)

lemma publish_store:
  assumes "reads_pure (sv_store S)" and "PublishPrompt L S ctx q w = (r, w')"
  shows "(w_store w' = w_store w
       \<or> w_store w' = snd (st_commit (sv_store S) (pq_uri q) (branchOr L (pq_branch q)) (pq_template q)
           (pq_slots q) (ScopeOf ctx) (pq_message q) (w_store w)))
     \<and> (branchOr L (pq_branch q) \<noteq> default_branch L \<longrightarrow> w_notif w' = w_notif w)"
  using assms
  by (auto simp: PublishPrompt_def Let_def dest!: publish_precheck_store publish_commit_store
      split: prod.splits option.splits publish_step.splits)

lemma merge_store:
  assumes "reads_pure (sv_store S)" and "MergeBranch L S ctx q w = (r, w')"
  shows "(w_store w' = w_store w
       \<or> w_store w' = snd (st_merge (sv_store S) (mq_uri q) (branchOr L (mq_into q)) (mq_from q)
           (ScopeOf ctx) (mq_message q) (w_store w)))
     \<and> (branchOr L (mq_into q) \<noteq> default_branch L \<longrightarrow> w_notif w' = w_notif w)"
  using assms
  by (auto simp: MergeBranch_def Let_def merge_notify_def reads_pure_simps on_store_eq [of "st_merge _ _ _ _ _ _"]
      fail_with_def log_w_def dest!: invalidate_eq
      split: prod.splits option.splits sum.splits if_splits)

lemma set_branch_store:
  assumes "reads_pure (sv_store S)" and "SetBranch L S ctx q w = (r, w')"
  shows "(w_store w' = w_store w
       \<or> w_store w' = snd (st_set_branch (sv_store S) (sq_uri q) (branchOr L (sq_branch q))
           (sq_commit_hash q) (w_store w)))
     \<and> (branchOr L (sq_branch q) \<noteq> default_branch L \<longrightarrow> w_notif w' = w_notif w)"
  using assms
  by (auto simp: SetBranch_def Let_def reads_pure_simps on_store_eq [of "st_set_branch _ _ _ _"]
      fail_with_def log_w_def dest!: invalidate_eq
      split: prod.splits option.splits sum.splits if_splits)

lemma create_branch_store:
  "CreateBranch L S ctx q w = (r, w') \<Longrightarrow>
     (w_store w' = w_store w
     \<or> w_store w' = snd (st_branch (sv_store S) (bq_uri q) (bq_name q) (branchOr L (bq_from q)) (w_store w)))
     \<and> w_notif w' = w_notif w"
  by (auto simp: CreateBranch_def on_store_eq fail_with_def log_w_def
      split: prod.splits option.splits sum.splits if_splits)

text \<open>
  C15. A call changes what readers see of one address at most, and only by writing its main branch:
  every other prompt that was served stays served as it was, and a call that does not write main,
  work on other branches included, sends no event.
\<close>

theorem only_main_writes_reach_readers:
  assumes "store_contract L (sv_store S)" and "handle L S ctx q w = (r, w')"
  shows "(\<forall>v p. writes_main L q \<noteq> Some v \<and> served (sv_store S) (w_store w) v = (p, None)
            \<longrightarrow> served (sv_store S) (w_store w') v = (p, None))
       \<and> (writes_main L q = None \<longrightarrow> w_notif w' = w_notif w)"
proof (cases "mutating q")
  case False
  then show ?thesis
    using reading_frame [OF store_contractD(1) [OF assms(1)] False, of L ctx w] assms(2)
    by simp
next
  case True
  note pure = store_contractD(1) [OF assms(1)]
  note keep = write_elsewhere [OF assms(1)]
  show ?thesis
  proof (cases q)
    case (RpcPublish p)
    with assms(2) have "PublishPrompt L S ctx p w = (fst (PublishPrompt L S ctx p w), w')"
      by (auto intro: wrap_eqD)
    from publish_store [OF pure this] show ?thesis
      using RpcPublish by (auto simp: keep(1))
  next
    case (RpcMerge p)
    with assms(2) have "MergeBranch L S ctx p w = (fst (MergeBranch L S ctx p w), w')"
      by (auto intro: wrap_eqD)
    from merge_store [OF pure this] show ?thesis
      using RpcMerge by (auto simp: keep(2))
  next
    case (RpcSetBranch p)
    with assms(2) have "SetBranch L S ctx p w = (fst (SetBranch L S ctx p w), w')"
      by (auto intro: wrap_eqD)
    from set_branch_store [OF pure this] show ?thesis
      using RpcSetBranch by (auto simp: keep(3))
  next
    case (RpcCreateBranch p)
    with assms(2) have "CreateBranch L S ctx p w = (fst (CreateBranch L S ctx p w), w')"
      by (auto intro: wrap_eqD)
    from create_branch_store [OF this] show ?thesis
      using RpcCreateBranch by (auto simp: keep(4))
  qed (use True in simp_all)
qed

section \<open>Witnesses\<close>

text \<open>
  The in-process cache behind a switch: while the switch is off, a read misses and an
  invalidation fails, as with a shared cache that cannot be reached.
\<close>

definition flaky_cache :: "(bool \<times> ttl_cache) cache" where
  "flaky_cache =
     \<lparr>c_get = (\<lambda>u (up, c). if up then (fst (ttl_get u c), up, c) else (None, up, c)),
      c_put = (\<lambda>u r (up, c). if up then (up, ttl_put u r c) else (up, c)),
      c_invalidate = (\<lambda>u (up, c). if up then (None, up, snd (ttl_invalidate u c))
                                  else (Some (Gerr [] ''unreachable''), up, c))\<rparr>"

abbreviation flaky_server ::
  "(sample_store, bool \<times> ttl_cache, (string \<times> string \<times> string) list, unit) server" where
  "flaky_server \<equiv> sample_server (Some flaky_cache)"

abbreviation acme_writer :: ctx where
  "acme_writer \<equiv> caller ''acme'' True"

lemma acme_may_write [simp]: "may_write sample_lib acme_writer acme_uri"
  by (simp add: may_write_def)

lemma flaky_inv [simp]: "inv_ok (Some flaky_cache) u (up, c) = up"
  by (simp add: inv_ok_def flaky_cache_def)

text \<open>The sample store after \<open>v1\<close>, then \<open>v2\<close>, were published to main.\<close>

definition store_v1 :: sample_store where
  "store_v1 = snd (sample_commit acme_uri ''main'' ''v1'' [] ''acme'' ''m'' sample_empty)"

definition store_v2 :: sample_store where
  "store_v2 = snd (sample_commit acme_uri ''main'' ''v2'' [] ''acme'' ''m'' store_v1)"

definition event_world :: "sample_store \<Rightarrow> 'ca \<Rightarrow> (sample_store, 'ca, (string \<times> string \<times> string) list) world" where
  "event_world s c = \<lparr>w_store = s, w_cache = c, w_notif = [], w_log = []\<rparr>"

lemma event_world_simps [simp]:
  "w_store (event_world s c) = s" "w_cache (event_world s c) = c" "w_notif (event_world s c) = []"
  by (simp_all add: event_world_def)

lemma sample_pure: "reads_pure sample_ops"
  using store_contractD(1) [OF sample_store_contract] .

lemma publish_of_simps [simp]:
  "pq_uri (publish_of t b) = acme_uri" "pq_template (publish_of t b) = t"
  "pq_slots (publish_of t b) = []" "pq_message (publish_of t b) = ''m''" "pq_branch (publish_of t b) = b"
  by (simp_all add: publish_of_def)

text \<open>The second version goes out as an event with its verdict although the cache is unreachable.\<close>

theorem publish_on_main_witness:
  "\<exists>r w'. PublishPrompt sample_lib flaky_server acme_writer (publish_of ''v2'' '''')
      (event_world store_v1 (False, sample_cache)) = (r, w')
    \<and> w_notif w' = [(acme_uri, sample_hash ''v2'' [], ''structural'')]
    \<and> w_store w' = store_v2 \<and> (\<exists>e. r = Inl e \<and> st_code e = Unavailable)"
proof -
  obtain r w' where run: "PublishPrompt sample_lib flaky_server acme_writer (publish_of ''v2'' '''')
      (event_world store_v1 (False, sample_cache)) = (r, w')" by fastforce
  have sv: "served sample_ops store_v1 acme_uri
      = (\<lparr>p_uri = acme_uri, p_template = ''v1'', p_slots = [], p_version_hash = sample_hash ''v1'' []\<rparr>, None)"
    by (simp add: served_sample store_v1_def sample_commit_def Let_def prompt_of_def)
  have "sample_hash ''v1'' [] \<noteq> sample_hash ''v2'' []" by (simp add: sample_hash_def)
  moreover have "publish_class sample_lib flaky_server
      (\<lparr>p_uri = acme_uri, p_template = ''v1'', p_slots = [], p_version_hash = sample_hash ''v1'' []\<rparr>, None)
      ''v2'' = ''structural''"
    by (simp add: publish_class_def classify_def splitLines_def has_suffix_def sample_result_def)
  moreover have "ScopeOf acme_writer = ''acme''" by (simp add: ScopeOf_def caller_def Let_def)
  moreover have "sample_commit acme_uri ''main'' ''v2'' [] ''acme'' ''m'' store_v1 = (Inr ''ccc'', store_v2)"
    by (simp add: store_v2_def sample_commit_def Let_def fresh_hash_def store_v1_def sample_eval)
  ultimately show ?thesis
    using publish_on_main [OF _ _ _ _ _ run, of rec_notifier] run sv sample_pure
    by (auto simp: Let_def branchOr_def cleared_or_def)
qed

lemma scope_acme_writer [simp]: "ScopeOf acme_writer = ''acme''"
  by (simp add: ScopeOf_def caller_def Let_def)

lemma commit_v1: "sample_commit acme_uri ''main'' ''v1'' [] ''acme'' ''m'' sample_empty = (Inr ''c'', store_v1)"
  by (simp add: store_v1_def sample_commit_def Let_def fresh_hash_def sample_empty_def)

lemma commit_v2: "sample_commit acme_uri ''main'' ''v2'' [] ''acme'' ''m'' store_v1 = (Inr ''ccc'', store_v2)"
  by (simp add: store_v2_def sample_commit_def Let_def fresh_hash_def store_v1_def sample_eval)

theorem publish_retry_heals_witness:
  "\<exists>r w' r2 w2. PublishPrompt sample_lib flaky_server acme_writer (publish_of ''v1'' '''')
      (event_world sample_empty (False, sample_cache)) = (r, w')
    \<and> PublishPrompt sample_lib flaky_server acme_writer (publish_of ''v1'' '''')
        (w'\<lparr>w_cache := (True, sample_cache)\<rparr>) = (r2, w2)
    \<and> r2 = Inr (sample_hash ''v1'' []) \<and> w_notif w2 = w_notif w'"
proof -
  obtain r w' where run: "PublishPrompt sample_lib flaky_server acme_writer (publish_of ''v1'' '''')
      (event_world sample_empty (False, sample_cache)) = (r, w')" by fastforce
  obtain r2 w2 where again: "PublishPrompt sample_lib flaky_server acme_writer (publish_of ''v1'' '''')
      (w'\<lparr>w_cache := (True, sample_cache)\<rparr>) = (r2, w2)" by fastforce
  show ?thesis
    using publish_retry_heals [OF _ _ _ _ _ _ run _ again, of rec_notifier "''c''" store_v1] run again
      sample_store_contract commit_v1
    by (simp add: branchOr_def)
qed

text \<open>A merge of a branch with other content into main.\<close>

definition store_dev :: sample_store where
  "store_dev = snd (sample_commit acme_uri ''dev'' ''v2'' [] ''acme'' ''m''
                      (snd (sample_branch acme_uri ''dev'' ''main'' store_v1)))"

definition merge_dev :: merge_req where
  "merge_dev = \<lparr>mq_uri = acme_uri, mq_into = '''', mq_from = ''dev'', mq_message = ''m''\<rparr>"

lemma served_store_dev: "served sample_ops store_dev acme_uri
   = (\<lparr>p_uri = acme_uri, p_template = ''v1'', p_slots = [], p_version_hash = sample_hash ''v1'' []\<rparr>, None)"
  by (simp add: served_sample store_dev_def store_v1_def sample_commit_def sample_branch_def Let_def prompt_of_def
      split: option.splits)

lemma merge_dev_store: "\<exists>h c s'. sample_merge acme_uri ''main'' ''dev'' ''acme'' ''m'' store_dev = (Inr h, s')
    \<and> find_commit h s' = Some c \<and> c_template c = ''v2'' \<and> c_version_hash c = sample_hash ''v2'' []"
  by (simp add: store_dev_def store_v1_def sample_eval Let_def)

lemma classify_v1_v2: "fst (classify sample_lib flaky_server ''v1'' ''v2'') = ''structural''"
  by (simp add: classify_def splitLines_def has_suffix_def sample_result_def)

theorem merge_into_main_witness:
  "\<exists>r w'. MergeBranch sample_lib flaky_server acme_writer merge_dev
      (event_world store_dev (True, sample_cache)) = (r, w')
    \<and> (\<exists>h. r = Inr h) \<and> w_notif w' = [(acme_uri, sample_hash ''v2'' [], ''structural'')]"
proof -
  obtain r w' where run: "MergeBranch sample_lib flaky_server acme_writer merge_dev
      (event_world store_dev (True, sample_cache)) = (r, w')" by fastforce
  obtain h c s' where mg: "sample_merge acme_uri ''main'' ''dev'' ''acme'' ''m'' store_dev = (Inr h, s')"
    and c: "find_commit h s' = Some c" "c_template c = ''v2''" "c_version_hash c = sample_hash ''v2'' []"
    using merge_dev_store by blast
  have "sample_hash ''v1'' [] \<noteq> sample_hash ''v2'' []" by (simp add: sample_hash_def)
  then show ?thesis
    using merge_into_main [OF _ _ _ _ run, of rec_notifier] run sample_pure mg c served_store_dev classify_v1_v2
    by (auto simp: merge_dev_def Let_def branchOr_def cleared_or_def or_missing_def)
qed

text \<open>A rollback from \<open>v2\<close> to \<open>v1\<close>, with and without a cache that can be reached.\<close>

definition rollback_req :: set_branch_req where
  "rollback_req = \<lparr>sq_uri = acme_uri, sq_branch = '''', sq_commit_hash = ''c''\<rparr>"

lemma rollback_store: "\<exists>c s'. sample_set_branch acme_uri ''main'' ''c'' store_v2 = (Inr c, s')
    \<and> c_template c = ''v1'' \<and> c_version_hash c = sample_hash ''v1'' []
    \<and> (\<exists>s2. sample_set_branch acme_uri ''main'' ''c'' s' = (Inr c, s2))"
  by (simp add: store_v2_def store_v1_def sample_eval Let_def)

lemma served_store_v2: "served sample_ops store_v2 acme_uri
   = (\<lparr>p_uri = acme_uri, p_template = ''v2'', p_slots = [], p_version_hash = sample_hash ''v2'' []\<rparr>, None)"
  by (simp add: served_sample store_v2_def sample_commit_def Let_def prompt_of_def)

lemma classify_back: "fst (classify sample_lib flaky_server ''v2'' ''v1'') = ''structural''"
    "fst (classify sample_lib flaky_server ''v1'' ''v1'') = ''''"
  by (simp_all add: classify_def splitLines_def has_suffix_def sample_result_def)

theorem set_main_branch_witness:
  "\<exists>r w'. SetBranch sample_lib flaky_server acme_writer rollback_req
      (event_world store_v2 (True, sample_cache)) = (r, w')
    \<and> r = Inr (sample_hash ''v1'' []) \<and> w_notif w' = [(acme_uri, sample_hash ''v1'' [], ''structural'')]"
proof -
  obtain r w' where run: "SetBranch sample_lib flaky_server acme_writer rollback_req
      (event_world store_v2 (True, sample_cache)) = (r, w')" by fastforce
  obtain c s' where mv: "sample_set_branch acme_uri ''main'' ''c'' store_v2 = (Inr c, s')"
    and c: "c_template c = ''v1''" "c_version_hash c = sample_hash ''v1'' []"
    using rollback_store by blast
  show ?thesis
    using set_main_branch [OF _ _ _ _ _ run, of rec_notifier] run sample_pure mv c served_store_v2 classify_back
    by (auto simp: rollback_req_def Let_def branchOr_def cleared_or_def old_template_def)
qed

theorem rollback_retry_compares_with_itself_witness:
  "\<exists>r1 w1 r2 w2. SetBranch sample_lib flaky_server acme_writer rollback_req
      (event_world store_v2 (False, sample_cache)) = (r1, w1)
    \<and> SetBranch sample_lib flaky_server acme_writer rollback_req (w1\<lparr>w_cache := (True, sample_cache)\<rparr>)
        = (r2, w2)
    \<and> status_code r1 = Unavailable \<and> w_notif w1 = []
    \<and> w_notif w2 = [(acme_uri, sample_hash ''v1'' [], '''')]"
proof -
  obtain r1 w1 where run: "SetBranch sample_lib flaky_server acme_writer rollback_req
      (event_world store_v2 (False, sample_cache)) = (r1, w1)" by fastforce
  obtain r2 w2 where again: "SetBranch sample_lib flaky_server acme_writer rollback_req
      (w1\<lparr>w_cache := (True, sample_cache)\<rparr>) = (r2, w2)" by fastforce
  obtain c s' s2 where mv: "sample_set_branch acme_uri ''main'' ''c'' store_v2 = (Inr c, s')"
      "sample_set_branch acme_uri ''main'' ''c'' s' = (Inr c, s2)"
    and c: "c_template c = ''v1''" "c_version_hash c = sample_hash ''v1'' []"
    using rollback_store by blast
  show ?thesis
    using rollback_retry_compares_with_itself [OF _ _ _ _ _ _ _ run _ _ again, of rec_notifier c s' c s2]
      run again sample_store_contract mv c classify_back
    by (auto simp: rollback_req_def branchOr_def)
qed

theorem only_main_writes_reach_readers_witness:
  "\<exists>r w'. handle sample_lib flaky_server acme_writer (RpcPublish (publish_of ''v2'' ''dev''))
      (event_world store_v1 (True, sample_cache)) = (r, w')
    \<and> w_notif w' = [] \<and> served sample_ops (w_store w') acme_uri
         = (\<lparr>p_uri = acme_uri, p_template = ''v1'', p_slots = [], p_version_hash = sample_hash ''v1'' []\<rparr>, None)"
proof -
  obtain r w' where run: "handle sample_lib flaky_server acme_writer (RpcPublish (publish_of ''v2'' ''dev''))
      (event_world store_v1 (True, sample_cache)) = (r, w')" by fastforce
  have "served sample_ops store_v1 acme_uri
      = (\<lparr>p_uri = acme_uri, p_template = ''v1'', p_slots = [], p_version_hash = sample_hash ''v1'' []\<rparr>, None)"
    by (simp add: served_sample store_v1_def sample_commit_def Let_def prompt_of_def)
  then show ?thesis
    using only_main_writes_reach_readers [OF _ run] run sample_store_contract by (simp add: branchOr_def)
qed

end
