(* ===== verification/Server_Coherence.thy ===== *)
theory Server_Coherence
  imports Server_Events
begin

text \<open>
  The cache against the server without one. Read your writes, for any cache that meets the
  contract; and, for a cache whose invalidation cannot fail, a refinement: every run of the server,
  entries expiring at any moment, answers and announces exactly what the server without a cache
  answers and announces.
\<close>

section \<open>Coherence\<close>

definition resp_of :: "prompt \<Rightarrow> get_resp" where
  "resp_of p = \<lparr>g_uri = p_uri p, g_template = p_template p, g_slots = p_slots p,
                g_version_hash = p_version_hash p, g_commit_hash = ''''\<rparr>"

text \<open>What a cached entry must be: the answer the store would give now.\<close>

definition current :: "'em lib \<Rightarrow> 'st store \<Rightarrow> 'st \<Rightarrow> string \<Rightarrow> get_resp \<Rightarrow> bool" where
  "current L st s u r \<longleftrightarrow> (\<exists>p. served st s u = (p, None) \<and> r = resp_of p
     \<and> validate_prompt L (p_uri p) (p_template p) (p_slots p) = None)"

definition coherent ::
  "'em lib \<Rightarrow> 'st store \<Rightarrow> ('ca \<Rightarrow> string \<Rightarrow> get_resp option) \<Rightarrow> ('st, 'ca, 'nt) world \<Rightarrow> bool" where
  "coherent L st view w \<longleftrightarrow> (\<forall>u r. view (w_cache w) u = Some r \<longrightarrow> current L st (w_store w) u r)"

lemma get_head_current:
  assumes "reads_pure (sv_store S)" and "current L (sv_store S) (w_store w) u r"
  shows "get_head L S u w = (Inr r, w)"
  using assms
  by (auto simp: current_def get_head_def reads_pure_simps reads_pure_get resp_of_def)

lemma current_get_head:
  assumes "reads_pure (sv_store S)" and "get_head L S u w = (Inr r, w')"
  shows "current L (sv_store S) (w_store w) u r" and "w_store w' = w_store w"
  using assms
  by (auto simp: current_def get_head_def reads_pure_simps reads_pure_get resp_of_def fail_with_def
      split: prod.splits option.splits if_splits)

text \<open>A call either leaves what is served and the cache alone, or clears the one address it wrote.\<close>

definition quiet ::
  "'em lib \<Rightarrow> ('st, 'ca, 'nt, 'em) server \<Rightarrow> string option
   \<Rightarrow> ('st, 'ca, 'nt) world \<Rightarrow> ('st, 'ca, 'nt) world \<Rightarrow> bool" where
  "quiet L S tgt w w' \<longleftrightarrow>
     (w_cache w' = w_cache w \<and> (\<forall>v p. served (sv_store S) (w_store w) v = (p, None)
         \<longrightarrow> served (sv_store S) (w_store w') v = (p, None)))
   \<or> (\<exists>u. tgt = Some u \<and> w_cache w' = cache_inv (sv_cache S) u (w_cache w)
         \<and> (\<forall>v. v \<noteq> u \<longrightarrow> served (sv_store S) (w_store w') v = served (sv_store S) (w_store w) v))"

lemma publish_commit_quiet:
  assumes "store_contract L (sv_store S)" and "publish_commit L S ctx q h b c w = (r, w')"
  shows "quiet L S (if b = default_branch L then Some (pq_uri q) else None) w w'"
proof -
  obtain x s' where cm: "st_commit (sv_store S) (pq_uri q) b (pq_template q) (pq_slots q)
      (ScopeOf ctx) (pq_message q) (w_store w) = (x, s')" by fastforce
  note keep = commit_contractD(1) [OF store_contractD(2) [OF assms(1)] cm]
  show ?thesis
  proof (cases "b = default_branch L \<and> \<not> isl x")
    case True
    with assms(2) cm keep show ?thesis
      by (auto simp: quiet_def publish_commit_def on_store_def Let_def dest!: invalidate_eq
          split: prod.splits sum.splits option.splits)
  next
    case False
    with assms(2) cm keep show ?thesis
      by (auto simp: quiet_def publish_commit_def on_store_def fail_with_def
          split: prod.splits sum.splits)
  qed
qed

lemma publish_precheck_quiet:
  assumes "reads_pure (sv_store S)" and "publish_precheck L S q h b w = (x, w')"
  shows "quiet L S (if b = default_branch L then Some (pq_uri q) else None) w w'"
    and "x = Commit_as c \<Longrightarrow> w_cache w' = w_cache w \<and> w_store w' = w_store w"
  using assms
  by (auto simp: quiet_def publish_precheck_def reads_pure_simps dest!: invalidate_eq
      split: prod.splits sum.splits option.splits if_splits)

text \<open>The three ways a publish can go.\<close>

lemma PublishPrompt_cases [consumes 1, case_names refused finished committed]:
  assumes "PublishPrompt L S ctx q w = (r, w')"
  obtains e where "r = Inl e" and "w' = w"
  | "publish_precheck L S q (store_hash L (pq_template q) (pq_slots q)) (branchOr L (pq_branch q)) w
       = (Finish r, w')"
  | c w1 where "publish_precheck L S q (store_hash L (pq_template q) (pq_slots q))
         (branchOr L (pq_branch q)) w = (Commit_as c, w1)"
      and "publish_commit L S ctx q (store_hash L (pq_template q) (pq_slots q))
         (branchOr L (pq_branch q)) c w1 = (r, w')"
  using assms
  by (auto simp: PublishPrompt_def Let_def split: prod.splits option.splits publish_step.splits)

lemma quiet_refl: "quiet L S t w w"
  by (simp add: quiet_def)

lemma quiet_from: "w_cache w1 = w_cache w \<Longrightarrow> w_store w1 = w_store w \<Longrightarrow> quiet L S t w1 w' \<Longrightarrow> quiet L S t w w'"
  by (simp add: quiet_def)

lemma publish_quiet:
  assumes "store_contract L (sv_store S)" and "PublishPrompt L S ctx q w = (r, w')"
  shows "quiet L S (writes_main L (RpcPublish q)) w w'"
  using assms(2)
proof (cases rule: PublishPrompt_cases)
  case refused
  then show ?thesis by (simp add: quiet_refl)
next
  case finished
  show ?thesis
    using publish_precheck_quiet(1) [OF store_contractD(1) [OF assms(1)] finished] by simp
next
  case (committed c w1)
  note pre = publish_precheck_quiet(2) [OF store_contractD(1) [OF assms(1)] committed(1) refl]
  show ?thesis
    using publish_commit_quiet [OF assms(1) committed(2)] pre quiet_from by (simp split: if_splits)
qed

lemma merge_quiet:
  assumes "store_contract L (sv_store S)" and "MergeBranch L S ctx q w = (r, w')"
  shows "quiet L S (writes_main L (RpcMerge q)) w w'"
proof -
  obtain x s' where mg: "st_merge (sv_store S) (mq_uri q) (branchOr L (mq_into q)) (mq_from q)
      (ScopeOf ctx) (mq_message q) (w_store w) = (x, s')" by fastforce
  note pure = store_contractD(1) [OF assms(1)]
  note keep = merge_contractD(1) [OF store_contractD(3) [OF assms(1)] mg]
  have nstore: "w_store (merge_notify L S u p h v) = w_store v" for u p h v
    using pure by (auto simp: merge_notify_def reads_pure_simps split: prod.splits sum.splits)
  show ?thesis
  proof (cases "branchOr L (mq_into q) = default_branch L \<and> \<not> isl x")
    case True
    with assms(2) mg keep pure nstore show ?thesis
      by (auto simp: quiet_def MergeBranch_def on_store_def [of "st_merge _ _ _ _ _ _"] reads_pure_simps
          Let_def dest!: invalidate_eq split: prod.splits sum.splits option.splits)
  next
    case False
    with assms(2) mg keep pure show ?thesis
      by (auto simp: quiet_def MergeBranch_def on_store_def [of "st_merge _ _ _ _ _ _"] reads_pure_simps
          Let_def fail_with_def split: prod.splits sum.splits option.splits if_splits)
  qed
qed

lemma set_branch_quiet:
  assumes "store_contract L (sv_store S)" and "SetBranch L S ctx q w = (r, w')"
  shows "quiet L S (writes_main L (RpcSetBranch q)) w w'"
proof -
  obtain x s' where mv: "st_set_branch (sv_store S) (sq_uri q) (branchOr L (sq_branch q))
      (sq_commit_hash q) (w_store w) = (x, s')" by fastforce
  note pure = store_contractD(1) [OF assms(1)]
  note keep = set_branch_contractD(1) [OF store_contractD(4) [OF assms(1)] mv]
  show ?thesis
  proof (cases "branchOr L (sq_branch q) = default_branch L \<and> \<not> isl x")
    case True
    with assms(2) mv keep pure show ?thesis
      by (auto simp: quiet_def SetBranch_def on_store_def [of "st_set_branch _ _ _ _"] reads_pure_simps
          Let_def dest!: invalidate_eq split: prod.splits sum.splits option.splits if_splits)
  next
    case False
    with assms(2) mv keep pure show ?thesis
      by (auto simp: quiet_def SetBranch_def on_store_def [of "st_set_branch _ _ _ _"] reads_pure_simps
          Let_def fail_with_def split: prod.splits sum.splits option.splits if_splits)
  qed
qed

lemma create_branch_quiet:
  assumes "store_contract L (sv_store S)"
  shows "quiet L S t w (snd (CreateBranch L S ctx q w))"
  using create_branch_store [OF surjective_pairing, of L S ctx q w] create_branch_cache [of L S ctx q w]
    write_elsewhere(4) [OF assms] by (auto simp: quiet_def)

text \<open>Every call but a read of one prompt.\<close>

lemma handle_quiet:
  assumes "store_contract L (sv_store S)" and "handle L S ctx q w = (r, w')" and "\<And>g. q \<noteq> RpcGet g"
  shows "quiet L S (writes_main L q) w w'"
proof (cases "mutating q")
  case False
  have "w_cache (snd (handle L S ctx q w)) = w_cache w"
    using False assms(3) by (cases q) (auto simp: read_frames)
  with False show ?thesis
    using reading_frame(1) [OF store_contractD(1) [OF assms(1)] False, of L ctx w] assms(2)
    by (simp add: quiet_def)
next
  case True
  have w': "w' = snd (handle L S ctx q w)" using assms(2) by simp
  show ?thesis
    using True publish_quiet [OF assms(1) surjective_pairing] merge_quiet [OF assms(1) surjective_pairing]
      set_branch_quiet [OF assms(1) surjective_pairing] create_branch_quiet [OF assms(1)]
    unfolding w' by (cases q) (simp_all del: writes_main.simps)
qed

section \<open>Erasing the cache\<close>

text \<open>The same server built without a cache, and its world.\<close>

definition uncached :: "('st, 'ca, 'nt, 'em) server \<Rightarrow> ('st, unit, 'nt, 'em) server" where
  "uncached S = NewServer (sv_store S) None (sv_embedder S) (sv_notifier S)"

definition erase :: "('st, 'ca, 'nt) world \<Rightarrow> ('st, unit, 'nt) world" where
  "erase w = \<lparr>w_store = w_store w, w_cache = (), w_notif = w_notif w, w_log = w_log w\<rparr>"

abbreviation era :: "'r \<times> ('st, 'ca, 'nt) world \<Rightarrow> 'r \<times> ('st, unit, 'nt) world" where
  "era \<equiv> map_prod id erase"

lemma uncached_simps [simp]:
  "sv_store (uncached S) = sv_store S" "sv_cache (uncached S) = None"
  "sv_embedder (uncached S) = sv_embedder S" "sv_notifier (uncached S) = sv_notifier S"
  by (simp_all add: uncached_def NewServer_def)

lemma erase_simps [simp]:
  "w_store (erase w) = w_store w" "w_notif (erase w) = w_notif w" "w_log (erase w) = w_log w"
  "erase (w\<lparr>w_cache := ca\<rparr>) = erase w"
  by (simp_all add: erase_def)

lemma era_helpers:
  "on_store f (erase w) = era (on_store f w)"
  "log_w ls (erase w) = erase (log_w ls w)"
  "fail_with sl (erase w) = era (fail_with sl w)"
  "notify (uncached S) u h c (erase w) = erase (notify S u h c w)"
  "classify L (uncached S) a b = classify L S a b"
  "server_diff L (uncached S) a b (erase w) = era (server_diff L S a b w)"
  by (auto simp: on_store_def log_w_def fail_with_def notify_def classify_def server_diff_def erase_def
      split: prod.splits option.splits sum.splits)

lemma era_case:
  "(case era x of (r, w) \<Rightarrow> f r w) = (case x of (r, w) \<Rightarrow> f r (erase w))"
  by (simp add: case_prod_beta)

lemma era_merge_notify: "merge_notify L (uncached S) u p h (erase w) = erase (merge_notify L S u p h w)"
  by (auto simp: merge_notify_def era_helpers era_case split: prod.splits sum.splits)

lemma era_reads:
  "ListPrompts L (uncached S) ctx p (erase w) = era (ListPrompts L S ctx p w)"
  "DiffPrompt L (uncached S) ctx d (erase w) = era (DiffPrompt L S ctx d w)"
  "History L (uncached S) ctx h (erase w) = era (History L S ctx h w)"
  "ListCommits L (uncached S) ctx u (erase w) = era (ListCommits L S ctx u w)"
  "ListBranches L (uncached S) ctx u (erase w) = era (ListBranches L S ctx u w)"
  "CreateBranch L (uncached S) ctx b (erase w) = era (CreateBranch L S ctx b w)"
  "getByRef L (uncached S) u rf (erase w) = era (getByRef L S u rf w)"
  "get_head L (uncached S) u (erase w) = era (get_head L S u w)"
  "commitOf (uncached S) u hash (erase w) = era (commitOf S u hash w)"
  by (auto simp: ListPrompts_def DiffPrompt_def History_def ListCommits_def ListBranches_def
      CreateBranch_def getByRef_def get_head_def commitOf_def Let_def era_helpers era_case
      simp del: RequireWrite_None Authorize_None split: prod.splits sum.splits option.splits)

lemma era_diff_commits:
  "DiffCommits L (uncached S) ctx d (erase w) = era (DiffCommits L S ctx d w)"
  by (auto simp: DiffCommits_def era_reads era_helpers era_case simp del: Authorize_None split: prod.splits sum.splits option.splits)

context reliable_cache
begin

lemma era_invalidate: "invalidate None u (erase w) = era (invalidate (Some K) u w)"
  using invalidate_succeeds [of u "w_cache w"]
  by (auto simp: invalidate_def erase_def split: prod.splits)

lemma era_publish:
  assumes "sv_cache S = Some K"
  shows "PublishPrompt L (uncached S) ctx q (erase w) = era (PublishPrompt L S ctx q w)"
proof -
  have pre: "publish_precheck L (uncached S) q h b (erase w) = era (publish_precheck L S q h b w)" for h b
    unfolding publish_precheck_def uncached_simps assms era_helpers era_invalidate era_case
    by (auto split: prod.splits sum.splits option.splits)
  have com: "publish_commit L (uncached S) ctx q h b c (erase w) = era (publish_commit L S ctx q h b c w)"
    for h b c and w :: "('b, 'a, 'c) world"
    unfolding publish_commit_def uncached_simps assms era_helpers era_invalidate era_case Let_def
    by (auto simp: era_helpers era_invalidate split: prod.splits sum.splits option.splits)
  show ?thesis
    unfolding PublishPrompt_def pre Let_def era_case com
    by (auto simp del: RequireWrite_None Authorize_None split: prod.splits option.splits publish_step.splits)
qed

end

context reliable_cache
begin

lemma invalidate_reliable:
  "invalidate (Some K) u w = (None, w\<lparr>w_cache := snd (c_invalidate K u (w_cache w))\<rparr>)"
  using invalidate_succeeds [of u "w_cache w"]
  by (cases "c_invalidate K u (w_cache w)") (simp add: invalidate_def)

lemmas era_push = era_merge_notify [symmetric] era_helpers(2) [symmetric] era_helpers(4) [symmetric]

lemma era_merge:
  assumes "sv_cache S = Some K"
  shows "MergeBranch L (uncached S) ctx q (erase w) = era (MergeBranch L S ctx q w)"
  unfolding MergeBranch_def uncached_simps assms era_helpers era_case Let_def invalidate_reliable
  by (auto simp: era_helpers(1,3) era_case era_push
      simp del: RequireWrite_None Authorize_None split: prod.splits sum.splits option.splits)

lemma era_set_branch:
  assumes "sv_cache S = Some K"
  shows "SetBranch L (uncached S) ctx q (erase w) = era (SetBranch L S ctx q w)"
proof -
  have cut: "(case on_store (st_get (sv_store S) u) (erase w) of
        ((p, None), w1) \<Rightarrow> (p_template p, w1) | ((p, Some e), w1) \<Rightarrow> ('''', w1))
     = era (case on_store (st_get (sv_store S) u) w of
        ((p, None), w1) \<Rightarrow> (p_template p, w1) | ((p, Some e), w1) \<Rightarrow> ('''', w1))" for u
    by (auto simp: era_helpers(1) era_case split: prod.splits option.splits)
  have cut2: "(if b then era x else (y, erase w)) = era (if b then x else (y, w))" for b x and y :: string
    by simp
  show ?thesis
    unfolding SetBranch_def uncached_simps assms cut cut2
    unfolding era_helpers era_case Let_def invalidate_reliable
    by (cases "Authorize L ctx (sq_uri q)"; cases "RequireWrite ctx")
       (auto simp: era_helpers(3) era_push case_prod_beta
      simp del: RequireWrite_None Authorize_None split: sum.splits)
qed

text \<open>A read agrees with the cacheless server as long as the cache is coherent.\<close>

lemma era_get:
  assumes "sv_cache S = Some K" and "reads_pure (sv_store S)" and "coherent L (sv_store S) view w"
  shows "GetPrompt L (uncached S) ctx q (erase w) = era (GetPrompt L S ctx q w)"
proof (cases "Authorize L ctx (gq_uri q) = None \<and> gq_ref q = ''''")
  case False
  then show ?thesis by (auto simp: GetPrompt_def Let_def era_reads simp del: Authorize_None split: option.splits)
next
  case True
  then have none: "GetPrompt L (uncached S) ctx q (erase w) = era (get_head L S (gq_uri q) w)"
    by (simp add: GetPrompt_def Let_def era_reads del: Authorize_None)
  obtain y ca where c: "c_get K (gq_uri q) (w_cache w) = (y, ca)" by fastforce
  show ?thesis
  proof (cases y)
    case (Some x)
    then have "current L (sv_store S) (w_store w) (gq_uri q) x"
      using get_sound [of "gq_uri q" "w_cache w" x] c assms(3) by (auto simp: coherent_def)
    then show ?thesis
      using True Some c assms(1) get_head_current [OF assms(2)] none
      by (simp add: GetPrompt_def Let_def del: Authorize_None)
  next
    case None
    have "era (get_head L S (gq_uri q) (w\<lparr>w_cache := ca\<rparr>)) = era (get_head L S (gq_uri q) w)"
      by (metis era_reads(8) erase_simps(4))
    then show ?thesis
      using True None c assms(1) unfolding none
      by (auto simp: GetPrompt_def Let_def simp del: Authorize_None split: prod.splits sum.splits)
  qed
qed

lemma era_handle:
  assumes "sv_cache S = Some K" and "reads_pure (sv_store S)" and "coherent L (sv_store S) view w"
  shows "handle L (uncached S) ctx q (erase w) = era (handle L S ctx q w)"
proof -
  have wrap_era: "wrap f (era x) = era (wrap f x)" for f :: "'x \<Rightarrow> rpc_resp" and x :: "(status + 'x) \<times> ('b, 'a, 'c) world"
    by (cases x) (simp add: wrap_def)
  show ?thesis
    by (cases q) (simp_all add: era_reads era_diff_commits era_publish [OF assms(1)] era_merge [OF assms(1)]
        era_set_branch [OF assms(1)] era_get [OF assms] wrap_era)
qed

text \<open>Coherence is kept by every call.\<close>

lemma quiet_coherent:
  assumes "sv_cache S = Some K" and "quiet L S t w w'" and "coherent L (sv_store S) view w"
  shows "coherent L (sv_store S) view w'"
proof -
  have "current L (sv_store S) (w_store w') u r" if "view (w_cache w') u = Some r" for u r
  proof -
    consider (same) "w_cache w' = w_cache w" "\<forall>v p. served (sv_store S) (w_store w) v = (p, None)
         \<longrightarrow> served (sv_store S) (w_store w') v = (p, None)"
      | (cleared) x where "w_cache w' = cache_inv (Some K) x (w_cache w)"
         "\<forall>v. v \<noteq> x \<longrightarrow> served (sv_store S) (w_store w') v = served (sv_store S) (w_store w) v"
      using assms(1,2) by (auto simp: quiet_def)
    then show ?thesis
    proof cases
      case same
      with that assms(3) show ?thesis by (fastforce simp: coherent_def current_def)
    next
      case (cleared x)
      have "view (cache_inv (Some K) x (w_cache w)) x = None"
        by (rule view_after_success) (simp add: inv_ok_def invalidate_succeeds)
      with that cleared have "u \<noteq> x" by auto
      moreover have "view (w_cache w) u = Some r"
        using that unfolding cleared(1) by (rule view_cache_inv)
      ultimately show ?thesis
        using cleared(2) assms(3) by (auto simp: coherent_def current_def)
    qed
  qed
  then show ?thesis by (simp add: coherent_def)
qed

lemma get_coherent:
  assumes "sv_cache S = Some K" and "reads_pure (sv_store S)" and "coherent L (sv_store S) view w"
    and "GetPrompt L S ctx q w = (r, w')"
  shows "coherent L (sv_store S) view w'"
proof -
  have st: "w_store w' = w_store w"
    using get_frame(2) [OF assms(2), of L ctx q w] assms(4) by simp
  have "current L (sv_store S) (w_store w') v x" if v: "view (w_cache w') v = Some x" for v x
    using assms(4,1)
  proof (cases rule: GetPrompt_cases)
    case (miss ca y w1)
    then have "(v = gq_uri q \<and> x = y) \<or> view ca v = Some x" using v put_adds by simp
    moreover have "current L (sv_store S) (w_store w) (gq_uri q) y"
      using current_get_head(1) [OF assms(2) miss(3)] by simp
    ultimately show ?thesis
      using st assms(3) get_keeps [of "gq_uri q" "w_cache w" v x] miss(2) by (auto simp: coherent_def)
  next
    case (hit y ca)
    then show ?thesis
      using st v assms(3) get_keeps [of "gq_uri q" "w_cache w" v x] by (auto simp: coherent_def)
  next
    case (error ca e)
    then show ?thesis
      using st v assms(3) get_keeps [of "gq_uri q" "w_cache w" v x]
      by (auto simp: coherent_def dest!: get_head_eq_frame)
  next
    case ref
    then show ?thesis using st v assms(3) by (auto simp: coherent_def dest!: getByRef_eq_frame)
  qed (use v assms(3) in \<open>auto simp: coherent_def\<close>)
  then show ?thesis by (simp add: coherent_def)
qed

lemma handle_coherent:
  assumes "sv_cache S = Some K" and "store_contract L (sv_store S)" and "coherent L (sv_store S) view w"
    and "handle L S ctx q w = (r, w')"
  shows "coherent L (sv_store S) view w'"
proof (cases "\<exists>g. q = RpcGet g")
  case True
  then obtain g where "q = RpcGet g" by blast
  with assms(4) have "GetPrompt L S ctx g w = (fst (GetPrompt L S ctx g w), w')"
    by (auto dest: wrap_eqD)
  then show ?thesis using get_coherent [OF assms(1) store_contractD(1) [OF assms(2)] assms(3)] by blast
next
  case False
  then show ?thesis using quiet_coherent [OF assms(1) handle_quiet [OF assms(2,4)] assms(3)] by blast
qed

end

section \<open>The cache is transparent\<close>

text \<open>
  A history of the server: calls with their answers, and, at any moment between two of them, the
  disappearance of entries (the passage of time, eviction).
\<close>

inductive server_history ::
  "'em lib \<Rightarrow> ('st, 'ca, 'nt, 'em) server \<Rightarrow> ('ca \<Rightarrow> string \<Rightarrow> get_resp option)
   \<Rightarrow> ('st, 'ca, 'nt) world \<Rightarrow> (ctx \<times> rpc \<times> (status + rpc_resp)) list \<Rightarrow> ('st, 'ca, 'nt) world \<Rightarrow> bool"
  for L S view where
  history_done: "server_history L S view w [] w"
| history_call: "handle L S ctx q w = (r, w1) \<Longrightarrow> server_history L S view w1 tr w' \<Longrightarrow>
    server_history L S view w ((ctx, q, r) # tr) w'"
| history_expiry: "(\<And>u r. view ca u = Some r \<Longrightarrow> view (w_cache w) u = Some r) \<Longrightarrow>
    server_history L S view (w\<lparr>w_cache := ca\<rparr>) tr w' \<Longrightarrow> server_history L S view w tr w'"

text \<open>The calls of a history served one after the other.\<close>

fun serve_all ::
  "'em lib \<Rightarrow> ('st, 'ca, 'nt, 'em) server \<Rightarrow> (ctx \<times> rpc) list
   \<Rightarrow> ('st, 'ca, 'nt) world \<Rightarrow> (status + rpc_resp) list \<times> ('st, 'ca, 'nt) world" where
  "serve_all L S [] w = ([], w)"
| "serve_all L S ((ctx, q) # qs) w =
     (case handle L S ctx q w of (r, w1) \<Rightarrow>
        (case serve_all L S qs w1 of (rs, w2) \<Rightarrow> (r # rs, w2)))"

abbreviation calls_of :: "(ctx \<times> rpc \<times> (status + rpc_resp)) list \<Rightarrow> (ctx \<times> rpc) list" where
  "calls_of tr \<equiv> map (\<lambda>(ctx, q, r). (ctx, q)) tr"

abbreviation answers_of :: "(ctx \<times> rpc \<times> (status + rpc_resp)) list \<Rightarrow> (status + rpc_resp) list" where
  "answers_of tr \<equiv> map (\<lambda>(ctx, q, r). r) tr"

context reliable_cache
begin

lemma history_uncached:
  assumes "server_history L S view w tr w'" and "sv_cache S = Some K"
    and "store_contract L (sv_store S)" and "coherent L (sv_store S) view w"
  shows "serve_all L (uncached S) (calls_of tr) (erase w) = (answers_of tr, erase w')"
  using assms
proof (induction rule: server_history.induct)
  case (history_call ctx q w r w1 tr w')
  have "coherent L (sv_store S) view w1"
    using handle_coherent [OF history_call.prems(1,2,3) history_call.hyps(1)] .
  then have "serve_all L (uncached S) (calls_of tr) (erase w1) = (answers_of tr, erase w')"
    using history_call.IH history_call.prems by blast
  moreover have "handle L (uncached S) ctx q (erase w) = (r, erase w1)"
    using era_handle [OF history_call.prems(1) store_contractD(1) [OF history_call.prems(2)]
        history_call.prems(3), of ctx q] history_call.hyps(1) by simp
  ultimately show ?case by simp
next
  case (history_expiry ca w tr w')
  then have "coherent L (sv_store S) view (w\<lparr>w_cache := ca\<rparr>)" by (simp add: coherent_def)
  with history_expiry show ?case by simp
qed simp

end

text \<open>
  C1. The cache changes nothing anyone can observe: over a store only this server writes, every
  history of a server whose cache starts empty and cannot fail to invalidate, whatever entries
  expire in between, is answer for answer, event for event, log line for log line and store state
  for store state the history of the same server without a cache.
\<close>

theorem cache_is_transparent:
  assumes "reliable_cache K view" and "sv_cache S = Some K" and "store_contract L (sv_store S)"
    and "\<And>u. view (w_cache w) u = None" and "server_history L S view w tr w'"
  shows "serve_all L (uncached S) (calls_of tr) (erase w) = (answers_of tr, erase w')"
  using reliable_cache.history_uncached [OF assms(1,5,2,3)] assms(4) by (simp add: coherent_def)

theorem cache_is_transparent_witness:
  "serve_all sample_lib (uncached (sample_server (Some mem_cache)))
     [(caller ''acme'' True, RpcPublish (publish_of ''v1'' '''')), (caller ''acme'' False, RpcGet read_v1)]
     (erase (sample_world sample_cache))
   = ([Inr (Hash_resp (sample_hash ''v1'' [])), Inr (Prompt_resp v1_resp)],
      erase (cached_world\<lparr>w_cache := ttl_tick 1000 (w_cache cached_world)\<rparr>))"
proof -
  let ?tr = "[(caller ''acme'' True, RpcPublish (publish_of ''v1'' ''''), Inr (Hash_resp (sample_hash ''v1'' []))),
     (caller ''acme'' False, RpcGet read_v1, Inr (Prompt_resp v1_resp))]"
  have history: "server_history sample_lib (sample_server (Some mem_cache)) ttl_view
      (sample_world sample_cache) ?tr (cached_world\<lparr>w_cache := ttl_tick 1000 (w_cache cached_world)\<rparr>)"
    by (rule history_call [OF publish_v1], rule history_call [where ?w1.0 = cached_world],
        simp add: get_v1, rule history_expiry [OF _ history_done], simp)
  show ?thesis
    using cache_is_transparent [OF mem.reliable_cache_axioms _ _ _ history] sample_store_contract
    by (simp add: ttl_view_def sample_cache_def)
qed

section \<open>Read your writes\<close>

lemma publish_success_served:
  assumes "store_contract L (sv_store S)" and "branchOr L (pq_branch q) = default_branch L"
    and "\<forall>p. served (sv_store S) (w_store w) (pq_uri q) = (p, None)
           \<and> p_version_hash p = store_hash L (pq_template q) (pq_slots q)
         \<longrightarrow> p_uri p = pq_uri q \<and> p_template p = pq_template q \<and> p_slots p = pq_slots q"
    and "PublishPrompt L S ctx q w = (Inr h, w')"
  shows "served (sv_store S) (w_store w') (pq_uri q)
      = (\<lparr>p_uri = pq_uri q, p_template = pq_template q, p_slots = pq_slots q, p_version_hash = h\<rparr>, None)"
    and "validate_prompt L (pq_uri q) (pq_template q) (pq_slots q) = None"
proof -
  note pure = store_contractD(1) [OF assms(1)]
  show valid: "validate_prompt L (pq_uri q) (pq_template q) (pq_slots q) = None"
    using assms(4) by (auto simp: PublishPrompt_def split: option.splits)
  show "served (sv_store S) (w_store w') (pq_uri q)
      = (\<lparr>p_uri = pq_uri q, p_template = pq_template q, p_slots = pq_slots q, p_version_hash = h\<rparr>, None)"
    using assms(4)
  proof (cases rule: PublishPrompt_cases)
    case finished
    then obtain p where "served (sv_store S) (w_store w) (pq_uri q) = (p, None)"
      and "p_version_hash p = h" and "h = store_hash L (pq_template q) (pq_slots q)"
      and "w_store w' = w_store w"
      using pure assms(2)
      by (auto simp: publish_precheck_def reads_pure_simps reads_pure_get dest!: invalidate_eq
          split: prod.splits option.splits if_splits)
    with assms(3) show ?thesis by (cases p) auto
  next
    case (committed c w1)
    have "w_store w1 = w_store w" using publish_precheck_quiet(2) [OF pure committed(1) refl] by simp
    then show ?thesis
      using committed(2) assms(2) commit_contractD(2) [OF store_contractD(2) [OF assms(1)] surjective_pairing]
      by (auto simp: publish_commit_def on_store_eq fail_with_def Let_def dest!: invalidate_eq
          split: prod.splits sum.splits option.splits if_splits)
  qed simp
qed

lemma publish_then_read:
  assumes "l2_cache K view" and "sv_cache S = Some K" and "store_contract L (sv_store S)"
    and "branchOr L (pq_branch q) = default_branch L"
    and "\<forall>p. served (sv_store S) (w_store w) (pq_uri q) = (p, None)
           \<and> p_version_hash p = store_hash L (pq_template q) (pq_slots q)
         \<longrightarrow> p_uri p = pq_uri q \<and> p_template p = pq_template q \<and> p_slots p = pq_slots q"
    and "PublishPrompt L S ctx q w = (Inr h, w')" and "InScope L reader (pq_uri q)"
  shows "fst (GetPrompt L S reader \<lparr>gq_uri = pq_uri q, gq_ref = ''''\<rparr> w')
    = Inr \<lparr>g_uri = pq_uri q, g_template = pq_template q, g_slots = pq_slots q,
           g_version_hash = h, g_commit_hash = ''''\<rparr>"
proof -
  have served': "served (sv_store S) (w_store w') (pq_uri q)
      = (\<lparr>p_uri = pq_uri q, p_template = pq_template q, p_slots = pq_slots q, p_version_hash = h\<rparr>, None)"
    and valid: "validate_prompt L (pq_uri q) (pq_template q) (pq_slots q) = None"
    using publish_success_served [OF assms(3-6)] by simp_all
  have "handle L S ctx (RpcPublish q) w = (Inr (Hash_resp h), w')" using assms(6) by simp
  from l2_cache.main_write_leaves_nothing [OF assms(1,2) this]
  have "view (w_cache w') (pq_uri q) = None" using assms(4) by simp
  then have miss: "fst (c_get K (pq_uri q) (w_cache w')) = None"
    using l2_cache.get_sound [OF assms(1)] by (metis option.exhaust option.distinct(1))
  have "current L (sv_store S) (w_store w') (pq_uri q) \<lparr>g_uri = pq_uri q, g_template = pq_template q,
      g_slots = pq_slots q, g_version_hash = h, g_commit_hash = ''''\<rparr>"
    using served' valid by (simp add: current_def resp_of_def)
  then show ?thesis
    using miss assms(2,7) get_head_current [OF store_contractD(1) [OF assms(3)]]
    by (cases "c_get K (pq_uri q) (w_cache w')") (simp add: GetPrompt_def Let_def del: Authorize_None)
qed

text \<open>
  C5. Once a publish to main reports success, a read by anyone in scope answers the published
  content, through any cache that meets the contract, if the store's hash tells contents apart.
\<close>

theorem read_your_publish:
  assumes "l2_cache K view" and "sv_cache S = Some K" and "store_contract L (sv_store S)"
    and "branchOr L (pq_branch q) = default_branch L"
    and "\<forall>p. served (sv_store S) (w_store w) (pq_uri q) = (p, None)
           \<and> p_version_hash p = store_hash L (pq_template q) (pq_slots q)
         \<longrightarrow> p_uri p = pq_uri q \<and> p_template p = pq_template q \<and> p_slots p = pq_slots q"
    and "PublishPrompt L S ctx q w = (Inr h, w')" and "InScope L reader (pq_uri q)"
  shows "fst (GetPrompt L S reader \<lparr>gq_uri = pq_uri q, gq_ref = ''''\<rparr> w')
    = Inr \<lparr>g_uri = pq_uri q, g_template = pq_template q, g_slots = pq_slots q,
           g_version_hash = h, g_commit_hash = ''''\<rparr>"
  using publish_then_read [OF assms] .

theorem read_your_publish_witness:
  "fst (GetPrompt sample_lib (sample_server (Some mem_cache)) (caller ''acme'' False) read_v1 v1_world)
   = Inr v1_resp"
proof -
  have run: "PublishPrompt sample_lib (sample_server (Some mem_cache)) (caller ''acme'' True)
      (publish_of ''v1'' '''') (sample_world sample_cache) = (Inr (sample_hash ''v1'' []), v1_world)"
    using publish_v1 by (simp add: wrap_Inr)
  show ?thesis
    using read_your_publish [OF mem.l2_cache_axioms _ _ _ _ run, of "caller ''acme'' False"]
      sample_store_contract
    by (simp add: served_sample sample_empty_def find_head_def branchOr_def read_v1_def v1_resp_def)
qed

end
