(* ===== verification/Server_Races.thy ===== *)
theory Server_Races
  imports Server_Coherence
begin

text \<open>
  Concurrent calls. The server handles every call in a goroutine of its own, so between a read's
  lookup in the cache, its read of the store and its put into the cache anything may happen: other
  reads, writes with their cache clears, writes of other nodes, the passage of time. The handlers
  are cut at their accesses to shared state (cache and store are each locked by themselves) and
  the pieces interleaved by a step relation. The in-process cache, whose entries expire.
\<close>

section \<open>A read in three phases\<close>

definition read_lookup ::
  "string \<Rightarrow> ('st, ttl_cache, 'nt) world \<Rightarrow> get_resp option \<times> ('st, ttl_cache, 'nt) world" where
  "read_lookup u w = (case ttl_get u (w_cache w) of (x, c) \<Rightarrow> (x, w\<lparr>w_cache := c\<rparr>))"

definition read_keep ::
  "string \<Rightarrow> get_resp \<Rightarrow> ('st, ttl_cache, 'nt) world \<Rightarrow> ('st, ttl_cache, 'nt) world" where
  "read_keep u r w = w\<lparr>w_cache := ttl_put u r (w_cache w)\<rparr>"

text \<open>Run one after the other, with \<open>get_head\<close> in between, they are the handler.\<close>

lemma GetPrompt_phases:
  assumes "sv_cache S = Some mem_cache" and "Authorize L ctx u = None"
  shows "GetPrompt L S ctx \<lparr>gq_uri = u, gq_ref = ''''\<rparr> w =
    (case read_lookup u w of
       (Some r, w1) \<Rightarrow> (Inr r, w1)
     | (None, w1) \<Rightarrow>
         (case get_head L S u w1 of
            (Inl e, w2) \<Rightarrow> (Inl e, w2)
          | (Inr r, w2) \<Rightarrow> (Inr r, read_keep u r w2)))"
  using assms
  by (simp add: GetPrompt_def read_lookup_def read_keep_def Let_def split: prod.splits option.splits sum.splits)

section \<open>Interleaved calls\<close>

text \<open>
  Where a read stands: it missed, or it has loaded a response at the instant \<open>at\<close> and will put it.
\<close>

datatype read_pc = Idle | Missed string | Loaded string get_resp (at: int)

text \<open>
  \<open>past\<close> and \<open>answers\<close> are history, for the properties only: every state of the store with the
  instants at which it held, and every answer with its instant.
\<close>

record ('st, 'nt) conc =
  world :: "('st, ttl_cache, 'nt) world"
  pc :: "nat \<Rightarrow> read_pc"
  past :: "(int \<times> 'st) list"
  answers :: "(int \<times> string \<times> get_resp) list"

definition now :: "('st, 'nt) conc \<Rightarrow> int" where
  "now s = t_ns (clock (w_cache (world s)))"

definition move :: "('st, ttl_cache, 'nt) world \<Rightarrow> ('st, 'nt) conc \<Rightarrow> ('st, 'nt) conc" where
  "move w s = s\<lparr>world := w, past := (t_ns (clock (w_cache w)), w_store w) # past s\<rparr>"

definition goes :: "nat \<Rightarrow> read_pc \<Rightarrow> ('st, 'nt) conc \<Rightarrow> ('st, 'nt) conc" where
  "goes i p s = s\<lparr>pc := (pc s)(i := p)\<rparr>"

definition answer :: "string \<Rightarrow> get_resp \<Rightarrow> ('st, 'nt) conc \<Rightarrow> ('st, 'nt) conc" where
  "answer u r s = s\<lparr>answers := (now s, u, r) # answers s\<rparr>"

text \<open>
  \<open>D\<close> bounds the time a read spends between its read of the store and its put. \<open>Write\<close> stands for
  every effect on the store, of this node's handlers or another's, and \<open>Clear\<close> for the
  invalidation that follows some of them; the bound below needs no relation between the two.
\<close>

inductive conc_step ::
  "'em lib \<Rightarrow> ('st, ttl_cache, 'nt, 'em) server \<Rightarrow> int \<Rightarrow> ('st, 'nt) conc \<Rightarrow> ('st, 'nt) conc \<Rightarrow> bool"
  for L S D where
  Hit: "pc s i = Idle \<Longrightarrow> read_lookup u (world s) = (Some r, w) \<Longrightarrow>
    conc_step L S D s (answer u r (move w s))"
| Miss: "pc s i = Idle \<Longrightarrow> read_lookup u (world s) = (None, w) \<Longrightarrow>
    conc_step L S D s (goes i (Missed u) (move w s))"
| Load: "pc s i = Missed u \<Longrightarrow> get_head L S u (world s) = (Inr r, w) \<Longrightarrow>
    conc_step L S D s (goes i (Loaded u r (now s)) (move w s))"
| Fail: "pc s i = Missed u \<Longrightarrow> get_head L S u (world s) = (Inl e, w) \<Longrightarrow>
    conc_step L S D s (goes i Idle (move w s))"
| Keep: "pc s i = Loaded u r t \<Longrightarrow> now s \<le> t + D \<Longrightarrow>
    conc_step L S D s (goes i Idle (answer u r (move (read_keep u r (world s)) s)))"
| Write: "conc_step L S D s (move ((world s)\<lparr>w_store := st, w_notif := nt, w_log := lg\<rparr>) s)"
| Clear: "conc_step L S D s (move ((world s)\<lparr>w_cache := snd (ttl_invalidate u (w_cache (world s)))\<rparr>) s)"
| Tick: "0 \<le> d \<Longrightarrow> conc_step L S D s (move ((world s)\<lparr>w_cache := ttl_tick d (w_cache (world s))\<rparr>) s)"

abbreviation conc_run ::
  "'em lib \<Rightarrow> ('st, ttl_cache, 'nt, 'em) server \<Rightarrow> int \<Rightarrow> ('st, 'nt) conc \<Rightarrow> ('st, 'nt) conc \<Rightarrow> bool" where
  "conc_run L S D \<equiv> (conc_step L S D)\<^sup>*\<^sup>*"

text \<open>Before the first call.\<close>

definition conc_init :: "('st, ttl_cache, 'nt) world \<Rightarrow> ('st, 'nt) conc" where
  "conc_init w = \<lparr>world = w, pc = (\<lambda>_. Idle), past = [(t_ns (clock (w_cache w)), w_store w)], answers = []\<rparr>"

section \<open>How old an answer can be\<close>

text \<open>\<open>r\<close> was the right answer for \<open>u\<close> at an instant between \<open>low\<close> and \<open>high\<close>.\<close>

definition was_current ::
  "'em lib \<Rightarrow> 'st store \<Rightarrow> (int \<times> 'st) list \<Rightarrow> int \<Rightarrow> int \<Rightarrow> string \<Rightarrow> get_resp \<Rightarrow> bool" where
  "was_current L st h low high u r \<longleftrightarrow> (\<exists>t x. (t, x) \<in> set h \<and> low \<le> t \<and> t \<le> high \<and> current L st x u r)"

lemma was_current_mono:
  "was_current L st h low high u r \<Longrightarrow> set h \<subseteq> set h' \<Longrightarrow> low' \<le> low \<Longrightarrow> high \<le> high' \<Longrightarrow>
     was_current L st h' low' high' u r"
  unfolding was_current_def by (meson order_trans subsetD)

text \<open>
  The invariant: the present is the latest past; what a read has loaded was current when it loaded
  it; what is cached was current at most \<open>ttl + D\<close> before its expiry; so were the answers.
\<close>

definition fresh ::
  "'em lib \<Rightarrow> 'st store \<Rightarrow> int \<Rightarrow> int \<Rightarrow> ('st, 'nt) conc \<Rightarrow> bool" where
  "fresh L st D t s \<longleftrightarrow>
     ttl (w_cache (world s)) = t
   \<and> (now s, w_store (world s)) \<in> set (past s)
   \<and> (\<forall>i u r a. pc s i = Loaded u r a \<longrightarrow> a \<le> now s \<and> was_current L st (past s) a a u r)
   \<and> (\<forall>u e. m (w_cache (world s)) u = Some e \<longrightarrow>
        was_current L st (past s) (t_ns (e_expiry e) - t - D) (now s) u (e_resp e))
   \<and> (\<forall>(a, u, r) \<in> set (answers s). was_current L st (past s) (a - t - D) a u r)"

lemmas conc_defs = now_def move_def goes_def answer_def read_lookup_def read_keep_def

lemma freshI:
  assumes "ttl (w_cache (world s)) = t" and "(now s, w_store (world s)) \<in> set (past s)"
    and "\<And>i u r a. pc s i = Loaded u r a \<Longrightarrow> a \<le> now s \<and> was_current L st (past s) a a u r"
    and "\<And>u e. m (w_cache (world s)) u = Some e \<Longrightarrow>
        was_current L st (past s) (t_ns (e_expiry e) - t - D) (now s) u (e_resp e)"
    and "\<And>a u r. (a, u, r) \<in> set (answers s) \<Longrightarrow> was_current L st (past s) (a - t - D) a u r"
  shows "fresh L st D t s"
  using assms unfolding fresh_def by blast

lemma freshD:
  assumes "fresh L st D t s"
  shows "ttl (w_cache (world s)) = t" and "(now s, w_store (world s)) \<in> set (past s)"
    and "pc s i = Loaded u r a \<Longrightarrow> a \<le> now s \<and> was_current L st (past s) a a u r"
    and "m (w_cache (world s)) u = Some e \<Longrightarrow>
        was_current L st (past s) (t_ns (e_expiry e) - t - D) (now s) u (e_resp e)"
    and "(a, u, r) \<in> set (answers s) \<Longrightarrow> was_current L st (past s) (a - t - D) a u r"
  using assms unfolding fresh_def by blast+

lemma fresh_move:
  assumes "fresh L st D t s" and "ttl (w_cache w) = t" and "now s \<le> t_ns (clock (w_cache w))"
    and "\<And>u e. m (w_cache w) u = Some e \<Longrightarrow>
        was_current L st (past (move w s)) (t_ns (e_expiry e) - t - D) (t_ns (clock (w_cache w))) u (e_resp e)"
  shows "fresh L st D t (move w s)"
proof (rule freshI)
  have older: "set (past s) \<subseteq> set (past (move w s))" by (auto simp: move_def)
  show "(now (move w s), w_store (world (move w s))) \<in> set (past (move w s))"
    by (simp add: conc_defs)
  show "was_current L st (past (move w s)) (a - t - D) a u r" if "(a, u, r) \<in> set (answers (move w s))" for a u r
    using that was_current_mono [OF freshD(5) [OF assms(1)] older order_refl order_refl] by (simp add: move_def)
  show "a \<le> now (move w s) \<and> was_current L st (past (move w s)) a a u r"
    if "pc (move w s) i = Loaded u r a" for i u r a
    using that freshD(3) [OF assms(1)] was_current_mono [OF _ older] assms(3) by (fastforce simp: conc_defs)
qed (use assms(2,4) in \<open>simp_all add: conc_defs\<close>)

lemma fresh_keeps_entries:
  assumes "fresh L st D t s" and "m (w_cache (world s)) u = Some e" and "now s \<le> n"
  shows "was_current L st (past (move w s)) (t_ns (e_expiry e) - t - D) n u (e_resp e)"
  by (rule was_current_mono [OF freshD(4) [OF assms(1,2)]]) (use assms(3) in \<open>auto simp: move_def\<close>)

lemma fresh_goes:
  assumes "fresh L st D t s" and "\<And>u r a. p = Loaded u r a \<Longrightarrow> a \<le> now s \<and> was_current L st (past s) a a u r"
  shows "fresh L st D t (goes i p s)"
  using freshD [OF assms(1)] assms(2) by (intro freshI) (auto simp: conc_defs split: if_splits)

lemma fresh_answer:
  assumes "fresh L st D t s" and "was_current L st (past s) (now s - t - D) (now s) u r"
  shows "fresh L st D t (answer u r s)"
  using freshD [OF assms(1)] assms(2) by (intro freshI) (auto simp: conc_defs)

lemma move_facts [simp]:
  "now (move w s) = t_ns (clock (w_cache w))" "set (past (move w s)) = insert (t_ns (clock (w_cache w)), w_store w) (set (past s))"
  "pc (move w s) = pc s" "world (move w s) = w"
  by (simp_all add: conc_defs)

lemma read_lookup_hit:
  assumes "read_lookup u w = (Some r, w')"
  obtains e where "m (w_cache w) u = Some e" and "e_resp e = r"
    and "t_ns (clock (w_cache w)) \<le> t_ns (e_expiry e)" and "w' = w"
proof (cases "m (w_cache w) u")
  case None
  then show thesis using assms by (simp add: read_lookup_def ttl_get_def)
next
  case (Some e)
  then show thesis
    using assms by (intro that [OF Some]) (auto simp: read_lookup_def ttl_get_def time_after_def split: if_splits)
qed

lemma fresh_step:
  assumes pure: "reads_pure (sv_store S)" and "0 \<le> t" and "conc_step L S D s s'"
    and fresh: "fresh L (sv_store S) D t s"
  shows "fresh L (sv_store S) D t s'"
  using assms(3)
proof cases
  case (Hit i u r w)
  obtain e where e: "m (w_cache (world s)) u = Some e" "e_resp e = r" "now s \<le> t_ns (e_expiry e)"
    and w: "w = world s"
    using read_lookup_hit [OF Hit(3)] unfolding now_def .
  have "fresh L (sv_store S) D t (move w s)"
    using fresh freshD(1) [OF fresh] fresh_keeps_entries [OF fresh]
    by (intro fresh_move) (auto simp: w now_def)
  then show ?thesis
    unfolding Hit(1)
  proof (rule fresh_answer)
    show "was_current L (sv_store S) (past (move w s)) (now (move w s) - t - D) (now (move w s)) u r"
      by (rule was_current_mono [OF freshD(4) [OF fresh e(1), unfolded e(2)]])
        (use e(3) in \<open>auto simp: conc_defs w\<close>)
  qed
next
  case (Miss i u w)
  then have w: "w = world s" by (simp add: read_lookup_def ttl_get_def)
  have "fresh L (sv_store S) D t (move w s)"
    using fresh freshD(1) [OF fresh] fresh_keeps_entries [OF fresh]
    by (intro fresh_move) (auto simp: w now_def)
  then show ?thesis
    unfolding Miss(1) by (rule fresh_goes) simp
next
  case (Load i u r w)
  have keep: "w_cache w = w_cache (world s)"
    using Load(3) by (auto simp: get_head_def on_store_def fail_with_def log_w_def split: prod.splits option.splits if_splits)
  note cur = current_get_head [OF pure Load(3)]
  have "fresh L (sv_store S) D t (move w s)"
    using fresh freshD(1) [OF fresh] fresh_keeps_entries [OF fresh]
    by (intro fresh_move) (auto simp: keep now_def)
  then show ?thesis
    unfolding Load(1)
    by (rule fresh_goes) (use cur in \<open>auto simp: was_current_def keep now_def\<close>)
next
  case (Fail i u e w)
  have keep: "w_cache w = w_cache (world s)"
    using Fail(3) by (auto simp: get_head_def on_store_def fail_with_def log_w_def split: prod.splits option.splits if_splits)
  have "fresh L (sv_store S) D t (move w s)"
    using fresh freshD(1) [OF fresh] fresh_keeps_entries [OF fresh]
    by (intro fresh_move) (auto simp: keep now_def)
  then show ?thesis
    unfolding Fail(1) by (rule fresh_goes) simp
next
  case (Keep i u r a)
  let ?s = "move (read_keep u r (world s)) s"
  have loaded: "a \<le> now s" "was_current L (sv_store S) (past s) a a u r"
    using freshD(3) [OF fresh Keep(2)] by simp_all
  have "fresh L (sv_store S) D t ?s"
  proof (rule fresh_move [OF fresh])
    show "was_current L (sv_store S) (past ?s) (t_ns (e_expiry e) - t - D)
        (t_ns (clock (w_cache (read_keep u r (world s))))) v (e_resp e)"
      if "m (w_cache (read_keep u r (world s))) v = Some e" for v e
    proof (cases "v = u")
      case True
      have "was_current L (sv_store S) (past ?s) (now s - D) (now s) u r"
        by (rule was_current_mono [OF loaded(2)]) (use loaded(1) Keep(3) in auto)
      then show ?thesis
        using that True freshD(1) [OF fresh] by (auto simp: conc_defs ttl_put_def time_add_def)
    next
      case False
      then show ?thesis
        using that fresh_keeps_entries [OF fresh, of v e "now s"] by (simp add: conc_defs ttl_put_def)
    qed
  qed (use freshD(1) [OF fresh] in \<open>simp_all add: conc_defs ttl_put_def\<close>)
  moreover have "was_current L (sv_store S) (past ?s) (now ?s - t - D) (now ?s) u r"
    by (rule was_current_mono [OF loaded(2)])
      (use loaded(1) Keep(3) \<open>0 \<le> t\<close> in \<open>auto simp: conc_defs ttl_put_def\<close>)
  ultimately show ?thesis
    unfolding Keep(1) by (intro fresh_goes fresh_answer) simp_all
next
  case (Write x n l)
  show ?thesis
    unfolding Write
    using fresh freshD(1) [OF fresh] fresh_keeps_entries [OF fresh]
    by (intro fresh_move) (auto simp: now_def)
next
  case (Clear u)
  show ?thesis
    unfolding Clear
    using fresh freshD(1) [OF fresh] fresh_keeps_entries [OF fresh]
    by (intro fresh_move) (auto simp: now_def ttl_invalidate_def split: if_splits)
next
  case (Tick d)
  show ?thesis
    unfolding Tick(1)
    using fresh freshD(1) [OF fresh] fresh_keeps_entries [OF fresh] Tick(2)
    by (intro fresh_move) (auto simp: now_def ttl_tick_def time_add_def)
qed

lemma fresh_run:
  assumes "reads_pure (sv_store S)" and "0 \<le> t" and "conc_run L S D s s'"
    and "fresh L (sv_store S) D t s"
  shows "fresh L (sv_store S) D t s'"
  using assms(3,4) by (induction rule: rtranclp_induct) (blast intro: fresh_step [OF assms(1,2)])+

lemma fresh_init:
  assumes "m (w_cache w) = Map.empty" and "ttl (w_cache w) = t"
  shows "fresh L st D t (conc_init w)"
  using assms by (intro freshI) (simp_all add: conc_init_def now_def)

lemma fresh_start:
  assumes "reads_pure (sv_store S)" and "NewMemCache t0 t = Some (w_cache w)"
    and "conc_run L S D (conc_init w) s"
  shows "fresh L (sv_store S) D t s"
proof -
  have "\<not> t \<le> 0" "w_cache w = \<lparr>ttl = t, m = Map.empty, clock = t0\<rparr>"
    using assms(2) by (simp_all add: NewMemCache_def split: if_splits)
  then show ?thesis
    using fresh_run [OF assms(1) _ assms(3) fresh_init] by simp
qed

text \<open>A read with nothing in between is a run.\<close>

lemma solo_read:
  assumes "reads_pure (sv_store S)" and "m (w_cache w) u = None" and "current L (sv_store S) (w_store w) u r"
    and "0 \<le> D"
  shows "\<exists>s. conc_run L S D (conc_init w) s \<and> (t_ns (clock (w_cache w)), u, r) \<in> set (answers s)
    \<and> set (past s) = {(t_ns (clock (w_cache w)), w_store w)}"
proof -
  let ?s0 = "conc_init w"
  let ?s1 = "goes 0 (Missed u) (move w ?s0)"
  let ?s2 = "goes 0 (Loaded u r (now ?s1)) (move w ?s1)"
  let ?s3 = "goes 0 Idle (answer u r (move (read_keep u r w) ?s2))"
  have "conc_step L S D ?s0 ?s1"
    by (rule Miss) (simp_all add: conc_init_def read_lookup_def ttl_get_def assms(2))
  moreover have "conc_step L S D ?s1 ?s2"
    by (rule Load) (use get_head_current [OF assms(1,3)] in \<open>simp_all add: goes_def\<close>)
  moreover have "conc_step L S D ?s2 ?s3"
    using Keep [of ?s2 0 u r "now ?s1" D L S] assms(4) by (simp add: goes_def now_def)
  ultimately have "conc_run L S D ?s0 ?s3"
    by (meson converse_rtranclp_into_rtranclp rtranclp.rtrancl_refl)
  then show ?thesis
    by (intro exI [of _ ?s3]) (auto simp: conc_init_def conc_defs ttl_put_def)
qed

section \<open>Properties\<close>

text \<open>
  C2. Bounded staleness under concurrency: however reads, writes, cache clears and the writes of other
  nodes interleave, a read answered at the instant \<open>a\<close> gets a valid response that was the right one
  at an instant no more than the time to live, plus the time a read spends between its store access
  and its put, before \<open>a\<close>.
\<close>

theorem answers_are_bounded_stale:
  assumes "reads_pure (sv_store S)" and "NewMemCache t0 t = Some (w_cache w)"
    and "conc_run L S D (conc_init w) s" and "(a, u, r) \<in> set (answers s)"
  shows "\<exists>t1 x. (t1, x) \<in> set (past s) \<and> a - t - D \<le> t1 \<and> t1 \<le> a \<and> current L (sv_store S) x u r"
proof -
  note fresh = fresh_start [OF assms(1-3)]
  from freshD(5) [OF fresh assms(4)] show ?thesis
    unfolding was_current_def .
qed

text \<open>
  C20. Readers converge: once an address has served one version for longer than the time to live and the
  time of a read, every answer is that version, whatever clears were lost or overtaken on the way.
\<close>

theorem readers_converge:
  assumes "reads_pure (sv_store S)" and "NewMemCache t0 t = Some (w_cache w)"
    and "conc_run L S D (conc_init w) s" and "(a, u, r) \<in> set (answers s)"
    and "\<forall>(t1, x) \<in> set (past s). tw \<le> t1 \<longrightarrow> served (sv_store S) x u = (p, None)"
    and "tw + t + D \<le> a"
  shows "r = resp_of p"
proof -
  note fresh = fresh_start [OF assms(1-3)]
  from freshD(5) [OF fresh assms(4)] obtain t1 x where "(t1, x) \<in> set (past s)" "a - t - D \<le> t1"
    "current L (sv_store S) x u r"
    unfolding was_current_def by blast
  then show ?thesis
    using assms(5,6) by (fastforce simp: current_def)
qed

text \<open>
  C21. A slow read can overtake a publish. A read that missed the cache and has read the store before a
  publish puts its response after the publish has cleared the cache: the publish has reported success,
  and every read for the whole time to live is answered with the version it replaced. Only then do
  reads get the new one.
\<close>

theorem publish_can_be_overtaken:
  assumes "sv_cache S = Some mem_cache" and "store_contract L (sv_store S)"
    and "branchOr L (pq_branch q) = default_branch L"
    and "\<forall>p. served (sv_store S) (w_store w) (pq_uri q) = (p, None)
           \<and> p_version_hash p = store_hash L (pq_template q) (pq_slots q)
         \<longrightarrow> p_uri p = pq_uri q \<and> p_template p = pq_template q \<and> p_slots p = pq_slots q"
    and "get_head L S (pq_uri q) w0 = (Inr r, w)"
    and "PublishPrompt L S ctx q w = (Inr h, w1)" and "InScope L reader (pq_uri q)"
    and "later = (\<lambda>d. (read_keep (pq_uri q) r w1)\<lparr>w_cache := ttl_tick d (w_cache (read_keep (pq_uri q) r w1))\<rparr>)"
  shows "fst (GetPrompt L S reader \<lparr>gq_uri = pq_uri q, gq_ref = ''''\<rparr> (later d))
    = (if d \<le> ttl (w_cache w1) then Inr r
       else Inr \<lparr>g_uri = pq_uri q, g_template = pq_template q, g_slots = pq_slots q,
                 g_version_hash = h, g_commit_hash = ''''\<rparr>)"
proof -
  have pass: "Authorize L reader (pq_uri q) = None"
    using assms(7) by simp
  have look: "read_lookup (pq_uri q) (later d) = (if d \<le> ttl (w_cache w1) then Some r else None, later d)"
    by (simp add: assms(8) read_lookup_def read_keep_def ttl_defs time_add_def)
  have served': "served (sv_store S) (w_store w1) (pq_uri q)
      = (\<lparr>p_uri = pq_uri q, p_template = pq_template q, p_slots = pq_slots q, p_version_hash = h\<rparr>, None)"
    and valid: "validate_prompt L (pq_uri q) (pq_template q) (pq_slots q) = None"
    using publish_success_served [OF assms(2,3,4,6)] by simp_all
  have "current L (sv_store S) (w_store (later d)) (pq_uri q) \<lparr>g_uri = pq_uri q, g_template = pq_template q,
      g_slots = pq_slots q, g_version_hash = h, g_commit_hash = ''''\<rparr>"
    using served' valid by (simp add: assms(8) read_keep_def current_def resp_of_def)
  from get_head_current [OF store_contractD(1) [OF assms(2)] this] show ?thesis
    unfolding GetPrompt_phases [OF assms(1) pass] look by simp
qed

section \<open>Witnesses\<close>

abbreviation race_world :: "(sample_store, ttl_cache, (string \<times> string \<times> string) list) world" where
  "race_world \<equiv> event_world store_v1 sample_cache"

abbreviation race_server :: "(sample_store, ttl_cache, (string \<times> string \<times> string) list, unit) server" where
  "race_server \<equiv> sample_server (Some mem_cache)"

lemma sample_cache_new: "NewMemCache time_zero 30 = Some (w_cache race_world)"
  by (simp add: NewMemCache_def sample_cache_def)

lemma served_v1: "served sample_ops store_v1 acme_uri
    = (\<lparr>p_uri = acme_uri, p_template = ''v1'', p_slots = [], p_version_hash = sample_hash ''v1'' []\<rparr>, None)"
  by (simp add: served_sample store_v1_def sample_commit_def Let_def prompt_of_def)

lemma v1_current: "current sample_lib sample_ops store_v1 acme_uri v1_resp"
  by (simp add: current_def served_v1 resp_of_def v1_resp_def)

lemma race_read:
  "\<exists>s. conc_run sample_lib race_server 0 (conc_init race_world) s
     \<and> (t_ns time_zero, acme_uri, v1_resp) \<in> set (answers s) \<and> set (past s) = {(t_ns time_zero, store_v1)}"
  using solo_read [of race_server race_world acme_uri sample_lib v1_resp 0] v1_current sample_pure
  by (simp add: sample_cache_def)

theorem answers_are_bounded_stale_witness:
  "\<exists>s. conc_run sample_lib race_server 0 (conc_init race_world) s
     \<and> (t_ns time_zero, acme_uri, v1_resp) \<in> set (answers s)
     \<and> (\<exists>t1 x. (t1, x) \<in> set (past s) \<and> current sample_lib sample_ops x acme_uri v1_resp)"
  using race_read answers_are_bounded_stale [of race_server time_zero 30 race_world sample_lib 0]
    sample_pure sample_cache_new by fastforce

theorem readers_converge_witness:
  "\<exists>s. conc_run sample_lib race_server 0 (conc_init race_world) s
     \<and> (t_ns time_zero, acme_uri, v1_resp) \<in> set (answers s)
     \<and> v1_resp = resp_of (fst (served sample_ops store_v1 acme_uri))"
proof -
  obtain s where s: "conc_run sample_lib race_server 0 (conc_init race_world) s"
    "(t_ns time_zero, acme_uri, v1_resp) \<in> set (answers s)" "set (past s) = {(t_ns time_zero, store_v1)}"
    using race_read by blast
  have "v1_resp = resp_of (fst (served sample_ops store_v1 acme_uri))"
    by (rule readers_converge [OF _ sample_cache_new s(1,2), where tw = "t_ns time_zero - 30"])
      (simp_all add: sample_pure s(3) served_v1)
  with s show ?thesis by blast
qed

text \<open>A reader loads \<open>v1\<close>, \<open>v2\<close> is published with success, and for 30 ns readers get \<open>v1\<close>.\<close>

theorem publish_can_be_overtaken_witness:
  "\<exists>w1. PublishPrompt sample_lib race_server acme_writer (publish_of ''v2'' '''') race_world
         = (Inr (sample_hash ''v2'' []), w1)
     \<and> fst (GetPrompt sample_lib race_server (caller ''acme'' False) \<lparr>gq_uri = acme_uri, gq_ref = ''''\<rparr>
         ((read_keep acme_uri v1_resp w1)\<lparr>w_cache := ttl_tick 30 (w_cache (read_keep acme_uri v1_resp w1))\<rparr>))
       = Inr v1_resp"
proof -
  obtain r w1 where run: "PublishPrompt sample_lib race_server acme_writer (publish_of ''v2'' '''') race_world = (r, w1)"
    by fastforce
  have ne: "sample_hash ''v1'' [] \<noteq> sample_hash ''v2'' []" by (simp add: sample_hash_def)
  obtain c ls where committed: "publish_commit sample_lib race_server acme_writer (publish_of ''v2'' '''')
      (sample_hash ''v2'' []) ''main'' c (log_w ls race_world) = (r, w1)"
    by (rule publish_main_change [OF _ _ _ _ _ run, rotated 5]) (simp_all add: sample_pure branchOr_def served_v1 ne)
  note main = commit_main [of race_server rec_notifier "publish_of ''v2'' ''''" sample_lib acme_writer
      "log_w ls race_world" "''ccc''" store_v2 "sample_hash ''v2'' []" c r w1]
  have r: "r = Inr (sample_hash ''v2'' [])" and t: "ttl (w_cache w1) = 30"
    using main(2,4) committed commit_v2
    by (simp_all add: cleared_or_def inv_ok_def cache_inv_def ttl_invalidate_def sample_cache_def)
  note run = run [unfolded r]
  have load: "get_head sample_lib race_server acme_uri race_world = (Inr v1_resp, race_world)"
    using get_head_current [of race_server sample_lib race_world acme_uri v1_resp] v1_current sample_pure by simp
  show ?thesis
    using run t publish_can_be_overtaken [OF _ _ _ _ _ run, of race_world v1_resp "caller ''acme'' False" _ 30] load
      sample_store_contract
    by (simp add: branchOr_def served_v1 sample_hash_def)
qed

end
