(* ===== verification/Server_Writers.thy ===== *)
theory Server_Writers
  imports Server_Races
begin

text \<open>
  Concurrent publishes. \<open>PublishPrompt\<close> takes no lock: it compares with what main serves, commits,
  clears the cache and sends its event, and other calls run between any two of these. Any number
  of publishes, cut at these points and interleaved with reads (cut as in \<open>Server_Races\<close>), cache
  expiry and work on branches.
  What holds when they are through, and what does not.
\<close>

section \<open>A publish in four phases\<close>

text \<open>The checks, the comparison and the verdict.\<close>

definition publish_check ::
  "'em lib \<Rightarrow> ('st, 'ca, 'nt, 'em) server \<Rightarrow> ctx \<Rightarrow> publish_req
   \<Rightarrow> ('st, 'ca, 'nt) world \<Rightarrow> publish_step \<times> ('st, 'ca, 'nt) world" where
  "publish_check L S ctx q w =
     (case Authorize L ctx (pq_uri q) of Some e \<Rightarrow> (Finish (Inl e), w) | None \<Rightarrow>
      (case RequireWrite ctx of Some e \<Rightarrow> (Finish (Inl e), w) | None \<Rightarrow>
       (case validate_prompt L (pq_uri q) (pq_template q) (pq_slots q) of
          Some e \<Rightarrow> (Finish (Inl (status_errorf InvalidArgument ''invalid prompt: %v'' [err_text e])), w)
        | None \<Rightarrow> publish_precheck L S q (store_hash L (pq_template q) (pq_slots q))
                    (branchOr L (pq_branch q)) w)))"

text \<open>The commit: the status it failed with, if it failed.\<close>

definition publish_store ::
  "'em lib \<Rightarrow> ('st, 'ca, 'nt, 'em) server \<Rightarrow> ctx \<Rightarrow> publish_req
   \<Rightarrow> ('st, 'ca, 'nt) world \<Rightarrow> status option \<times> ('st, 'ca, 'nt) world" where
  "publish_store L S ctx q w =
     (case on_store (st_commit (sv_store S) (pq_uri q) (branchOr L (pq_branch q)) (pq_template q)
                       (pq_slots q) (ScopeOf ctx) (pq_message q)) w of
        (Inl e, w1) \<Rightarrow> (case store_status ''publish'' e of (st, ls) \<Rightarrow> (Some st, log_w ls w1))
      | (Inr _, w1) \<Rightarrow> (None, w1))"

definition publish_hash :: "'em lib \<Rightarrow> publish_req \<Rightarrow> string" where
  "publish_hash L q = store_hash L (pq_template q) (pq_slots q)"

definition to_main :: "'em lib \<Rightarrow> publish_req \<Rightarrow> bool" where
  "to_main L q \<longleftrightarrow> branchOr L (pq_branch q) = default_branch L"

text \<open>One after the other they are the handler.\<close>

lemma PublishPrompt_phases:
  "PublishPrompt L S ctx q w =
    (case publish_check L S ctx q w of
       (Finish r, w1) \<Rightarrow> (r, w1)
     | (Commit_as c, w1) \<Rightarrow>
         (case publish_store L S ctx q w1 of
            (Some e, w2) \<Rightarrow> (Inl e, w2)
          | (None, w2) \<Rightarrow>
              (if to_main L q then
                 (case invalidate (sv_cache S) (pq_uri q) w2 of
                    (x, w3) \<Rightarrow> (case x of Some e \<Rightarrow> Inl e | None \<Rightarrow> Inr (publish_hash L q),
                                notify S (pq_uri q) (publish_hash L q) c w3))
               else (Inr (publish_hash L q), w2))))"
proof (cases "Authorize L ctx (pq_uri q) = None \<and> RequireWrite ctx = None
    \<and> validate_prompt L (pq_uri q) (pq_template q) (pq_slots q) = None")
  case True
  then have "Authorize L ctx (pq_uri q) = None" and "RequireWrite ctx = None"
    and "validate_prompt L (pq_uri q) (pq_template q) (pq_slots q) = None" by blast+
  note go = this
  have pass: "publish_check L S ctx q w = publish_precheck L S q (publish_hash L q) (branchOr L (pq_branch q)) w"
    and run: "PublishPrompt L S ctx q w =
      (case publish_precheck L S q (publish_hash L q) (branchOr L (pq_branch q)) w of
         (Finish r, w1) \<Rightarrow> (r, w1)
       | (Commit_as c, w1) \<Rightarrow> publish_commit L S ctx q (publish_hash L q) (branchOr L (pq_branch q)) c w1)"
    unfolding publish_check_def PublishPrompt_def go publish_hash_def Let_def option.case by (rule refl)+
  have commit: "publish_commit L S ctx q (publish_hash L q) (branchOr L (pq_branch q)) c w1 =
    (case publish_store L S ctx q w1 of
       (Some e, w2) \<Rightarrow> (Inl e, w2)
     | (None, w2) \<Rightarrow>
         (if to_main L q then
            (case invalidate (sv_cache S) (pq_uri q) w2 of
               (x, w3) \<Rightarrow> (case x of Some e \<Rightarrow> Inl e | None \<Rightarrow> Inr (publish_hash L q),
                           notify S (pq_uri q) (publish_hash L q) c w3))
          else (Inr (publish_hash L q), w2)))" for c w1
    by (simp add: publish_commit_def publish_store_def fail_with_def to_main_def Let_def
        split: prod.splits sum.splits option.splits)
  show ?thesis unfolding pass run commit by (rule refl)
next
  case False
  then show ?thesis
    by (auto simp: publish_check_def PublishPrompt_def simp del: Authorize_None RequireWrite_None split: option.splits)
qed

section \<open>Interleaved publishes\<close>

text \<open>
  Where a publish stands: compared, with the verdict it will announce; committed to main; past its
  cache clear. Where a read stands is \<open>read_pc\<close> of \<open>Server_Races\<close>. The rest is history: \<open>sent\<close>, the
  events, newest first; and \<open>late\<close>, the puts of reads that a publish has overtaken, as address and
  instant at which the entry expires.
\<close>

datatype write_pc =
    Resting
  | Checked ctx publish_req string
  | Stored publish_req string
  | Wiped publish_req string

record ('st, 'nt) site =
  reg :: "('st, ttl_cache, 'nt) world"
  stage :: "nat \<Rightarrow> write_pc"
  readers :: "nat \<Rightarrow> read_pc"
  sent :: "(string \<times> string \<times> string) list"
  late :: "(string \<times> int) list"

definition enter :: "nat \<Rightarrow> write_pc \<Rightarrow> ('st, ttl_cache, 'nt) world \<Rightarrow> ('st, 'nt) site \<Rightarrow> ('st, 'nt) site" where
  "enter i p w s = s\<lparr>reg := w, stage := (stage s)(i := p)\<rparr>"

definition reading :: "nat \<Rightarrow> read_pc \<Rightarrow> ('st, ttl_cache, 'nt) world \<Rightarrow> ('st, 'nt) site \<Rightarrow> ('st, 'nt) site" where
  "reading i p w s = s\<lparr>reg := w, readers := (readers s)(i := p)\<rparr>"

definition site_init :: "('st, ttl_cache, 'nt) world \<Rightarrow> ('st, 'nt) site" where
  "site_init w = \<lparr>reg = w, stage = (\<lambda>_. Resting), readers = (\<lambda>_. Idle), sent = [], late = []\<rparr>"

definition site_now :: "('st, 'nt) site \<Rightarrow> int" where
  "site_now s = t_ns (clock (w_cache (reg s)))"

text \<open>The address a publish has still to clear from the cache.\<close>

fun uncleared :: "write_pc \<Rightarrow> string option" where
  "uncleared (Stored q c) = Some (pq_uri q)"
| "uncleared _ = None"

definition unwiped :: "('st, 'nt) site \<Rightarrow> string \<Rightarrow> bool" where
  "unwiped s u \<longleftrightarrow> (\<exists>i. uncleared (stage s i) = Some u)"

text \<open>
  A put is late if main no longer serves what it stores and no publish of the address is still to
  clear the cache.
\<close>

definition note_put ::
  "'em lib \<Rightarrow> 'st store \<Rightarrow> string \<Rightarrow> get_resp \<Rightarrow> ('st, 'nt) site \<Rightarrow> ('st, 'nt) site \<Rightarrow> ('st, 'nt) site" where
  "note_put L st u r s s' =
     (if current L st (w_store (reg s)) u r \<or> unwiped s u then s'
      else s'\<lparr>late := (u, site_now s + ttl (w_cache (reg s))) # late s\<rparr>)"

text \<open>
  A publish of what main serves ends with its check and a clear of the cache. Its clear may come
  later than its check: \<open>Clear\<close> is a clear at any time. \<open>Other\<close> is any work that changes nothing that
  is served.
\<close>

inductive write_step ::
  "'em lib \<Rightarrow> ('st, ttl_cache, 'nt, 'em) server \<Rightarrow> ('st, 'nt) site \<Rightarrow> ('st, 'nt) site \<Rightarrow> bool"
  for L S where
  Over: "publish_check L S ctx q (reg s) = (Finish r, w) \<Longrightarrow> write_step L S s (s\<lparr>reg := w\<rparr>)"
| Check: "stage s i = Resting \<Longrightarrow> publish_check L S ctx q (reg s) = (Commit_as c, w) \<Longrightarrow>
    write_step L S s (enter i (Checked ctx q c) w s)"
| Store_fails: "stage s i = Checked ctx q c \<Longrightarrow> publish_store L S ctx q (reg s) = (Some e, w) \<Longrightarrow>
    write_step L S s (enter i Resting w s)"
| Store_branch: "stage s i = Checked ctx q c \<Longrightarrow> \<not> to_main L q \<Longrightarrow>
    publish_store L S ctx q (reg s) = (None, w) \<Longrightarrow> write_step L S s (enter i Resting w s)"
| Store: "stage s i = Checked ctx q c \<Longrightarrow> to_main L q \<Longrightarrow>
    publish_store L S ctx q (reg s) = (None, w) \<Longrightarrow> write_step L S s (enter i (Stored q c) w s)"
| Wipe: "stage s i = Stored q c \<Longrightarrow> invalidate (sv_cache S) (pq_uri q) (reg s) = (x, w) \<Longrightarrow>
    write_step L S s (enter i (Wiped q c) w s)"
| Tell: "stage s i = Wiped q c \<Longrightarrow>
    write_step L S s ((enter i Resting (notify S (pq_uri q) (publish_hash L q) c (reg s)) s)
      \<lparr>sent := (pq_uri q, publish_hash L q, c) # sent s\<rparr>)"
| Read_hit: "readers s i = Idle \<Longrightarrow> read_lookup u (reg s) = (Some r, w) \<Longrightarrow> write_step L S s (s\<lparr>reg := w\<rparr>)"
| Read_miss: "readers s i = Idle \<Longrightarrow> read_lookup u (reg s) = (None, w) \<Longrightarrow>
    write_step L S s (reading i (Missed u) w s)"
| Read_load: "readers s i = Missed u \<Longrightarrow> get_head L S u (reg s) = (Inr r, w) \<Longrightarrow>
    write_step L S s (reading i (Loaded u r (site_now s)) w s)"
| Read_fail: "readers s i = Missed u \<Longrightarrow> get_head L S u (reg s) = (Inl e, w) \<Longrightarrow>
    write_step L S s (reading i Idle w s)"
| Read_keep: "readers s i = Loaded u r t \<Longrightarrow>
    write_step L S s (note_put L (sv_store S) u r s (reading i Idle (read_keep u r (reg s)) s))"
| Clear: "invalidate (sv_cache S) v (reg s) = (x, w) \<Longrightarrow> write_step L S s (s\<lparr>reg := w\<rparr>)"
| Expire: "0 \<le> d \<Longrightarrow> write_step L S s (s\<lparr>reg := (reg s)\<lparr>w_cache := ttl_tick d (w_cache (reg s))\<rparr>\<rparr>)"
| Other: "\<forall>v. served (sv_store S) st v = served (sv_store S) (w_store (reg s)) v \<Longrightarrow>
    write_step L S s (s\<lparr>reg := (reg s)\<lparr>w_store := st\<rparr>\<rparr>)"

abbreviation write_run ::
  "'em lib \<Rightarrow> ('st, ttl_cache, 'nt, 'em) server \<Rightarrow> ('st, 'nt) site \<Rightarrow> ('st, 'nt) site \<Rightarrow> bool" where
  "write_run L S \<equiv> (write_step L S)\<^sup>*\<^sup>*"

text \<open>The address and version a publish has committed to main and not announced yet.\<close>

fun committed :: "'em lib \<Rightarrow> write_pc \<Rightarrow> (string \<times> string) option" where
  "committed L (Stored q c) = Some (pq_uri q, publish_hash L q)"
| "committed L (Wiped q c) = Some (pq_uri q, publish_hash L q)"
| "committed L _ = None"

definition in_flight :: "'em lib \<Rightarrow> ('st, 'nt) site \<Rightarrow> string \<Rightarrow> bool" where
  "in_flight L s u \<longleftrightarrow> (\<exists>i h. committed L (stage s i) = Some (u, h))"

text \<open>A version that an event names or that a publish in flight will name.\<close>

definition named :: "'em lib \<Rightarrow> ('st, 'nt) site \<Rightarrow> string \<Rightarrow> string \<Rightarrow> bool" where
  "named L s u h \<longleftrightarrow> (\<exists>c. (u, h, c) \<in> set (sent s)) \<or> (\<exists>i. committed L (stage s i) = Some (u, h))"

lemma unwiped_in_flight: "unwiped s u \<Longrightarrow> in_flight L s u"
proof -
  assume "unwiped s u"
  then obtain i where "uncleared (stage s i) = Some u" by (auto simp: unwiped_def)
  then obtain q c where "stage s i = Stored q c" and "pq_uri q = u" by (cases "stage s i") auto
  then show ?thesis unfolding in_flight_def by (metis committed.simps(1))
qed

lemma named_settled: "named L s u h \<Longrightarrow> \<not> in_flight L s u \<Longrightarrow> \<exists>c. (u, h, c) \<in> set (sent s)"
  by (auto simp: named_def in_flight_def)

lemma enter_simps [simp]:
  "reg (enter i p w s) = w" "sent (enter i p w s) = sent s" "stage (enter i p w s) = (stage s)(i := p)"
  "late (enter i p w s) = late s"
  by (simp_all add: enter_def)

lemma reading_simps [simp]:
  "reg (reading i p w s) = w" "sent (reading i p w s) = sent s" "stage (reading i p w s) = stage s"
  "late (reading i p w s) = late s"
  by (simp_all add: reading_def)

lemma note_put_simps [simp]:
  "reg (note_put L st u r s s') = reg s'" "sent (note_put L st u r s s') = sent s'"
  "stage (note_put L st u r s s') = stage s'"
  by (simp_all add: note_put_def)

text \<open>Moving one publish on keeps what the others stand for.\<close>

lemma update_keeps:
  assumes "\<exists>j. f (g j) = Some x" and "f (g i) = None \<or> f p = f (g i)"
  shows "\<exists>j. f ((g(i := p)) j) = Some x"
proof -
  obtain j where j: "f (g j) = Some x" using assms(1) by blast
  then have "f ((g(i := p)) j) = Some x" using assms(2) by (cases "j = i") auto
  then show ?thesis by blast
qed

lemma enter_named:
  assumes "named L s u h" and "committed L (stage s i) = None \<or> committed L p = committed L (stage s i)"
  shows "named L (enter i p w s) u h"
  using assms update_keeps [of "committed L" "stage s" "(u, h)" i p] unfolding named_def enter_simps by blast

lemma enter_unwiped:
  assumes "unwiped s u" and "uncleared (stage s i) = None \<or> uncleared p = uncleared (stage s i)"
  shows "unwiped (enter i p w s) u"
  using assms update_keeps [of uncleared "stage s" u i p] unfolding unwiped_def enter_simps by blast

lemma reg_only [simp]:
  "unwiped (s\<lparr>reg := w\<rparr>) u = unwiped s u" "named L (s\<lparr>reg := w\<rparr>) u h = named L s u h"
  by (simp_all add: unwiped_def named_def)

section \<open>The invariant\<close>

definition settled ::
  "'em lib \<Rightarrow> ('st, ttl_cache, 'nt, 'em) server \<Rightarrow> 'st \<Rightarrow> ('st, 'nt) site \<Rightarrow> bool" where
  "settled L S st0 s \<longleftrightarrow>
     (\<forall>u e. m (w_cache (reg s)) u = Some e \<longrightarrow>
        unwiped s u \<or> current L (sv_store S) (w_store (reg s)) u (e_resp e) \<or> (u, t_ns (e_expiry e)) \<in> set (late s))
   \<and> (\<forall>u. served (sv_store S) (w_store (reg s)) u = served (sv_store S) st0 u
        \<or> (\<exists>p. served (sv_store S) (w_store (reg s)) u = (p, None) \<and> named L s u (p_version_hash p)))"

section \<open>What each phase does\<close>

lemma check_frame:
  assumes "reads_pure (sv_store S)" and "publish_check L S ctx q w = (x, w')"
  shows "w_store w' = w_store w" and "w_notif w' = w_notif w"
    and "w_cache w' = w_cache w \<or> w_cache w' = cache_inv (sv_cache S) (pq_uri q) (w_cache w)"
  using assms
  by (auto simp: publish_check_def publish_precheck_def reads_pure_simps dest!: invalidate_eq
      simp del: Authorize_None RequireWrite_None split: prod.splits sum.splits option.splits if_splits)

lemma store_frame:
  assumes "store_contract L (sv_store S)" and "publish_store L S ctx q w = (x, w')"
  shows "w_cache w' = w_cache w" and "w_notif w' = w_notif w"
    and "v \<noteq> pq_uri q \<or> \<not> to_main L q \<or> x \<noteq> None \<Longrightarrow>
      served (sv_store S) (w_store w') v = served (sv_store S) (w_store w) v"
    and "to_main L q \<Longrightarrow> x = None \<Longrightarrow> served (sv_store S) (w_store w') (pq_uri q)
      = (\<lparr>p_uri = pq_uri q, p_template = pq_template q, p_slots = pq_slots q,
          p_version_hash = publish_hash L q\<rparr>, None)"
proof -
  obtain y st where cm: "st_commit (sv_store S) (pq_uri q) (branchOr L (pq_branch q)) (pq_template q)
      (pq_slots q) (ScopeOf ctx) (pq_message q) (w_store w) = (y, st)" by fastforce
  note law = commit_contractD [OF store_contractD(2) [OF assms(1)] cm]
  have eq: "w_cache w' = w_cache w \<and> w_notif w' = w_notif w \<and> w_store w' = st \<and> (x = None \<longleftrightarrow> \<not> isl y)"
    using assms(2) cm by (auto simp: publish_store_def on_store_def split: sum.splits prod.splits)
  then show "w_cache w' = w_cache w" "w_notif w' = w_notif w" by blast+
  show "served (sv_store S) (w_store w') v = served (sv_store S) (w_store w) v"
    if "v \<noteq> pq_uri q \<or> \<not> to_main L q \<or> x \<noteq> None"
    using that eq law(1) by (auto simp: to_main_def)
  show "served (sv_store S) (w_store w') (pq_uri q)
      = (\<lparr>p_uri = pq_uri q, p_template = pq_template q, p_slots = pq_slots q,
          p_version_hash = publish_hash L q\<rparr>, None)" if "to_main L q" and "x = None"
    using that eq law(2) by (auto simp: to_main_def publish_hash_def)
qed

lemma cleared_entries:
  "m (cache_inv (Some mem_cache) u c) v = (if v = u then None else m c v)"
  by (simp add: cache_inv_def ttl_invalidate_def)

text \<open>A step that changes nothing that is served, adds nothing to the cache and loses no publish.\<close>

lemma settled_mono:
  assumes "settled L S st0 s"
    and "\<And>v. served (sv_store S) (w_store (reg s')) v = served (sv_store S) (w_store (reg s)) v"
    and "\<And>v e. m (w_cache (reg s')) v = Some e \<Longrightarrow>
      m (w_cache (reg s)) v = Some e \<and> (unwiped s v \<longrightarrow> unwiped s' v)"
    and "\<And>v h. named L s v h \<Longrightarrow> named L s' v h" and "late s' = late s"
  shows "settled L S st0 s'"
  using assms unfolding settled_def current_def by metis

lemma settled_world:
  assumes "settled L S st0 s"
    and "\<And>v. served (sv_store S) (w_store w) v = served (sv_store S) (w_store (reg s)) v"
    and "\<And>v e. m (w_cache w) v = Some e \<Longrightarrow> m (w_cache (reg s)) v = Some e"
  shows "settled L S st0 (s\<lparr>reg := w\<rparr>)"
  by (rule settled_mono [OF assms(1)]) (use assms(2,3) in simp_all)

lemma settled_enter:
  assumes "settled L S st0 s"
    and "\<And>v. served (sv_store S) (w_store w) v = served (sv_store S) (w_store (reg s)) v"
    and "\<And>v e. m (w_cache w) v = Some e \<Longrightarrow> m (w_cache (reg s)) v = Some e"
    and "committed L (stage s i) = None" and "uncleared (stage s i) = None"
  shows "settled L S st0 (enter i p w s)"
  by (rule settled_mono [OF assms(1)]) (use assms(2-5) in \<open>auto intro: enter_named enter_unwiped\<close>)

lemma settled_store:
  assumes "settled L S st0 s" and "stage s i = Checked ctx q c" and "w_cache w = w_cache (reg s)"
    and "\<And>v. v \<noteq> pq_uri q \<Longrightarrow> served (sv_store S) (w_store w) v = served (sv_store S) (w_store (reg s)) v"
    and "served (sv_store S) (w_store w) (pq_uri q)
      = (\<lparr>p_uri = pq_uri q, p_template = pq_template q, p_slots = pq_slots q,
          p_version_hash = publish_hash L q\<rparr>, None)"
  shows "settled L S st0 (enter i (Stored q c) w s)"
proof -
  let ?s = "enter i (Stored q c) w s"
  have mine: "unwiped ?s (pq_uri q)" "named L ?s (pq_uri q) (publish_hash L q)"
    by (auto simp: unwiped_def named_def intro!: exI [of _ i])
  have others: "unwiped s v \<Longrightarrow> unwiped ?s v" "named L s v h \<Longrightarrow> named L ?s v h" for v h
    using assms(2) by (simp_all add: enter_unwiped enter_named)
  have "unwiped ?s v \<or> current L (sv_store S) (w_store (reg ?s)) v (e_resp e) \<or> (v, t_ns (e_expiry e)) \<in> set (late ?s)"
    if "m (w_cache (reg ?s)) v = Some e" for v e
    using that assms(1,3,4) mine(1) others(1) [of v]
    by (cases "v = pq_uri q") (auto simp: settled_def current_def)
  moreover have "served (sv_store S) (w_store (reg ?s)) v = served (sv_store S) st0 v
      \<or> (\<exists>p. served (sv_store S) (w_store (reg ?s)) v = (p, None) \<and> named L ?s v (p_version_hash p))" for v
    using assms(1,4,5) mine(2) others(2)
    by (cases "v = pq_uri q") (simp_all add: settled_def, metis)
  ultimately show ?thesis by (simp only: settled_def) blast
qed

lemma settled_wipe:
  assumes "settled L S st0 s" and "stage s i = Stored q c"
    and "w_store w = w_store (reg s)" and "w_cache w = cache_inv (Some mem_cache) (pq_uri q) (w_cache (reg s))"
  shows "settled L S st0 (enter i (Wiped q c) w s)"
proof (rule settled_mono [OF assms(1)])
  fix v e assume "m (w_cache (reg (enter i (Wiped q c) w s))) v = Some e"
  then have v: "v \<noteq> pq_uri q" "m (w_cache (reg s)) v = Some e"
    by (simp_all add: assms(4) cleared_entries split: if_splits)
  have "unwiped (enter i (Wiped q c) w s) v" if "unwiped s v"
  proof -
    from that [unfolded unwiped_def] obtain j where j: "uncleared (stage s j) = Some v" ..
    with v(1) assms(2) have "j \<noteq> i" by auto
    with j show ?thesis by (auto simp: unwiped_def intro!: exI [of _ j])
  qed
  with v(2) show "m (w_cache (reg s)) v = Some e
      \<and> (unwiped s v \<longrightarrow> unwiped (enter i (Wiped q c) w s) v)" by blast
qed (use assms(2,3) in \<open>auto intro: enter_named\<close>)

lemma settled_tell:
  assumes "settled L S st0 s" and "stage s i = Wiped q c"
    and "w_store w = w_store (reg s)" and "w_cache w = w_cache (reg s)"
  shows "settled L S st0 ((enter i Resting w s)\<lparr>sent := (pq_uri q, publish_hash L q, c) # sent s\<rparr>)"
    (is "settled L S st0 ?s")
proof (rule settled_mono [OF assms(1)])
  fix v e assume view: "m (w_cache (reg ?s)) v = Some e"
  have "unwiped s v \<longrightarrow> unwiped ?s v"
    using update_keeps [of uncleared "stage s" v i Resting] assms(2) by (auto simp: unwiped_def)
  with view show "m (w_cache (reg s)) v = Some e \<and> (unwiped s v \<longrightarrow> unwiped ?s v)"
    by (simp add: assms(4))
next
  fix v h assume "named L s v h"
  then consider (event) c' where "(v, h, c') \<in> set (sent s)"
    | (flight) j where "committed L (stage s j) = Some (v, h)" by (auto simp: named_def)
  then show "named L ?s v h"
  proof cases
    case event
    then show ?thesis by (auto simp: named_def)
  next
    case (flight j)
    then show ?thesis using assms(2)
      by (cases "j = i") (auto simp: named_def intro!: exI [of _ j])
  qed
qed (use assms(3) in simp_all)

text \<open>
  The reads. Only the last piece puts anything in the cache: what main serves, or what a publish is
  still to clear, or a late response.
\<close>

lemma settled_reading:
  assumes "settled L S st0 s"
    and "\<And>v. served (sv_store S) (w_store w) v = served (sv_store S) (w_store (reg s)) v"
    and "\<And>v e. m (w_cache w) v = Some e \<Longrightarrow> m (w_cache (reg s)) v = Some e"
  shows "settled L S st0 (reading i p w s)"
  by (rule settled_mono [OF assms(1)]) (use assms(2,3) in \<open>simp_all add: unwiped_def named_def\<close>)

lemma settled_keep:
  assumes "settled L S st0 s"
  shows "settled L S st0 (note_put L (sv_store S) u r s (reading i Idle (read_keep u r (reg s)) s))" (is "settled L S st0 ?s")
proof -
  have same: "unwiped ?s = unwiped s" "named L ?s = named L s" "w_store (reg ?s) = w_store (reg s)"
    by (simp_all add: unwiped_def named_def read_keep_def fun_eq_iff)
  have late: "set (late s) \<subseteq> set (late ?s)"
    "current L (sv_store S) (w_store (reg s)) u r \<or> unwiped s u
     \<or> (u, site_now s + ttl (w_cache (reg s))) \<in> set (late ?s)"
    by (auto simp: note_put_def)
  have put: "m (w_cache (reg ?s)) v = (if v = u then Some \<lparr>e_resp = r, e_expiry = time_add (clock (w_cache (reg s))) (ttl (w_cache (reg s)))\<rparr>
      else m (w_cache (reg s)) v)" for v
    by (simp add: read_keep_def ttl_put_def)
  have "unwiped ?s v \<or> current L (sv_store S) (w_store (reg ?s)) v (e_resp e) \<or> (v, t_ns (e_expiry e)) \<in> set (late ?s)"
    if "m (w_cache (reg ?s)) v = Some e" for v e
  proof (cases "v = u")
    case True
    have "e_resp e = r" "t_ns (e_expiry e) = site_now s + ttl (w_cache (reg s))"
      using that unfolding put by (auto simp: True time_add_def site_now_def)
    then show ?thesis using True late(2) unfolding same by simp blast
  next
    case False
    then have "m (w_cache (reg s)) v = Some e" using that unfolding put by simp
    then show ?thesis using late(1) assms unfolding same settled_def by blast
  qed
  then show ?thesis using assms unfolding settled_def same by blast
qed

lemma head_frame:
  assumes "reads_pure (sv_store S)" and "get_head L S u w = (x, w')"
  shows "w_store w' = w_store w" and "w_cache w' = w_cache w" and "w_notif w' = w_notif w"
  using assms by (auto simp: get_head_def reads_pure_simps reads_pure_get fail_with_def
      split: prod.splits option.splits if_splits)

lemma lookup_frame: "read_lookup u w = (x, w') \<Longrightarrow> w' = w"
  by (auto simp: read_lookup_def ttl_get_def)

lemma settled_step:
  assumes "write_step L S s s'" and "store_contract L (sv_store S)" and "sv_cache S = Some mem_cache"
    and "settled L S st0 s"
  shows "settled L S st0 s'"
  using assms(1)
proof cases
  case (Over ctx q r w)
  from check_frame [OF store_contractD(1) [OF assms(2)] Over(2)] show ?thesis
    unfolding Over(1) by (intro settled_world [OF assms(4)]) (auto simp: assms(3) cleared_entries split: if_splits)
next
  case (Check i ctx q c w)
  from check_frame [OF store_contractD(1) [OF assms(2)] Check(3)] show ?thesis
    unfolding Check(1)
    by (intro settled_enter [OF assms(4)]) (auto simp: Check(2) assms(3) cleared_entries split: if_splits)
next
  case (Store_fails i ctx q c e w)
  from store_frame [OF assms(2) Store_fails(3)] show ?thesis
    unfolding Store_fails(1) by (intro settled_enter [OF assms(4)]) (simp_all add: Store_fails(2))
next
  case (Store_branch i ctx q c w)
  from store_frame [OF assms(2) Store_branch(4)] Store_branch(3) show ?thesis
    unfolding Store_branch(1) by (intro settled_enter [OF assms(4)]) (simp_all add: Store_branch(2))
next
  case (Store i ctx q c w)
  from store_frame [OF assms(2) Store(4)] Store(3) show ?thesis
    unfolding Store(1) by (intro settled_store [OF assms(4) Store(2)]) simp_all
next
  case (Wipe i q c x w)
  from invalidate_eq [OF Wipe(3)] show ?thesis
    unfolding Wipe(1) by (intro settled_wipe [OF assms(4) Wipe(2)]) (simp_all add: assms(3))
next
  case (Tell i q c)
  show ?thesis
    unfolding Tell(1) by (intro settled_tell [OF assms(4) Tell(2)]) (simp_all add: notify_def split: option.splits)
next
  case (Read_hit i u r w)
  show ?thesis unfolding Read_hit(1) using lookup_frame [OF Read_hit(3)] assms(4) by simp
next
  case (Read_miss i u w)
  show ?thesis unfolding Read_miss(1)
    by (rule settled_reading [OF assms(4)]) (simp_all add: lookup_frame [OF Read_miss(3)])
next
  case (Read_load i u r w)
  from head_frame [OF store_contractD(1) [OF assms(2)] Read_load(3)] show ?thesis
    unfolding Read_load(1) by (intro settled_reading [OF assms(4)]) simp_all
next
  case (Read_fail i u e w)
  from head_frame [OF store_contractD(1) [OF assms(2)] Read_fail(3)] show ?thesis
    unfolding Read_fail(1) by (intro settled_reading [OF assms(4)]) simp_all
next
  case (Read_keep i u r t)
  show ?thesis unfolding Read_keep(1) by (rule settled_keep [OF assms(4)])
next
  case (Clear v x w)
  from invalidate_eq [OF Clear(2)] show ?thesis
    unfolding Clear(1) by (intro settled_world [OF assms(4)]) (auto simp: assms(3) cleared_entries split: if_splits)
next
  case (Expire d)
  show ?thesis unfolding Expire(1) by (rule settled_world [OF assms(4)]) (simp_all add: ttl_tick_def)
next
  case (Other st)
  show ?thesis unfolding Other(1) by (rule settled_world [OF assms(4)]) (simp_all add: Other(2))
qed

lemma settled_run:
  assumes "write_run L S s s'" and "store_contract L (sv_store S)" and "sv_cache S = Some mem_cache"
    and "settled L S st0 s"
  shows "settled L S st0 s'"
  using assms(1,4) by (induction rule: rtranclp_induct) (blast intro: settled_step [OF _ assms(2,3)])+

lemma settled_init: "coherent L (sv_store S) ttl_view w \<Longrightarrow> settled L S (w_store w) (site_init w)"
  by (auto simp: settled_def coherent_def ttl_view_def site_init_def)

text \<open>The history is what the notifier was told.\<close>

definition told :: "'nt notifier \<Rightarrow> (string \<times> string \<times> string) list \<Rightarrow> 'nt \<Rightarrow> 'nt" where
  "told n es nt = foldr (\<lambda>(u, h, c) x. snd (n_publish n u h c x)) es nt"

lemma told_step:
  assumes "write_step L S s s'" and "reads_pure (sv_store S)" and "sv_notifier S = Some n"
    and "w_notif (reg s) = told n (sent s) nt"
  shows "w_notif (reg s') = told n (sent s') nt"
  using assms(1)
proof cases
  case (Tell i q c)
  then show ?thesis using assms(3,4) by (simp add: told_def notify_def)
next
  case (Read_load i u r w)
  then show ?thesis using head_frame(3) [OF assms(2) Read_load(3)] assms(4) by simp
next
  case (Read_fail i u e w)
  then show ?thesis using head_frame(3) [OF assms(2) Read_fail(3)] assms(4) by simp
next
  case (Read_keep i u r t)
  then show ?thesis using assms(4) by (simp add: read_keep_def)
qed (use assms(4) check_frame(2) [OF assms(2)] in
  \<open>auto simp: publish_store_def on_store_def log_w_def split: prod.splits sum.splits dest!: invalidate_eq lookup_frame\<close>)

lemma told_run:
  assumes "write_run L S s s'" and "reads_pure (sv_store S)" and "sv_notifier S = Some n"
    and "w_notif (reg s) = told n (sent s) nt"
  shows "w_notif (reg s') = told n (sent s') nt"
  using assms(1,4) by (induction rule: rtranclp_induct) (blast intro: told_step [OF _ assms(2,3)])+

section \<open>When the publishes are through\<close>


section \<open>Two publishes that cross\<close>

text \<open>A publish that passes its checks against the world \<open>w\<close> and goes on to commit to main.\<close>

definition will_commit ::
  "'em lib \<Rightarrow> ('st, 'ca, 'nt, 'em) server \<Rightarrow> ctx \<Rightarrow> publish_req \<Rightarrow> ('st, 'ca, 'nt) world \<Rightarrow> bool" where
  "will_commit L S ctx q w \<longleftrightarrow> may_write L ctx (pq_uri q) \<and> to_main L q
     \<and> validate_prompt L (pq_uri q) (pq_template q) (pq_slots q) = None
     \<and> \<not> (\<exists>p. served (sv_store S) (w_store w) (pq_uri q) = (p, None) \<and> p_version_hash p = publish_hash L q)"

lemma check_commits:
  assumes "reads_pure (sv_store S)" and "will_commit L S ctx q w"
  obtains ls where "publish_check L S ctx q w
    = (Commit_as (publish_class L S (served (sv_store S) (w_store w) (pq_uri q)) (pq_template q)), log_w ls w)"
proof -
  have w: "may_write L ctx (pq_uri q)" "validate_prompt L (pq_uri q) (pq_template q) (pq_slots q) = None"
    "branchOr L (pq_branch q) = default_branch L"
    "\<not> (\<exists>p. served (sv_store S) (w_store w) (pq_uri q) = (p, None) \<and> p_version_hash p = publish_hash L q)"
    using assms(2) by (simp_all add: will_commit_def to_main_def)
  have "publish_check L S ctx q w = publish_precheck L S q (publish_hash L q) (default_branch L) w"
    unfolding publish_check_def may_write_simps [OF w(1)] w(2,3) publish_hash_def option.case by (rule refl)
  with precheck_main_change [OF assms(1) w(4)] that show ?thesis by metis
qed

lemma store_commits:
  assumes "to_main L q"
    and "st_commit (sv_store S) (pq_uri q) (default_branch L) (pq_template q) (pq_slots q) (ScopeOf ctx)
           (pq_message q) (w_store w) = (Inr h, st)"
  shows "publish_store L S ctx q w = (None, w\<lparr>w_store := st\<rparr>)"
  using assms by (simp add: publish_store_def on_store_def to_main_def)

text \<open>The two last phases of a publish on their own.\<close>

lemma finish_run:
  assumes "stage s i = Stored q c"
  obtains w where "w_store w = w_store (reg s)"
    and "write_run L S s ((enter i Resting w s)\<lparr>sent := (pq_uri q, publish_hash L q, c) # sent s\<rparr>)"
proof -
  obtain x w1 where iv: "invalidate (sv_cache S) (pq_uri q) (reg s) = (x, w1)" by fastforce
  let ?s1 = "enter i (Wiped q c) w1 s"
  let ?w = "notify S (pq_uri q) (publish_hash L q) c w1"
  have "write_step L S ?s1 ((enter i Resting ?w ?s1)\<lparr>sent := (pq_uri q, publish_hash L q, c) # sent s\<rparr>)"
    using write_step.Tell [of ?s1 i q c L S] by simp
  moreover have "enter i Resting ?w ?s1 = enter i Resting ?w s" by (simp add: enter_def)
  ultimately have "write_run L S s ((enter i Resting ?w s)\<lparr>sent := (pq_uri q, publish_hash L q, c) # sent s\<rparr>)"
    using write_step.Wipe [OF assms iv, of L] by simp
  moreover have "w_store ?w = w_store (reg s)"
    using invalidate_eq [OF iv] by (simp add: notify_def split: option.splits)
  ultimately show ?thesis using that by blast
qed

text \<open>Two publishes compared with one state and committed one after the other.\<close>

lemma both_stored:
  assumes "reads_pure (sv_store S)"
    and "will_commit L S ctxa qa w" and "will_commit L S ctxb qb w" and "pq_uri qa = u" and "pq_uri qb = u"
    and "served (sv_store S) (w_store w) u = (p, None)"
    and "st_commit (sv_store S) u (default_branch L) (pq_template qa) (pq_slots qa) (ScopeOf ctxa)
           (pq_message qa) (w_store w) = (Inr ha, sta)"
    and "st_commit (sv_store S) u (default_branch L) (pq_template qb) (pq_slots qb) (ScopeOf ctxb)
           (pq_message qb) sta = (Inr hb, stb)"
  obtains s where "write_run L S (site_init w) s" and "w_store (reg s) = stb" and "sent s = []"
    and "stage s = (\<lambda>_. Resting)(0 := Stored qa (fst (classify L S (p_template p) (pq_template qa))),
                                 1 := Stored qb (fst (classify L S (p_template p) (pq_template qb))))"
proof -
  have main: "to_main L qa" "to_main L qb" using assms(2,3) by (simp_all add: will_commit_def)
  let ?ca = "fst (classify L S (p_template p) (pq_template qa))"
  let ?cb = "fst (classify L S (p_template p) (pq_template qb))"
  obtain la where a: "publish_check L S ctxa qa w = (Commit_as ?ca, log_w la w)"
    using check_commits [OF assms(1,2)] by (auto simp: assms(4,6) publish_class_def)
  have "will_commit L S ctxb qb (log_w la w)" using assms(3) by (simp add: will_commit_def log_w_def)
  then obtain lb where b: "publish_check L S ctxb qb (log_w la w) = (Commit_as ?cb, log_w lb (log_w la w))"
    using check_commits [OF assms(1), of L ctxb qb "log_w la w"]
    by (auto simp: assms(5,6) publish_class_def)
  let ?w2 = "log_w lb (log_w la w)"
  let ?s1 = "enter 0 (Checked ctxa qa ?ca) (log_w la w) (site_init w)"
  let ?s2 = "enter 1 (Checked ctxb qb ?cb) ?w2 ?s1"
  let ?s3 = "enter 0 (Stored qa ?ca) (?w2\<lparr>w_store := sta\<rparr>) ?s2"
  let ?s4 = "enter 1 (Stored qb ?cb) (?w2\<lparr>w_store := stb\<rparr>) ?s3"
  have "write_step L S (site_init w) ?s1" using a by (intro write_step.Check) (simp_all add: site_init_def)
  moreover have "write_step L S ?s1 ?s2" using b by (intro write_step.Check) (simp_all add: site_init_def)
  moreover have "write_step L S ?s2 ?s3"
    using assms(4,7) store_commits [OF main(1), of S ctxa ?w2 ha sta]
    by (intro write_step.Store [OF _ main(1)]) simp_all
  moreover have "write_step L S ?s3 ?s4"
    using assms(5,8) store_commits [OF main(2), of S ctxb "?w2\<lparr>w_store := sta\<rparr>" hb stb]
    by (intro write_step.Store [OF _ main(2)]) simp_all
  ultimately have "write_run L S (site_init w) ?s4"
    by (meson converse_rtranclp_into_rtranclp rtranclp.rtrancl_refl)
  then show ?thesis by (rule that) (simp_all add: site_init_def fun_eq_iff)
qed

text \<open>
  C22. Publishes that cross are announced out of order and with a stale verdict. Two publishes of
  different content to one address, compared before either commits and ended in the other order than
  they committed: main serves the second, but the last event names the first, and the verdict of the
  second event compares with the version before both, not with the one it replaced. No publish
  that has committed is left to correct it.
\<close>

theorem publishes_can_cross:
  assumes "store_contract L (sv_store S)"
    and "will_commit L S ctxa qa w" and "will_commit L S ctxb qb w" and "pq_uri qa = u" and "pq_uri qb = u"
    and "served (sv_store S) (w_store w) u = (p, None)"
    and "st_commit (sv_store S) u (default_branch L) (pq_template qa) (pq_slots qa) (ScopeOf ctxa)
           (pq_message qa) (w_store w) = (Inr ha, sta)"
    and "st_commit (sv_store S) u (default_branch L) (pq_template qb) (pq_slots qb) (ScopeOf ctxb)
           (pq_message qb) sta = (Inr hb, stb)"
  shows "\<exists>s. write_run L S (site_init w) s \<and> (\<forall>v. \<not> in_flight L s v)
    \<and> served (sv_store S) (w_store (reg s)) u
        = (\<lparr>p_uri = u, p_template = pq_template qb, p_slots = pq_slots qb,
            p_version_hash = publish_hash L qb\<rparr>, None)
    \<and> sent s = [(u, publish_hash L qa, fst (classify L S (p_template p) (pq_template qa))),
                (u, publish_hash L qb, fst (classify L S (p_template p) (pq_template qb)))]"
proof -
  define ca where "ca = fst (classify L S (p_template p) (pq_template qa))"
  define cb where "cb = fst (classify L S (p_template p) (pq_template qb))"
  obtain s where s: "write_run L S (site_init w) s" "w_store (reg s) = stb" "sent s = []"
    "stage s = (\<lambda>_. Resting)(0 := Stored qa ca, 1 := Stored qb cb)"
    using both_stored [OF store_contractD(1) [OF assms(1)] assms(2-8)] unfolding ca_def cb_def .
  obtain w1 where w1: "w_store w1 = stb"
    and b: "write_run L S s ((enter 1 Resting w1 s)\<lparr>sent := (pq_uri qb, publish_hash L qb, cb) # sent s\<rparr>)"
    (is "write_run L S _ ?s1")
    by (rule finish_run [of s 1 qb cb L S]) (simp_all add: s(2,4))
  obtain w2 where w2: "w_store w2 = stb"
    and a: "write_run L S ?s1 ((enter 0 Resting w2 ?s1)\<lparr>sent := (pq_uri qa, publish_hash L qa, ca) # sent ?s1\<rparr>)"
    (is "write_run L S _ ?s2")
    by (rule finish_run [of ?s1 0 qa ca L S]) (simp_all add: w1 s(4))
  have main_b: "served (sv_store S) stb u = (\<lparr>p_uri = u, p_template = pq_template qb,
      p_slots = pq_slots qb, p_version_hash = publish_hash L qb\<rparr>, None)"
    using commit_contractD(2) [OF store_contractD(2) [OF assms(1)] assms(8)] by (simp add: publish_hash_def)
  show ?thesis
    unfolding ca_def [symmetric] cb_def [symmetric]
  proof (intro exI [of _ ?s2] conjI allI)
    show "write_run L S (site_init w) ?s2" using s(1) b a by (meson rtranclp_trans)
    show "\<not> in_flight L ?s2 v" for v by (simp add: in_flight_def s(4))
    show "served (sv_store S) (w_store (reg ?s2)) u = (\<lparr>p_uri = u, p_template = pq_template qb,
        p_slots = pq_slots qb, p_version_hash = publish_hash L qb\<rparr>, None)"
      using main_b by (simp add: w2)
    show "sent ?s2 = [(u, publish_hash L qa, ca), (u, publish_hash L qb, cb)]"
      by (simp add: assms(4,5) s(3))
  qed
qed

section \<open>Witnesses\<close>

text \<open>
  Main serves \<open>v1\<close>. One publish brings \<open>v2\<close>, the other keeps the template and adds a slot: against
  \<open>v1\<close> it changes nothing of the text, against \<open>v2\<close>, which it replaces, it is structural.
\<close>

definition slot_publish :: publish_req where
  "slot_publish = \<lparr>pq_uri = acme_uri, pq_template = ''v1'', pq_slots = [''x''], pq_message = ''m'', pq_branch = ''''\<rparr>"

lemma slot_publish_simps [simp]:
  "pq_uri slot_publish = acme_uri" "pq_template slot_publish = ''v1''" "pq_slots slot_publish = [''x'']"
  "pq_message slot_publish = ''m''" "pq_branch slot_publish = ''''"
  by (simp_all add: slot_publish_def)

lemma slot_commit: "\<exists>h st. sample_commit acme_uri ''main'' ''v1'' [''x''] ''acme'' ''m'' store_v2 = (Inr h, st)"
  by (simp add: sample_commit_def Let_def)

lemma sample_will_commit:
  "will_commit sample_lib race_server acme_writer (publish_of ''v2'' '''') race_world"
  "will_commit sample_lib race_server acme_writer slot_publish race_world"
  by (auto simp: will_commit_def to_main_def branchOr_def publish_hash_def served_v1 sample_hash_def)

theorem publishes_can_cross_witness:
  "\<exists>s. write_run sample_lib race_server (site_init race_world) s \<and> (\<forall>v. \<not> in_flight sample_lib s v)
    \<and> served sample_ops (w_store (reg s)) acme_uri
        = (\<lparr>p_uri = acme_uri, p_template = ''v1'', p_slots = [''x''], p_version_hash = sample_hash ''v1'' [''x'']\<rparr>, None)
    \<and> sent s = [(acme_uri, sample_hash ''v2'' [], ''structural''), (acme_uri, sample_hash ''v1'' [''x''], '''')]
    \<and> fst (classify sample_lib race_server ''v2'' ''v1'') = ''structural''"
proof -
  obtain h st where slot: "sample_commit acme_uri ''main'' ''v1'' [''x''] ''acme'' ''m'' store_v2 = (Inr h, st)"
    using slot_commit by blast
  have verdicts: "fst (classify sample_lib race_server ''v1'' ''v2'') = ''structural''"
    "fst (classify sample_lib race_server ''v1'' ''v1'') = ''''"
    "fst (classify sample_lib race_server ''v2'' ''v1'') = ''structural''"
    by (simp_all add: classify_def splitLines_def has_suffix_def sample_result_def)
  have "st_commit (sv_store race_server) acme_uri (default_branch sample_lib)
      (pq_template (publish_of ''v2'' '''')) (pq_slots (publish_of ''v2'' '''')) (ScopeOf acme_writer)
      (pq_message (publish_of ''v2'' '''')) (w_store race_world) = (Inr ''ccc'', store_v2)"
    and "st_commit (sv_store race_server) acme_uri (default_branch sample_lib) (pq_template slot_publish)
      (pq_slots slot_publish) (ScopeOf acme_writer) (pq_message slot_publish) store_v2 = (Inr h, st)"
    using commit_v2 slot by simp_all
  from publishes_can_cross [OF _ sample_will_commit _ _ _ this, of
      "\<lparr>p_uri = acme_uri, p_template = ''v1'', p_slots = [], p_version_hash = sample_hash ''v1'' []\<rparr>"]
  show ?thesis
    using verdicts by (simp add: served_v1 publish_hash_def sample_store_contract)
qed

text \<open>A publish of \<open>v2\<close> alone, to its end.\<close>

lemma solo_publish:
  "\<exists>s c. write_run sample_lib race_server (site_init race_world) s \<and> (\<forall>v. \<not> in_flight sample_lib s v)
     \<and> sent s = [(acme_uri, sample_hash ''v2'' [], c)] \<and> w_store (reg s) = store_v2"
proof -
  let ?q = "publish_of ''v2'' ''''"
  obtain ls c where check: "publish_check sample_lib race_server acme_writer ?q race_world = (Commit_as c, log_w ls race_world)"
    by (rule check_commits [OF _ sample_will_commit(1)]) (simp_all add: sample_pure)
  let ?s1 = "enter 0 (Checked acme_writer ?q c) (log_w ls race_world) (site_init race_world)"
  let ?s2 = "enter 0 (Stored ?q c) ((log_w ls race_world)\<lparr>w_store := store_v2\<rparr>) ?s1"
  have main: "to_main sample_lib ?q" by (simp add: to_main_def branchOr_def)
  have "write_step sample_lib race_server (site_init race_world) ?s1"
    using check by (intro write_step.Check) (simp_all add: site_init_def)
  moreover have "write_step sample_lib race_server ?s1 ?s2"
    using commit_v2 store_commits [OF main, of race_server acme_writer "log_w ls race_world" "''ccc''" store_v2]
    by (intro write_step.Store [OF _ main]) simp_all
  ultimately have run: "write_run sample_lib race_server (site_init race_world) ?s2" by simp
  obtain w where w: "w_store w = store_v2"
    and fin: "write_run sample_lib race_server ?s2
      ((enter 0 Resting w ?s2)\<lparr>sent := (pq_uri ?q, publish_hash sample_lib ?q, c) # sent ?s2\<rparr>)"
    by (rule finish_run [of ?s2 0 ?q c sample_lib race_server]) simp_all
  show ?thesis
    using rtranclp_trans [OF run fin] w
    by (intro exI [of _ c] exI) (auto simp: in_flight_def site_init_def publish_hash_def)
qed


end
