(* ===== verification/Server_Types.thy ===== *)
theory Server_Types
  imports Server_Access
begin

text \<open>
  The contract of the service a client is compiled against: every call is answered with the
  response type of its method, and fails only with one of the status codes the method can give.
  The judgements say which; the lemmas go through the handlers one by one.
\<close>

section \<open>The judgements\<close>

text \<open>The response message of each method, as the service interface declares it.\<close>

inductive resp_type :: "rpc \<Rightarrow> rpc_resp \<Rightarrow> bool" where
  publish_resp: "resp_type (RpcPublish q) (Hash_resp h)"
| get_resp: "resp_type (RpcGet q) (Prompt_resp r)"
| list_resp: "resp_type (RpcList p) (Entries_resp es)"
| diff_resp: "resp_type (RpcDiff q) (Changes_resp cs)"
| history_resp: "resp_type (RpcHistory q) (Commits_resp ps)"
| commits_resp: "resp_type (RpcListCommits u) (Commits_resp ps)"
| branches_resp: "resp_type (RpcListBranches u) (Branches_resp bs)"
| create_branch_resp: "resp_type (RpcCreateBranch q) (Hash_resp h)"
| merge_resp: "resp_type (RpcMerge q) (Hash_resp h)"
| diff_commits_resp: "resp_type (RpcDiffCommits q) (Changes_resp cs)"
| set_branch_resp: "resp_type (RpcSetBranch q) (Hash_resp h)"

declare resp_type.intros [intro!]

inductive_cases resp_type_RpcPublish [elim!]: "resp_type (RpcPublish q) r"
inductive_cases resp_type_RpcGet [elim!]: "resp_type (RpcGet q) r"
inductive_simps resp_type_Prompt [simp]: "resp_type q (Prompt_resp r)"

text \<open>What a failing store call can become, and what each method adds to it.\<close>

definition store_codes :: "code set" where
  "store_codes = {Canceled, DeadlineExceeded, NotFound, AlreadyExists, Aborted, Unavailable, Internal}"

fun own_codes :: "rpc \<Rightarrow> code set" where
  "own_codes (RpcPublish q) = {InvalidArgument}"
| "own_codes (RpcGet q) = {DataLoss}"
| "own_codes (RpcCreateBranch q) = (if bq_name q = '''' then {InvalidArgument} else {})"
| "own_codes (RpcSetBranch q) = (if sq_commit_hash q = '''' then {InvalidArgument} else {})"
| "own_codes _ = {}"

definition rpc_codes :: "rpc \<Rightarrow> code set" where
  "rpc_codes q = own_codes q \<union> store_codes"

text \<open>
  Who is refused, stated without the handlers: a caller outside the address's org, a listing of
  another org's prefix, and a read-only caller of a method that writes.
\<close>

definition refused :: "'em lib \<Rightarrow> ctx \<Rightarrow> rpc \<Rightarrow> bool" where
  "refused L ctx q \<longleftrightarrow>
     (case q of
        RpcList p \<Rightarrow> AuthorizePrefix L ctx (if p = '''' \<and> Scope ctx \<noteq> '''' then scheme L @ Scope ctx @ ''/'' else p) \<noteq> None
      | _ \<Rightarrow> (\<exists>u. rpc_uri q = Some u \<and> \<not> InScope L ctx u))
     \<or> (mutating q \<and> snd ctx \<and> \<not> id_write (fst ctx))"

text \<open>An outcome whose refusals lie in \<open>C\<close>.\<close>

definition codes_in :: "code set \<Rightarrow> (status + 'r) \<times> 'w \<Rightarrow> bool" where
  "codes_in C out \<longleftrightarrow> (case fst out of Inl e \<Rightarrow> st_code e \<in> C | Inr _ \<Rightarrow> True)"

section \<open>The codes of the helpers\<close>

lemma codes_in_simps [simp]:
  "codes_in C (Inl e, w) \<longleftrightarrow> st_code e \<in> C"
  "codes_in C (Inr r, w)"
  by (simp_all add: codes_in_def)

lemma codes_in_wrap [simp]: "codes_in C (wrap f x) \<longleftrightarrow> codes_in C x"
  by (cases x; cases "fst x") (auto simp: codes_in_def)

lemma status_codes [simp]:
  "st_code (status_error c t) = c"
  "st_code (status_errorf c f as) = c"
  by (simp_all add: status_error_def status_errorf_def)

lemma in_store_codes [simp]:
  "Canceled \<in> store_codes" "DeadlineExceeded \<in> store_codes" "NotFound \<in> store_codes"
  "AlreadyExists \<in> store_codes" "Aborted \<in> store_codes" "Unavailable \<in> store_codes"
  "Internal \<in> store_codes" "PermissionDenied \<notin> store_codes" "DataLoss \<notin> store_codes"
  "InvalidArgument \<notin> store_codes"
  by (simp_all add: store_codes_def)

lemma store_status_code [simp]: "st_code (fst (store_status op e)) \<in> store_codes"
  by (simp add: store_status_def)

lemma branchErr_code [simp]: "st_code (fst (branchErr e)) \<in> store_codes"
  by (simp add: branchErr_def)

lemma diffCommitErr_code [simp]: "st_code (fst (diffCommitErr e)) \<in> store_codes"
  by (simp add: diffCommitErr_def)

lemma codes_in_fail_with [simp]: "codes_in C (fail_with sl w) \<longleftrightarrow> st_code (fst sl) \<in> C"
  by (cases sl) (simp add: fail_with_def)

lemma Authorize_code: "Authorize L ctx u = Some e \<Longrightarrow> st_code e = PermissionDenied"
  by (rule Authorize_Some_code)

lemma invalidate_code:
  "invalidate c u w = (Some e, w') \<Longrightarrow> st_code e = Unavailable"
  by (auto simp: invalidate_def split: option.splits prod.splits)

lemma server_diff_code: "codes_in {Internal} (server_diff L S a b w)"
  by (simp add: server_diff_def split: sum.split)

lemma codes_in_mono: "codes_in C x \<Longrightarrow> C \<subseteq> D \<Longrightarrow> codes_in D x"
  by (auto simp: codes_in_def split: sum.splits)

section \<open>The codes of the handlers\<close>

lemma on_store_split:
  "P (on_store f w) \<longleftrightarrow> (\<forall>r s. f (w_store w) = (r, s) \<longrightarrow> P (r, w\<lparr>w_store := s\<rparr>))"
  by (simp add: on_store_def split: prod.split)

text \<open>A caller who is not \<open>refused\<close> passes the checks; what is left are the method's own codes.\<close>

lemma not_refused:
  assumes "\<not> refused L ctx q"
  shows "rpc_uri q = Some u \<Longrightarrow> Authorize L ctx u = None"
    and "mutating q \<Longrightarrow> RequireWrite ctx = None"
  using assms by (cases q; simp add: refused_def)+

lemmas code_splits = option.split prod.split sum.split publish_step.split

lemma write_pass [simp]: "snd ctx \<longrightarrow> id_write (fst ctx) \<Longrightarrow> RequireWrite ctx = None"
  by simp

lemma publish_precheck_codes:
  "publish_precheck L S q h b w = (Finish (Inl e), w') \<Longrightarrow> st_code e = Unavailable"
  by (auto simp: publish_precheck_def invalidate_code split: if_splits prod.splits sum.splits option.splits)

lemma publish_commit_codes: "codes_in (rpc_codes (RpcPublish q)) (publish_commit L S ctx r h b c w)"
  by (simp add: publish_commit_def rpc_codes_def Let_def invalidate_code split: code_splits)

lemma publish_codes:
  assumes "\<not> refused L ctx (RpcPublish q)"
  shows "codes_in (rpc_codes (RpcPublish q)) (PublishPrompt L S ctx q w)"
proof (cases "validate_prompt L (pq_uri q) (pq_template q) (pq_slots q)")
  case None
  obtain st w1 where pre: "publish_precheck L S q (store_hash L (pq_template q) (pq_slots q))
      (branchOr L (pq_branch q)) w = (st, w1)" by fastforce
  have codes: "codes_in (rpc_codes (RpcPublish q)) (r, w1)" if "st = Finish r" for r
    using publish_precheck_codes [of L S q _ _ w _ w1] pre that by (cases r) (auto simp: rpc_codes_def)
  show ?thesis
    using not_refused [OF assms] None pre codes publish_commit_codes
    by (cases st) (simp_all add: PublishPrompt_def Let_def)
next
  case (Some e)
  then show ?thesis
    using not_refused [OF assms] by (simp add: PublishPrompt_def rpc_codes_def)
qed

lemma get_codes:
  assumes "\<not> refused L ctx (RpcGet q)"
  shows "codes_in (rpc_codes (RpcGet q)) (GetPrompt L S ctx q w)"
proof -
  have head: "codes_in (rpc_codes (RpcGet q)) (get_head L S u w)" for u w
    by (simp add: get_head_def rpc_codes_def split: code_splits)
  have stored: "codes_in (rpc_codes (RpcGet q)) (getByRef L S u r w)" for u r w
    by (simp add: getByRef_def rpc_codes_def split: code_splits)
  show ?thesis
    using not_refused [OF assms] head stored
    by (simp add: GetPrompt_def Let_def split: code_splits) (metis codes_in_simps(1))
qed

lemma list_codes:
  assumes "\<not> refused L ctx (RpcList p)"
  shows "codes_in (rpc_codes (RpcList p)) (ListPrompts L S ctx p w)"
  using assms
  by (simp add: ListPrompts_def refused_def rpc_codes_def Let_def split: code_splits)

lemma server_diff_codes [simp]: "Internal \<in> C \<Longrightarrow> codes_in C (server_diff L S a b w)"
  by (rule codes_in_mono [OF server_diff_code]) simp

lemma diff_codes:
  assumes "\<not> refused L ctx (RpcDiff q)"
  shows "codes_in (rpc_codes (RpcDiff q)) (DiffPrompt L S ctx q w)"
  using not_refused [OF assms] by (simp add: DiffPrompt_def rpc_codes_def split: code_splits)

lemma history_codes:
  assumes "\<not> refused L ctx (RpcHistory q)"
  shows "codes_in (rpc_codes (RpcHistory q)) (History L S ctx q w)"
  using not_refused [OF assms] by (simp add: History_def rpc_codes_def split: code_splits)

lemma list_commits_codes:
  assumes "\<not> refused L ctx (RpcListCommits u)"
  shows "codes_in (rpc_codes (RpcListCommits u)) (ListCommits L S ctx u w)"
  using not_refused [OF assms] by (simp add: ListCommits_def rpc_codes_def split: code_splits)

lemma list_branches_codes:
  assumes "\<not> refused L ctx (RpcListBranches u)"
  shows "codes_in (rpc_codes (RpcListBranches u)) (ListBranches L S ctx u w)"
  using not_refused [OF assms] by (simp add: ListBranches_def rpc_codes_def split: code_splits)

lemma create_branch_codes:
  assumes "\<not> refused L ctx (RpcCreateBranch q)"
  shows "codes_in (rpc_codes (RpcCreateBranch q)) (CreateBranch L S ctx q w)"
  using not_refused [OF assms] by (simp add: CreateBranch_def rpc_codes_def split: code_splits)

lemma merge_codes:
  assumes "\<not> refused L ctx (RpcMerge q)"
  shows "codes_in (rpc_codes (RpcMerge q)) (MergeBranch L S ctx q w)"
  using not_refused [OF assms]
  by (simp add: MergeBranch_def rpc_codes_def Let_def invalidate_code split: code_splits)

lemma diff_commits_codes:
  assumes "\<not> refused L ctx (RpcDiffCommits q)"
  shows "codes_in (rpc_codes (RpcDiffCommits q)) (DiffCommits L S ctx q w)"
  using not_refused [OF assms] by (simp add: DiffCommits_def rpc_codes_def split: code_splits)

lemma set_branch_codes:
  assumes "\<not> refused L ctx (RpcSetBranch q)"
  shows "codes_in (rpc_codes (RpcSetBranch q)) (SetBranch L S ctx q w)"
  using not_refused [OF assms]
  by (simp add: SetBranch_def rpc_codes_def Let_def invalidate_code split: code_splits)

lemmas handler_codes = publish_codes get_codes list_codes diff_codes history_codes list_commits_codes
  list_branches_codes create_branch_codes merge_codes diff_commits_codes set_branch_codes

section \<open>The contract\<close>

lemma handle_codes: "\<not> refused L ctx q \<Longrightarrow> codes_in (rpc_codes q) (handle L S ctx q w)"
  by (cases q) (simp_all add: handler_codes)

lemma handle_type: "fst (handle L S ctx q w) = Inr r \<Longrightarrow> resp_type q r"
  by (cases q) (auto simp: map_sum_def split: sum.splits)

lemma refused_codes:
  assumes "refused L ctx q"
  shows "\<exists>e. handle L S ctx q w = (Inl e, w) \<and> st_code e = PermissionDenied"
proof -
  have listing: "\<exists>e. AuthorizePrefix L ctx p = Some e \<and> st_code e = PermissionDenied"
    if "AuthorizePrefix L ctx p \<noteq> None" for p
    using that by (cases ctx; cases "AuthorizePrefix L ctx p") (auto dest: AuthorizePrefix_Some_code)
  show ?thesis
  proof (cases "\<exists>p. q = RpcList p")
    case True
    then obtain p where q: "q = RpcList p" by blast
    define p' where "p' = (if p = '''' \<and> Scope ctx \<noteq> '''' then scheme L @ Scope ctx @ ''/'' else p)"
    have "AuthorizePrefix L ctx p' \<noteq> None"
      using assms q by (simp only: refused_def rpc.case mutating.simps simp_thms p'_def)
    then obtain e where e: "AuthorizePrefix L ctx p' = Some e" "st_code e = PermissionDenied"
      using listing by blast
    then have "handle L S ctx q w = (Inl e, w)"
      unfolding q handle.simps ListPrompts_def Let_def p'_def [symmetric] by simp
    then show ?thesis using e(2) by blast
  next
    case False
    then have "(\<exists>u. rpc_uri q = Some u \<and> \<not> InScope L ctx u) \<or> (mutating q \<and> snd ctx \<and> \<not> id_write (fst ctx))"
      using assms by (cases q) (auto simp: refused_def)
    then show ?thesis using out_of_scope_call_denied read_only_caller_cannot_write by blast
  qed
qed

text \<open>
  C4. The service keeps the interface its clients are compiled against. A call that succeeds is
  answered with the response message of its method. A call is refused with \<open>PermissionDenied\<close>
  exactly when the caller may not make it (another org's address or prefix, or a write by a
  read-only caller), and then nothing has happened. Every other failure carries one of the codes
  of its method: the seven a store error is translated to, \<open>InvalidArgument\<close> for an invalid
  prompt or a missing name, \<open>DataLoss\<close> for a stored prompt that no longer validates, and for
  \<open>CreateBranch\<close> and \<open>SetBranch\<close> with their name or hash present no \<open>InvalidArgument\<close> at all.
\<close>

theorem calls_are_typed:
  "case handle L S ctx q w of
     (Inr r, w') \<Rightarrow> \<not> refused L ctx q \<and> resp_type q r
   | (Inl e, w') \<Rightarrow>
       if refused L ctx q then st_code e = PermissionDenied \<and> w' = w
       else st_code e \<noteq> PermissionDenied \<and> st_code e \<in> rpc_codes q"
proof (cases "refused L ctx q")
  case True
  then show ?thesis using refused_codes [OF True, of S w] by auto
next
  case False
  have "PermissionDenied \<notin> rpc_codes q" by (cases q) (simp_all add: rpc_codes_def)
  with False show ?thesis
    using handle_codes [OF False, of S w] handle_type [of L S ctx q w]
    by (auto simp: codes_in_def split: prod.splits sum.splits)
qed

end
