(* ===== verification/Server_Listing.thy ===== *)
theory Server_Listing
  imports Server_Access
begin

text \<open>
  What a listing holds: no more and no less than the caller may see under the prefix asked for,
  although a caller with a scope and no prefix is listed by a prefix the handler makes up.
\<close>

section \<open>What the store's listing promises\<close>

text \<open>\<open>List\<close> gives the prompts under a prefix, each once, as \<open>Get\<close> would serve them.\<close>

definition list_law :: "'st store \<Rightarrow> 'st \<Rightarrow> bool" where
  "list_law st s \<longleftrightarrow> (\<forall>p ps. fst (st_list st p s) = Inr ps \<longrightarrow>
     distinct (map p_uri ps)
   \<and> (\<forall>u h. (\<exists>q\<in>set ps. p_uri q = u \<and> p_version_hash q = h)
        \<longleftrightarrow> has_prefix u p \<and> (\<exists>q. served st s u = (q, None) \<and> p_version_hash q = h)))"

text \<open>Every address that is served has an org, as validation demands when it is written.\<close>

definition addresses_ok :: "'em lib \<Rightarrow> 'st store \<Rightarrow> 'st \<Rightarrow> bool" where
  "addresses_ok L st s \<longleftrightarrow> (\<forall>u q. served st s u = (q, None) \<longrightarrow>
     (\<exists>o' t. CHR ''/'' \<notin> set o' \<and> u = scheme L @ o' @ ''/'' @ t))"

lemma in_scope_prefix:
  assumes "org_laws L" and "CHR ''/'' \<notin> set o'"
  shows "InScope L ctx (scheme L @ o' @ ''/'' @ t) \<longleftrightarrow> Scope ctx = '''' \<or> Scope ctx = o'"
  using assms by (simp add: InScope_def OrgOf_def org_laws_def Let_def)

lemma scope_listed_by_prefix:
  assumes "org_laws L" and "addresses_ok L st s" and "served st s u = (q, None)" and "Scope ctx \<noteq> ''''"
    and "InScope L ctx u"
  shows "has_prefix u (scheme L @ Scope ctx @ ''/'')"
proof -
  obtain o' t where o': "CHR ''/'' \<notin> set o'" "u = scheme L @ o' @ ''/'' @ t"
    using assms(2,3) unfolding addresses_ok_def by blast
  then have "Scope ctx = o'" using assms(4,5) in_scope_prefix [OF assms(1) o'(1)] by simp
  then show ?thesis using o'(2) by simp
qed

text \<open>
  C32. A listing is exact. Whatever prefix the caller gives, the empty one included, a listing that
  succeeds holds every prompt that is served under that prefix at an address of the caller's scope,
  once and with the version served, and nothing else.
\<close>

theorem listing_is_exact:
  assumes "list_law (sv_store S) (w_store w)" and "addresses_ok L (sv_store S) (w_store w)" and "org_laws L"
    and listed: "ListPrompts L S ctx p w = (Inr es, w')"
  shows "distinct (map pe_uri es)
    \<and> (\<forall>u h. (\<exists>e\<in>set es. pe_uri e = u \<and> pe_version_hash e = h)
         \<longleftrightarrow> has_prefix u p \<and> InScope L ctx u
           \<and> (\<exists>q. served (sv_store S) (w_store w) u = (q, None) \<and> p_version_hash q = h))"
proof -
  define p' where "p' = (if p = '''' \<and> Scope ctx \<noteq> '''' then scheme L @ Scope ctx @ ''/'' else p)"
  obtain ps where ps: "fst (st_list (sv_store S) p' (w_store w)) = Inr ps"
    and es: "es = map (\<lambda>p. \<lparr>pe_uri = p_uri p, pe_version_hash = p_version_hash p\<rparr>)
        (filter (\<lambda>p. InScope L ctx (p_uri p)) ps)"
    using listed unfolding ListPrompts_def Let_def p'_def [symmetric] on_store_case
    by (auto simp: fail_with_def split: option.splits sum.splits prod.splits)
  have "distinct (map p_uri ps)"
    and mem: "\<And>u h. (\<exists>q\<in>set ps. p_uri q = u \<and> p_version_hash q = h)
        \<longleftrightarrow> has_prefix u p' \<and> (\<exists>q. served (sv_store S) (w_store w) u = (q, None) \<and> p_version_hash q = h)"
    using assms(1) ps unfolding list_law_def by blast+
  then have "distinct (map p_uri (filter (\<lambda>p. InScope L ctx (p_uri p)) ps))"
    by (simp add: distinct_map_filter)
  then have once: "distinct (map pe_uri es)" unfolding es by (simp add: comp_def)
  have prefix: "has_prefix u p' \<longleftrightarrow> has_prefix u p"
    if "InScope L ctx u" and "served (sv_store S) (w_store w) u = (q, None)" for u q
    using scope_listed_by_prefix [OF assms(3,2) that(2) _ that(1)] by (auto simp: p'_def has_prefix_def)
  have "(\<exists>e\<in>set es. pe_uri e = u \<and> pe_version_hash e = h)
      \<longleftrightarrow> has_prefix u p \<and> InScope L ctx u \<and> (\<exists>q. served (sv_store S) (w_store w) u = (q, None) \<and> p_version_hash q = h)"
    for u h
  proof -
    have "(\<exists>e\<in>set es. pe_uri e = u \<and> pe_version_hash e = h)
        \<longleftrightarrow> InScope L ctx u \<and> (\<exists>q\<in>set ps. p_uri q = u \<and> p_version_hash q = h)"
      unfolding es by auto
    also have "\<dots> \<longleftrightarrow> InScope L ctx u \<and> has_prefix u p'
        \<and> (\<exists>q. served (sv_store S) (w_store w) u = (q, None) \<and> p_version_hash q = h)"
      unfolding mem by (rule refl)
    finally show ?thesis using prefix by auto
  qed
  with once show ?thesis by blast
qed

text \<open>
  The sample store with prompts of two orgs, of which one's name begins with the other's, listed by
  the whole name of the shorter one and with no prefix.
\<close>

definition two_orgs :: sample_store where
  "two_orgs = sample_empty\<lparr>s_heads :=
     [\<lparr>p_uri = acme_uri, p_template = ''t'', p_slots = [], p_version_hash = ''h1''\<rparr>,
      \<lparr>p_uri = ''priompt://acmecorp/r/p'', p_template = ''t'', p_slots = [], p_version_hash = ''h2''\<rparr>]\<rparr>"

lemma find_head_distinct:
  "distinct (map p_uri ps) \<Longrightarrow> find (\<lambda>p. p_uri p = u) ps = Some q \<longleftrightarrow> q \<in> set ps \<and> p_uri q = u"
  by (induction ps) auto

lemma two_orgs_laws: "list_law sample_ops two_orgs" "addresses_ok sample_lib sample_ops two_orgs"
proof -
  have dist: "distinct (map p_uri (s_heads two_orgs))" by (simp add: two_orgs_def acme_uri_def)
  have sv: "served sample_ops two_orgs u = (q, None) \<longleftrightarrow> q \<in> set (s_heads two_orgs) \<and> p_uri q = u" for u q
    using find_head_distinct [OF dist, of u q] by (auto simp: served_sample find_head_def split: option.splits)
  from dist
  show "list_law sample_ops two_orgs"
    unfolding list_law_def sv by (auto simp: sample_ops_def distinct_map_filter)
  have "\<exists>o' t. CHR ''/'' \<notin> set o' \<and> p_uri q = scheme sample_lib @ o' @ ''/'' @ t" if "q \<in> set (s_heads two_orgs)" for q
  proof -
    have "p_uri q = scheme sample_lib @ ''acme'' @ ''/'' @ ''r/p'' \<or> p_uri q = scheme sample_lib @ ''acmecorp'' @ ''/'' @ ''r/p''"
      using that by (auto simp: two_orgs_def acme_uri_def)
    moreover have "CHR ''/'' \<notin> set ''acme''" "CHR ''/'' \<notin> set ''acmecorp''" by simp_all
    ultimately show ?thesis by blast
  qed
  then show "addresses_ok sample_lib sample_ops two_orgs"
    unfolding addresses_ok_def sv by blast
qed

theorem listing_is_exact_witness:
  "\<exists>es w'. ListPrompts sample_lib (sample_server (Some mem_cache)) (caller ''acme'' False) ''priompt://acme''
        (sample_world sample_cache\<lparr>w_store := two_orgs\<rparr>) = (Inr es, w')
     \<and> map pe_uri es = [acme_uri]
     \<and> (\<forall>u h. has_prefix u ''priompt://acme'' \<and> InScope sample_lib (caller ''acme'' False) u
          \<and> (\<exists>q. served sample_ops two_orgs u = (q, None) \<and> p_version_hash q = h) \<longleftrightarrow> u = acme_uri \<and> h = ''h1'')"
proof -
  let ?r = "ListPrompts sample_lib (sample_server (Some mem_cache)) (caller ''acme'' False) ''priompt://acme''
        (sample_world sample_cache\<lparr>w_store := two_orgs\<rparr>)"
  have "fst ?r = Inr [\<lparr>pe_uri = acme_uri, pe_version_hash = ''h1''\<rparr>]"
    by (simp add: ListPrompts_def Let_def on_store_case AuthorizePrefix_def two_orgs_def)
       (simp add: sample_ops_def sample_lib_def InScope_def OrgOf_def trim_prefix_def acme_uri_def)
  then obtain w' where r: "?r = (Inr [\<lparr>pe_uri = acme_uri, pe_version_hash = ''h1''\<rparr>], w')"
    by (metis prod.collapse)
  have stored: "w_store (sample_world sample_cache\<lparr>w_store := two_orgs\<rparr>) = two_orgs" by (simp add: sample_world_def)
  have laws: "list_law (sv_store (sample_server (Some mem_cache))) (w_store (sample_world sample_cache\<lparr>w_store := two_orgs\<rparr>))"
    "addresses_ok sample_lib (sv_store (sample_server (Some mem_cache))) (w_store (sample_world sample_cache\<lparr>w_store := two_orgs\<rparr>))"
    using two_orgs_laws by simp_all
  note exact = conjunct2 [OF listing_is_exact [OF laws sample_org_laws r]]
  have "has_prefix u ''priompt://acme'' \<and> InScope sample_lib (caller ''acme'' False) u
      \<and> (\<exists>q. served sample_ops two_orgs u = (q, None) \<and> p_version_hash q = h) \<longleftrightarrow> u = acme_uri \<and> h = ''h1''" for u h
  proof -
    have "has_prefix u ''priompt://acme'' \<and> InScope sample_lib (caller ''acme'' False) u
        \<and> (\<exists>q. served sample_ops two_orgs u = (q, None) \<and> p_version_hash q = h)
        \<longleftrightarrow> (\<exists>e\<in>set [\<lparr>pe_uri = acme_uri, pe_version_hash = ''h1''\<rparr>]. pe_uri e = u \<and> pe_version_hash e = h)"
      using spec [OF spec [OF exact], of u h] by (simp only: sample_server_simps world.simps stored)
    then show ?thesis by auto
  qed
  note seen = this
  show ?thesis by (intro exI conjI allI, rule r, simp, rule seen)
qed

end
