(* ===== verification/Nats_Subject.thy ===== *)
theory Nats_Subject
  imports Registry_Deps
begin

text \<open>
  From prompt addresses to NATS subjects, \<open>Subject\<close>, \<open>OrgSubject\<close> and \<open>subjectToken\<close> of
  \<open>internal/pubsub/pubsub.go\<close>, with a decoder that shows the encoding loses nothing.
\<close>

section \<open>Definitions\<close>

text \<open>\<open>%02X\<close> of a byte.\<close>

definition hex_digit :: "nat \<Rightarrow> char" where
  "hex_digit n = char_of (if n < 10 then 48 + n else 55 + n)"

definition hex_byte :: "char \<Rightarrow> string" where
  "hex_byte c = [hex_digit (of_char c div 16), hex_digit (of_char c mod 16)]"

definition token_char :: "char \<Rightarrow> bool" where
  "token_char c \<longleftrightarrow> (let n = of_char c :: nat in
     97 \<le> n \<and> n \<le> 122 \<or> 65 \<le> n \<and> n \<le> 90 \<or> 48 \<le> n \<and> n \<le> 57 \<or> c = CHR ''_'' \<or> c = CHR ''-'')"

fun subjectToken :: "string \<Rightarrow> string" where
  "subjectToken [] = []"
| "subjectToken (c # s) = (if token_char c then [c] else CHR ''%'' # hex_byte c) @ subjectToken s"

definition Subject :: "'em lib \<Rightarrow> string \<Rightarrow> string" where
  "Subject L uri =
     ''priompt.'' @ join ''.'' (map subjectToken (split_on (CHR ''/'') (trim_prefix uri (scheme L))))"

definition OrgSubject :: "string \<Rightarrow> string" where
  "OrgSubject o' = ''priompt.'' @ subjectToken o' @ ''.>''"

section \<open>The encoding\<close>

text \<open>
  What the subject mapping needs of the token encoding: it can be undone, and what it writes
  contains neither the separator nor a wildcard.
\<close>

locale token_codec =
  fixes enc :: "string \<Rightarrow> string" and dec :: "string \<Rightarrow> string"
  assumes dec_enc: "dec (enc s) = s"
    and enc_chars: "c \<in> set (enc s) \<Longrightarrow> c \<noteq> CHR ''.'' \<and> c \<noteq> CHR ''*'' \<and> c \<noteq> CHR ''>''"
begin

lemma enc_inject: "enc s = enc t \<longleftrightarrow> s = t"
  using dec_enc by metis

lemma no_dot: "CHR ''.'' \<notin> set (enc s)"
  using enc_chars by blast

text \<open>A list of segments can be read back from its joined tokens.\<close>

lemma join_enc_inject:
  assumes "xs \<noteq> []" and "ys \<noteq> []"
  shows "join ''.'' (map enc xs) = join ''.'' (map enc ys) \<longleftrightarrow> xs = ys"
proof
  assume eq: "join ''.'' (map enc xs) = join ''.'' (map enc ys)"
  have split: "split_on (CHR ''.'') (join ''.'' (map enc zs)) = map enc zs" if "zs \<noteq> []" for zs
    using that no_dot by (intro split_on_join) auto
  have "map enc xs = map enc ys" using split [OF assms(1)] split [OF assms(2)] eq by metis
  then show "xs = ys" by (simp add: inj_map_eq_map inj_def enc_inject)
qed simp

lemma join_enc_chars:
  "c \<in> set (join ''.'' (map enc xs)) \<Longrightarrow> c \<noteq> CHR ''*'' \<and> c \<noteq> CHR ''>''"
proof -
  assume "c \<in> set (join ''.'' (map enc xs))"
  then have "c = CHR ''.'' \<or> (\<exists>x. c \<in> set (enc x))"
    using set_join [of "CHR ''.''" "map enc xs"] by auto
  then show ?thesis using enc_chars by auto
qed

text \<open>The first token is the encoding of the first segment and nothing longer.\<close>

lemma join_enc_prefix:
  assumes "xs \<noteq> []"
  shows "(\<exists>t. join ''.'' (map enc xs) = enc o' @ ''.'' @ t) \<longleftrightarrow> hd xs = o' \<and> tl xs \<noteq> []"
proof -
  obtain x ys where xs: "xs = x # ys" using assms by (cases xs) auto
  show ?thesis
  proof (cases "ys = []")
    case True
    have "enc x \<noteq> enc o' @ ''.'' @ t" for t using no_dot [of x] by auto
    with True xs show ?thesis by simp
  next
    case False
    then have "join ''.'' (map enc xs) = enc x @ ''.'' @ join ''.'' (map enc ys)"
      using xs by (simp add: join_Cons)
    moreover have "enc x @ CHR ''.'' # a = enc o' @ CHR ''.'' # b \<longleftrightarrow> enc x = enc o' \<and> a = b" for a b
      using append_sep_inject [of "CHR ''.''" "enc x" "enc o'" a b] no_dot by auto
    ultimately show ?thesis using False xs enc_inject by auto
  qed
qed

end

definition hex_value :: "char \<Rightarrow> nat" where
  "hex_value c = (let n = of_char c in if n < 58 then n - 48 else n - 55)"

fun subject_untoken :: "string \<Rightarrow> string" where
  "subject_untoken (c # a # b # s) =
     (if c = CHR ''%'' then char_of (16 * hex_value a + hex_value b) # subject_untoken s
      else c # subject_untoken (a # b # s))"
| "subject_untoken s = s"

lemma hex_value_digit: "n < 16 \<Longrightarrow> hex_value (hex_digit n) = n"
  by (auto simp: hex_value_def hex_digit_def Let_def)

lemma hex_digit_chars: "n < 16 \<Longrightarrow> token_char (hex_digit n)"
  by (auto simp: token_char_def hex_digit_def Let_def)

lemma token_char_special:
  "\<not> token_char (CHR ''%'')" "\<not> token_char (CHR ''.'')" "\<not> token_char (CHR ''*'')" "\<not> token_char (CHR ''>'')"
  by (simp_all add: token_char_def)

lemma nibbles: "of_char c div 16 < (16 :: nat)" "of_char c mod 16 < (16 :: nat)"
  using nat_of_char_less_256 [of c] by (simp_all add: less_mult_imp_div_less)

lemma subjectToken_chars: "c \<in> set (subjectToken s) \<Longrightarrow> token_char c \<or> c = CHR ''%''"
  by (induction s) (auto simp: hex_byte_def hex_digit_chars nibbles split: if_splits)

lemma untoken_plain: "c \<noteq> CHR ''%'' \<Longrightarrow> subject_untoken (c # s) = c # subject_untoken s"
  by (cases s rule: subject_untoken.cases) auto

lemma untoken_token: "subject_untoken (subjectToken s) = s"
proof (induction s)
  case (Cons c s)
  have v: "hex_value (hex_digit (of_char c div 16)) = of_char c div 16"
    "hex_value (hex_digit (of_char c mod 16)) = of_char c mod 16"
    using nibbles [of c] by (simp_all only: hex_value_digit)
  show ?case
  proof (cases "token_char c")
    case True
    then have "c \<noteq> CHR ''%''" using token_char_special(1) by blast
    with True Cons show ?thesis by (simp add: untoken_plain)
  next
    case False
    with Cons v show ?thesis by (simp add: hex_byte_def)
  qed
qed simp

interpretation subj: token_codec subjectToken subject_untoken
proof
  show "subject_untoken (subjectToken s) = s" for s by (rule untoken_token)
  show "c \<noteq> CHR ''.'' \<and> c \<noteq> CHR ''*'' \<and> c \<noteq> CHR ''>''" if "c \<in> set (subjectToken s)" for c s
    using subjectToken_chars [OF that] token_char_special by auto
qed

section \<open>Subjects\<close>

text \<open>
  Distinct addresses get distinct subjects, and no address can forge a wildcard: two addresses
  under the scheme have the same subject only if they are the same, and no subject contains
  \<open>*\<close> or \<open>>\<close>.
\<close>

theorem subject_injective:
  "(Subject L (scheme L @ x) = Subject L (scheme L @ y) \<longleftrightarrow> x = y)
   \<and> CHR ''*'' \<notin> set (Subject L u) \<and> CHR ''>'' \<notin> set (Subject L u)"
proof (intro conjI)
  show "Subject L (scheme L @ x) = Subject L (scheme L @ y) \<longleftrightarrow> x = y"
    unfolding Subject_def by (simp add: subj.join_enc_inject split_on_inject)
  show "CHR ''*'' \<notin> set (Subject L u)" "CHR ''>'' \<notin> set (Subject L u)"
    using subj.join_enc_chars unfolding Subject_def by fastforce+
qed

section \<open>Subscriptions\<close>

text \<open>
  Whether a subscription (or permission) subject covers the subject of a message is the NATS
  server's matching, a parameter. What the program relies on is its documentation: a subject
  without wildcards covers itself alone, and a trailing \<open>>\<close> covers one or more further tokens.
\<close>

definition wildcard_free :: "string \<Rightarrow> bool" where
  "wildcard_free s \<longleftrightarrow> CHR ''*'' \<notin> set s \<and> CHR ''>'' \<notin> set s"

definition nats_match_laws :: "(string \<Rightarrow> string \<Rightarrow> bool) \<Rightarrow> bool" where
  "nats_match_laws covers \<longleftrightarrow>
     (\<forall>p s. wildcard_free p \<longrightarrow> (covers p s \<longleftrightarrow> p = s))
   \<and> (\<forall>p s. wildcard_free p \<longrightarrow> (covers (p @ ''.>'') s \<longleftrightarrow> (\<exists>t. t \<noteq> '''' \<and> s = p @ ''.'' @ t)))"

lemma wildcard_free_token: "wildcard_free (''priompt.'' @ subjectToken s)"
  using subj.enc_chars by (auto simp: wildcard_free_def)

lemma wildcard_free_Subject: "wildcard_free (Subject L u)"
  using subj.join_enc_chars unfolding Subject_def wildcard_free_def by fastforce

lemma split_on_two: "CHR ''/'' \<notin> set a \<Longrightarrow> split_on (CHR ''/'') (a @ ''/'' @ t) = a # split_on (CHR ''/'') t"
  using split_on_append_sep [of "CHR ''/''" a t] by simp

lemma Subject_org:
  assumes "CHR ''/'' \<notin> set o'"
  shows "Subject L (scheme L @ o' @ ''/'' @ t) = ''priompt.'' @ join ''.'' (map subjectToken (o' # split_on (CHR ''/'') t))"
  using assms split_on_two by (simp add: Subject_def)

lemma join_tokens_Nil: "join ''.'' (map subjectToken (split_on (CHR ''/'') t)) = '''' \<longleftrightarrow> t = ''''"
  using subj.join_enc_inject [of "split_on (CHR ''/'') t" "['''']"] split_on_inject [of "CHR ''/''" t "''''"]
  by simp

lemma org_subject_iff:
  assumes "nats_match_laws covers" and "CHR ''/'' \<notin> set a" and "CHR ''/'' \<notin> set b"
  shows "covers (OrgSubject a) (Subject L (scheme L @ b @ ''/'' @ t)) \<longleftrightarrow> a = b \<and> t \<noteq> ''''"
proof -
  have cov: "covers (OrgSubject a) s \<longleftrightarrow> (\<exists>t. t \<noteq> '''' \<and> s = ''priompt.'' @ subjectToken a @ ''.'' @ t)" for s
  proof -
    have "covers ((''priompt.'' @ subjectToken a) @ ''.>'') s
        \<longleftrightarrow> (\<exists>t. t \<noteq> '''' \<and> s = (''priompt.'' @ subjectToken a) @ ''.'' @ t)"
      using assms(1) wildcard_free_token [of a] unfolding nats_match_laws_def by blast
    then show ?thesis by (simp add: OrgSubject_def)
  qed
  show ?thesis
  proof (cases "a = b")
    case True
    then show ?thesis
      unfolding cov Subject_org [OF assms(3)] by (simp add: join_Cons join_tokens_Nil)
  next
    case False
    then show ?thesis
      unfolding cov Subject_org [OF assms(3)]
      using subj.join_enc_prefix [of "b # split_on (CHR ''/'') t" a] by auto
  qed
qed

text \<open>
  The subscription a credential of one org gets covers that org's prompts and no other's: the
  org subject of \<open>a\<close> covers the change events of every prompt of \<open>a\<close>, and of no prompt of an org
  with another name, one that extends \<open>a\<close> with a dot included.
\<close>

theorem org_subject_covers_own_org_only:
  assumes "nats_match_laws covers" and "CHR ''/'' \<notin> set a" and "CHR ''/'' \<notin> set b"
  shows "(t \<noteq> '''' \<longrightarrow> covers (OrgSubject a) (Subject L (scheme L @ a @ ''/'' @ t)))
       \<and> (a \<noteq> b \<longrightarrow> \<not> covers (OrgSubject a) (Subject L (scheme L @ b @ ''/'' @ t)))"
  using org_subject_iff [OF assms(1)] assms(2,3) by blast

text \<open>An instance of the matching, for subjects that end in at most one wildcard.\<close>

definition tail_match :: "string \<Rightarrow> string \<Rightarrow> bool" where
  "tail_match p s \<longleftrightarrow>
     (if has_suffix p ''.>'' then has_prefix s (butlast p) \<and> length (butlast p) < length s else p = s)"

lemma tail_match_laws: "nats_match_laws tail_match"
  unfolding nats_match_laws_def
proof (intro conjI allI impI)
  show "tail_match p s \<longleftrightarrow> p = s" if "wildcard_free p" for p s
    using that by (auto simp: tail_match_def wildcard_free_def has_suffix_iff)
  show "tail_match (p @ ''.>'') s \<longleftrightarrow> (\<exists>t. t \<noteq> '''' \<and> s = p @ ''.'' @ t)" for p s
    by (auto simp: tail_match_def has_suffix_iff has_prefix_iff butlast_append)
qed

theorem org_subject_covers_own_org_only_witness:
  "nats_match_laws tail_match
   \<and> (\<forall>L::unit lib. tail_match (OrgSubject ''acme'') (Subject L (scheme L @ ''acme'' @ ''/'' @ ''support/agent''))
        \<and> \<not> tail_match (OrgSubject ''acme'') (Subject L (scheme L @ ''acme.corp'' @ ''/'' @ ''support/agent'')))"
proof (intro conjI allI)
  fix L :: "unit lib"
  show "tail_match (OrgSubject ''acme'') (Subject L (scheme L @ ''acme'' @ ''/'' @ ''support/agent''))"
    using org_subject_covers_own_org_only [OF tail_match_laws, of "''acme''" "''acme''" "''support/agent''" L] by simp
  show "\<not> tail_match (OrgSubject ''acme'') (Subject L (scheme L @ ''acme.corp'' @ ''/'' @ ''support/agent''))"
    using org_subject_covers_own_org_only [OF tail_match_laws, of "''acme''" "''acme.corp''" "''support/agent''" L] by simp
qed (rule tail_match_laws)

end
