(* ===== verification/Go_Url.thy ===== *)
theory Go_Url
  imports Go_Prelude
begin

text \<open>
  \<open>url.Parse\<close> of Go's \<open>net/url\<close> (Go 1.25.0), as the broker's cluster routes and the command
  line's connection string use it: which texts it refuses, and the host and user information it
  finds. An error is \<open>None\<close>; its text is only ever printed.
\<close>

section \<open>Definitions\<close>

text \<open>\<open>url.Userinfo\<close>: a user name, and a password if one was given. \<open>None\<close> is a nil \<open>*Userinfo\<close>.\<close>

record userinfo =
  ui_username :: string
  ui_password :: "string option"

record go_url =
  u_scheme :: string
  u_opaque :: string
  u_user :: "userinfo option"
  u_host :: string
  u_path :: string
  u_query :: string
  u_fragment :: string

definition url_User :: "string \<Rightarrow> userinfo" where
  "url_User name = \<lparr>ui_username = name, ui_password = None\<rparr>"

definition url_UserPassword :: "string \<Rightarrow> string \<Rightarrow> userinfo" where
  "url_UserPassword name pw = \<lparr>ui_username = name, ui_password = Some pw\<rparr>"

text \<open>\<open>(*Userinfo).Username\<close> of a nil receiver is empty.\<close>

definition user_name :: "userinfo option \<Rightarrow> string" where
  "user_name u = (case u of None \<Rightarrow> '''' | Some i \<Rightarrow> ui_username i)"

text \<open>\<open>strings.Cut\<close> at the first occurrence of a byte: before, after, found.\<close>

fun cut_at :: "char \<Rightarrow> string \<Rightarrow> string \<times> string \<times> bool" where
  "cut_at d [] = ([], [], False)"
| "cut_at d (c # s) = (if c = d then ([], s, True) else (case cut_at d s of (a, b, f) \<Rightarrow> (c # a, b, f)))"

definition byte_between :: "nat \<Rightarrow> char \<Rightarrow> nat \<Rightarrow> bool" where
  "byte_between a c b \<longleftrightarrow> a \<le> of_char c \<and> of_char c \<le> b"

definition is_alpha :: "char \<Rightarrow> bool" where
  "is_alpha c \<longleftrightarrow> byte_between 97 c 122 \<or> byte_between 65 c 90"

definition is_digit :: "char \<Rightarrow> bool" where
  "is_digit c \<longleftrightarrow> byte_between 48 c 57"

definition is_alnum :: "char \<Rightarrow> bool" where
  "is_alnum c \<longleftrightarrow> is_alpha c \<or> is_digit c"

definition is_hex :: "char \<Rightarrow> bool" where
  "is_hex c \<longleftrightarrow> is_digit c \<or> byte_between 97 c 102 \<or> byte_between 65 c 70"

definition unhex :: "char \<Rightarrow> nat" where
  "unhex c = (if is_digit c then of_char c - 48
              else if byte_between 97 c 102 then of_char c - 87 else of_char c - 55)"

text \<open>The modes of escaping that parsing uses.\<close>

datatype url_mode = Enc_path | Enc_host | Enc_zone | Enc_user | Enc_fragment

text \<open>\<open>shouldEscape\<close> of a byte in a host or zone.\<close>

definition host_escape :: "char \<Rightarrow> bool" where
  "host_escape c \<longleftrightarrow> \<not> is_alnum c \<and> c \<notin> set ''!$&()*+,;=:[]<>-_.~'' \<and> c \<noteq> CHR 0x27 \<and> c \<noteq> CHR 0x22"

fun unescape :: "url_mode \<Rightarrow> string \<Rightarrow> string option" where
  "unescape mode [] = Some []"
| "unescape mode (c # s) =
     (if c = CHR ''%'' then
        (case s of
           a # b # t \<Rightarrow>
             if \<not> is_hex a \<or> \<not> is_hex b then None
             else if mode = Enc_host \<and> unhex a < 8 \<and> \<not> (a = CHR ''2'' \<and> b = CHR ''5'') then None
             else if mode = Enc_zone \<and> \<not> (a = CHR ''2'' \<and> b = CHR ''5'')
                     \<and> 16 * unhex a + unhex b \<noteq> 32 \<and> host_escape (char_of (16 * unhex a + unhex b)) then None
             else map_option ((#) (char_of (16 * unhex a + unhex b))) (unescape mode t)
         | _ \<Rightarrow> None)
      else if (mode = Enc_host \<or> mode = Enc_zone) \<and> of_char c < (128 :: nat) \<and> host_escape c then None
      else map_option ((#) c) (unescape mode s))"

text \<open>\<open>getScheme\<close>: scheme and rest; \<open>None\<close> is the error. \<open>acc\<close> is what was read, reversed.\<close>

fun scan_scheme :: "string \<Rightarrow> string \<Rightarrow> string \<Rightarrow> (string \<times> string) option" where
  "scan_scheme raw acc [] = Some ([], raw)"
| "scan_scheme raw acc (c # s) =
     (if is_alpha c then scan_scheme raw (c # acc) s
      else if is_digit c \<or> c = CHR ''+'' \<or> c = CHR ''-'' \<or> c = CHR ''.'' then
        (if acc = [] then Some ([], raw) else scan_scheme raw (c # acc) s)
      else if c = CHR '':'' then (if acc = [] then None else Some (rev acc, s))
      else Some ([], raw))"

definition getScheme :: "string \<Rightarrow> (string \<times> string) option" where
  "getScheme raw = scan_scheme raw [] raw"

definition validOptionalPort :: "string \<Rightarrow> bool" where
  "validOptionalPort port \<longleftrightarrow> (case port of [] \<Rightarrow> True | c # ds \<Rightarrow> c = CHR '':'' \<and> list_all is_digit ds)"

definition validUserinfo :: "string \<Rightarrow> bool" where
  "validUserinfo s \<longleftrightarrow> list_all (\<lambda>c. is_alnum c \<or> c \<in> set ''-._:~!$&()*+,;=%@'' \<or> c = CHR 0x27) s"

definition parseHost :: "string \<Rightarrow> string option" where
  "parseHost host =
     (if has_prefix host ''['' then
        (case last_index_of host (CHR '']'') of
           None \<Rightarrow> None
         | Some i \<Rightarrow>
             if \<not> validOptionalPort (drop (Suc i) host) then None
             else (case index_of (take i host) ''%25'' of
                     None \<Rightarrow> unescape Enc_host host
                   | Some z \<Rightarrow>
                       (case (unescape Enc_host (take z host), unescape Enc_zone (drop z (take i host)),
                              unescape Enc_host (drop i host)) of
                          (Some h1, Some h2, Some h3) \<Rightarrow> Some (h1 @ h2 @ h3)
                        | _ \<Rightarrow> None)))
      else (case last_index_of host (CHR '':'') of
              None \<Rightarrow> unescape Enc_host host
            | Some i \<Rightarrow> if validOptionalPort (drop i host) then unescape Enc_host host else None))"

definition parseAuthority :: "string \<Rightarrow> (userinfo option \<times> string) option" where
  "parseAuthority authority =
     (case last_index_of authority (CHR ''@'') of
        None \<Rightarrow> map_option (Pair None) (parseHost authority)
      | Some i \<Rightarrow>
          (case parseHost (drop (Suc i) authority) of
             None \<Rightarrow> None
           | Some host \<Rightarrow>
               (let ui = take i authority in
                if \<not> validUserinfo ui then None
                else (case cut_at (CHR '':'') ui of
                        (name, pw, False) \<Rightarrow>
                          map_option (\<lambda>n. (Some (url_User n), host)) (unescape Enc_user ui)
                      | (name, pw, True) \<Rightarrow>
                          (case (unescape Enc_user name, unescape Enc_user pw) of
                             (Some n, Some p) \<Rightarrow> Some (Some (url_UserPassword n p), host)
                           | _ \<Rightarrow> None)))))"

text \<open>\<open>parse\<close>, for a URL that is not from a request.\<close>

definition url_parse_nofrag :: "string \<Rightarrow> go_url option" where
  "url_parse_nofrag raw =
     (if list_ex (\<lambda>c. of_char c < (32 :: nat) \<or> of_char c = (127 :: nat)) raw then None
      else if raw = ''*'' then Some \<lparr>u_scheme = [], u_opaque = [], u_user = None, u_host = [],
                                     u_path = ''*'', u_query = [], u_fragment = []\<rparr>
      else (case getScheme raw of
         None \<Rightarrow> None
       | Some (sch, rest) \<Rightarrow>
           (case cut_at (CHR ''?'') rest of (rest, query, _) \<Rightarrow>
              (let sch = to_lower sch;
                   url = \<lparr>u_scheme = sch, u_opaque = [], u_user = None, u_host = [],
                          u_path = [], u_query = query, u_fragment = []\<rparr>
               in if \<not> has_prefix rest ''/'' \<and> sch \<noteq> [] then Some (url\<lparr>u_opaque := rest\<rparr>)
                  else if \<not> has_prefix rest ''/'' \<and> CHR '':'' \<in> set (fst (cut_at (CHR ''/'') rest)) then None
                  else if (sch \<noteq> [] \<or> \<not> has_prefix rest ''///'') \<and> has_prefix rest ''//'' then
                    (case cut_at (CHR ''/'') (drop 2 rest) of (authority, path, found) \<Rightarrow>
                       (case parseAuthority authority of
                          None \<Rightarrow> None
                        | Some (user, host) \<Rightarrow>
                            map_option (\<lambda>p. url\<lparr>u_user := user, u_host := host, u_path := p\<rparr>)
                              (unescape Enc_path (if found then CHR ''/'' # path else []))))
                  else map_option (\<lambda>p. url\<lparr>u_path := p\<rparr>) (unescape Enc_path rest)))))"

definition url_parse :: "string \<Rightarrow> go_url option" where
  "url_parse raw =
     (case cut_at (CHR ''#'') raw of (u, frag, _) \<Rightarrow>
        (case url_parse_nofrag u of
           None \<Rightarrow> None
         | Some url \<Rightarrow>
             if frag = [] then Some url
             else map_option (\<lambda>f. url\<lparr>u_fragment := f\<rparr>) (unescape Enc_fragment frag)))"

section \<open>Lemmas\<close>

lemma cut_at_absent [simp, go_str]: "d \<notin> set s \<Longrightarrow> cut_at d s = (s, [], False)"
  by (induction s) auto

lemma cut_at_append [simp, go_str]: "d \<notin> set a \<Longrightarrow> cut_at d (a @ d # s) = (a, s, True)"
  by (induction a) auto

lemma unescape_plain:
  assumes "CHR ''%'' \<notin> set s" and "mode = Enc_host \<or> mode = Enc_zone \<Longrightarrow> \<forall>c\<in>set s. \<not> host_escape c"
  shows "unescape mode s = Some s"
  using assms by (induction s) auto

lemma last_index_of_append: "c \<notin> set b \<Longrightarrow> last_index_of (a @ c # b) c = Some (length a)"
proof (induction a)
  case Nil
  then show ?case using last_index_of_None [of b c] by (simp del: last_index_of_None)
qed simp

text \<open>Bytes that stand for themselves everywhere in an authority.\<close>

definition plain_byte :: "char \<Rightarrow> bool" where
  "plain_byte c \<longleftrightarrow> is_alnum c \<or> c = CHR ''-'' \<or> c = CHR ''_'' \<or> c = CHR ''.''"

lemma plain_byte_not:
  "\<not> plain_byte (CHR ''#'')" "\<not> plain_byte (CHR ''?'')" "\<not> plain_byte (CHR ''/'')"
  "\<not> plain_byte (CHR ''@'')" "\<not> plain_byte (CHR '':'')" "\<not> plain_byte (CHR ''%'')" "\<not> plain_byte (CHR ''['')"
  by (simp_all add: plain_byte_def is_alnum_def is_alpha_def is_digit_def byte_between_def)

lemma plain_byte_printable:
  "plain_byte c \<Longrightarrow> \<not> (of_char c < (32 :: nat)) \<and> of_char c \<noteq> (127 :: nat)"
  by (auto simp: plain_byte_def is_alnum_def is_alpha_def is_digit_def byte_between_def)

lemma plain_byte_host: "plain_byte c \<Longrightarrow> \<not> host_escape c"
  by (auto simp: plain_byte_def host_escape_def)

lemma digit_plain: "is_digit c \<Longrightarrow> plain_byte c"
  by (simp add: plain_byte_def is_alnum_def)

lemma alpha_plain: "is_alpha c \<Longrightarrow> plain_byte c"
  by (simp add: plain_byte_def is_alnum_def)

lemma plain_free: "list_all plain_byte s \<Longrightarrow> \<not> plain_byte c \<Longrightarrow> c \<notin> set s"
  by (auto simp: list_all_iff)

lemma scan_scheme_alpha:
  "list_all is_alpha s \<Longrightarrow> acc \<noteq> [] \<or> s \<noteq> [] \<Longrightarrow> scan_scheme raw acc (s @ CHR '':'' # t) = Some (rev acc @ s, t)"
  by (induction s arbitrary: acc) (auto simp: is_alpha_def is_digit_def byte_between_def)

lemma plain_userinfo: "list_all plain_byte s \<Longrightarrow> validUserinfo s"
  by (auto simp: validUserinfo_def plain_byte_def list_all_iff)

lemma host_port_parse:
  assumes "list_all plain_byte h" and "list_all is_digit port"
  shows "parseHost (h @ '':'' @ port) = Some (h @ '':'' @ port)"
proof -
  have port: "list_all plain_byte port" using assms(2) digit_plain by (auto simp: list_all_iff)
  have "CHR '':'' \<notin> set port" by (rule plain_free [OF port plain_byte_not(5)])
  then have "last_index_of (h @ '':'' @ port) (CHR '':'') = Some (length h)"
    by (simp add: last_index_of_append)
  moreover have "\<not> has_prefix (h @ '':'' @ port) ''[''"
    using plain_free [OF assms(1) plain_byte_not(7)] by (cases h) (auto simp: has_prefix_def)
  moreover have "unescape Enc_host (h @ '':'' @ port) = Some (h @ '':'' @ port)"
  proof (rule unescape_plain)
    show "CHR ''%'' \<notin> set (h @ '':'' @ port)"
      using plain_free [OF assms(1) plain_byte_not(6)] plain_free [OF port plain_byte_not(6)] by simp
    have "\<not> host_escape (CHR '':'')" by (simp add: host_escape_def)
    then show "\<forall>c\<in>set (h @ '':'' @ port). \<not> host_escape c"
      using assms(1) port plain_byte_host by (simp add: list_all_iff ball_Un)
  qed
  ultimately show ?thesis using assms(2) by (simp add: parseHost_def validOptionalPort_def)
qed

text \<open>A connection string \<open>scheme://token@host:port\<close> is read back part by part.\<close>

lemma url_parse_token_host_port:
  assumes "list_all is_alpha sch" and "sch \<noteq> []" and "list_all plain_byte tok"
    and "list_all plain_byte h" and "list_all is_digit port"
  shows "url_parse (sch @ ''://'' @ tok @ ''@'' @ h @ '':'' @ port)
    = Some \<lparr>u_scheme = to_lower sch, u_opaque = [], u_user = Some (url_User tok),
            u_host = h @ '':'' @ port, u_path = [], u_query = [], u_fragment = []\<rparr>"
proof -
  let ?auth = "tok @ ''@'' @ h @ '':'' @ port"
  let ?raw = "sch @ ''://'' @ ?auth"
  have port: "list_all plain_byte port" using assms(5) digit_plain by (auto simp: list_all_iff)
  have sch: "list_all plain_byte sch" using assms(1) alpha_plain by (auto simp: list_all_iff)
  note parts = assms(3,4) port sch
  have free: "c \<notin> set ?raw" if "\<not> plain_byte c" "c \<noteq> CHR '':''" "c \<noteq> CHR ''/''" "c \<noteq> CHR ''@''" for c
    using that parts plain_free by auto
  have no_frag: "CHR ''#'' \<notin> set ?raw" and no_query: "CHR ''?'' \<notin> set ?raw"
    by (rule free; simp add: plain_byte_not)+
  have no_ctl: "\<not> list_ex (\<lambda>c. of_char c < (32 :: nat) \<or> of_char c = (127 :: nat)) ?raw"
    using parts plain_byte_printable by (fastforce simp: list_ex_iff list_all_iff)
  have no_slash: "CHR ''/'' \<notin> set ?auth"
    using parts plain_free [OF _ plain_byte_not(3)] by auto
  have no_at: "CHR ''@'' \<notin> set (h @ '':'' @ port)"
    using parts plain_free [OF _ plain_byte_not(4)] by auto
  have scheme: "getScheme ?raw = Some (sch, ''//'' @ ?auth)"
    using scan_scheme_alpha [OF assms(1), of "[]" ?raw "''//'' @ ?auth"] assms(2) by (simp add: getScheme_def)
  have "last_index_of ?auth (CHR ''@'') = Some (length tok)"
    using no_at last_index_of_append [of "CHR ''@''" "h @ '':'' @ port" tok] by simp
  moreover have "cut_at (CHR '':'') tok = (tok, [], False)"
    using plain_free [OF assms(3) plain_byte_not(5)] by simp
  moreover have "unescape Enc_user tok = Some tok"
    using plain_free [OF assms(3) plain_byte_not(6)] by (intro unescape_plain) auto
  ultimately have auth: "parseAuthority ?auth = Some (Some (url_User tok), h @ '':'' @ port)"
    using host_port_parse [OF assms(4,5)] plain_userinfo [OF assms(3)]
    by (simp add: parseAuthority_def Let_def)
  have "to_lower sch \<noteq> []" using assms(2) by (cases sch) auto
  moreover have "?raw \<noteq> ''*''" using assms(2) by (cases sch) auto
  moreover have "cut_at (CHR ''?'') (''//'' @ ?auth) = (''//'' @ ?auth, [], False)"
    by (rule cut_at_absent) (use no_query in auto)
  moreover have "cut_at (CHR ''/'') ?auth = (?auth, [], False)" by (rule cut_at_absent [OF no_slash])
  ultimately have "url_parse_nofrag ?raw = Some \<lparr>u_scheme = to_lower sch, u_opaque = [],
      u_user = Some (url_User tok), u_host = h @ '':'' @ port, u_path = [], u_query = [], u_fragment = []\<rparr>"
    unfolding url_parse_nofrag_def if_not_P [OF no_ctl] scheme using auth
    by (simp add: Let_def has_prefix_def)
  then show ?thesis unfolding url_parse_def cut_at_absent [OF no_frag] by simp
qed

end
