(* ===== verification/Nats_Broker.thy ===== *)
theory Nats_Broker
  imports Nats_Subject Go_Url
begin

text \<open>
  The embedded broker's access control, \<open>internal/pubsub/pubsub.go\<close>: the options \<open>Config\<close> is
  turned into, the check of a client's token, and the credential the server publishes with. The
  NATS server that enforces the options is a parameter (its subject matching is
  \<open>nats_match_laws\<close>).
\<close>

section \<open>Configuration\<close>

text \<open>The struct \<open>User\<close>: a broker credential and the org it may watch.\<close>

record bus_user =
  us_name :: string
  us_password :: string
  us_org :: string
  us_publish :: bool

text \<open>\<open>Authenticate\<close> answers an org, an expiry and whether the credential is valid; nil is \<open>None\<close>.\<close>

type_synonym authenticate = "string \<Rightarrow> string \<times> gotime \<times> bool"

record config =
  cfg_host :: string
  cfg_port :: int
  cfg_token :: string
  cfg_authenticate :: "authenticate option"
  cfg_users :: "bus_user list"
  cfg_routes :: "string list"
  cfg_cluster_name :: string
  cfg_cluster_host :: string
  cfg_cluster_port :: int
  cfg_route_secret :: string

text \<open>The parts of \<open>natsd.Options\<close> that are set. Permissions are what is allowed and denied.\<close>

record subject_permission =
  sp_allow :: "string list"
  sp_deny :: "string list"

record permissions =
  perm_subscribe :: subject_permission
  perm_publish :: subject_permission

record nats_user =
  nu_username :: string
  nu_password :: string
  nu_permissions :: "permissions option"
  nu_deadline :: gotime

record cluster_opts =
  co_name :: string
  co_host :: string
  co_port :: int
  co_username :: string
  co_password :: string

record client_auth =
  ca_token :: string
  ca_check :: authenticate

record nats_options =
  o_host :: string
  o_port :: int
  o_no_log :: bool
  o_no_sigs :: bool
  o_users :: "nats_user list"
  o_custom :: "client_auth option"
  o_authorization :: string
  o_cluster :: cluster_opts
  o_routes :: "go_url list"

definition routeUser :: string where
  "routeUser = ''priompt-route''"

definition allow_only :: "string list \<Rightarrow> subject_permission" where
  "allow_only ss = \<lparr>sp_allow = ss, sp_deny = []\<rparr>"

definition deny_only :: "string list \<Rightarrow> subject_permission" where
  "deny_only ss = \<lparr>sp_allow = [], sp_deny = ss\<rparr>"

text \<open>The user of \<open>natsd\<close> that one entry of \<open>Users\<close> becomes.\<close>

definition broker_user :: "bus_user \<Rightarrow> nats_user" where
  "broker_user u =
     (let perms = \<lparr>perm_subscribe = allow_only [''priompt.>''], perm_publish = deny_only [''>'']\<rparr>;
          perms = (if us_org u \<noteq> '''' then perms\<lparr>perm_subscribe := allow_only [OrgSubject (us_org u)]\<rparr> else perms);
          perms = (if us_publish u then perms\<lparr>perm_publish := allow_only [''priompt.>'']\<rparr> else perms)
      in \<lparr>nu_username = us_name u, nu_password = us_password u, nu_permissions = Some perms,
          nu_deadline = time_zero\<rparr>)"

text \<open>A route with the cluster credential, unless it carries its own. Unparsable routes are skipped.\<close>

definition route_url :: "string \<Rightarrow> string \<Rightarrow> go_url option" where
  "route_url secret r =
     (case url_parse r of
        None \<Rightarrow> None
      | Some u \<Rightarrow>
          if u_user u = None \<and> secret \<noteq> '''' then Some (u\<lparr>u_user := Some (url_UserPassword routeUser secret)\<rparr>)
          else Some u)"

definition options :: "config \<Rightarrow> nats_options" where
  "options c =
     (let o' = \<lparr>o_host = cfg_host c, o_port = cfg_port c, o_no_log = True, o_no_sigs = True,
                o_users = [], o_custom = None, o_authorization = '''',
                o_cluster = \<lparr>co_name = '''', co_host = '''', co_port = 0, co_username = '''', co_password = ''''\<rparr>,
                o_routes = []\<rparr>;
          o' = (if cfg_users c \<noteq> [] then o'\<lparr>o_users := map broker_user (cfg_users c)\<rparr>
                else (case cfg_authenticate c of
                        Some check \<Rightarrow>
                          if cfg_token c \<noteq> '''' then o'\<lparr>o_custom := Some \<lparr>ca_token = cfg_token c, ca_check = check\<rparr>\<rparr>
                          else o'
                      | None \<Rightarrow> if cfg_token c \<noteq> '''' then o'\<lparr>o_authorization := cfg_token c\<rparr> else o'))
      in if cfg_routes c \<noteq> [] \<or> 0 < cfg_cluster_port c then
           (let cl = \<lparr>co_name = cfg_cluster_name c, co_host = cfg_cluster_host c, co_port = cfg_cluster_port c,
                      co_username = routeUser, co_password = cfg_route_secret c\<rparr>;
                cl = (if cfg_route_secret c = '''' then cl\<lparr>co_username := '''', co_password := ''''\<rparr> else cl)
            in o'\<lparr>o_cluster := cl, o_routes := List.map_filter (route_url (cfg_route_secret c)) (cfg_routes c)\<rparr>)
         else o')"

section \<open>Clients\<close>

text \<open>
  \<open>clientAuth.Check\<close>: \<open>Some u\<close> when the client is admitted and registered as the user \<open>u\<close>. A user
  without permissions is not restricted.
\<close>

definition client_check :: "client_auth \<Rightarrow> string \<Rightarrow> nats_user option" where
  "client_check a tok =
     (if tok = ca_token a then
        Some \<lparr>nu_username = ''priompt-server'', nu_password = '''', nu_permissions = None, nu_deadline = time_zero\<rparr>
      else if tok = '''' then None
      else (case ca_check a tok of
              (org', expires, ok) \<Rightarrow>
                if \<not> ok then None
                else (let sub = (if org' \<noteq> '''' then OrgSubject org' else ''priompt.>'')
                      in Some \<lparr>nu_username = ''priompt-subscriber'', nu_password = '''',
                               nu_permissions = Some \<lparr>perm_subscribe = allow_only [sub],
                                                      perm_publish = deny_only [''>'']\<rparr>,
                               nu_deadline = expires\<rparr>)))"

text \<open>\<open>nats.UserInfo\<close> and \<open>nats.Token\<close>, the options a client connects with.\<close>

datatype connect_option = UserInfo string string | Token string

definition publisherAuth :: "config \<Rightarrow> connect_option list" where
  "publisherAuth c =
     (case find us_publish (cfg_users c) of
        Some u \<Rightarrow> [UserInfo (us_name u) (us_password u)]
      | None \<Rightarrow> if cfg_token c \<noteq> '''' then [Token (cfg_token c)] else [])"

section \<open>Whom the broker admits\<close>

text \<open>What a client presents: the options of its connection set a token or a name and a password.\<close>

definition shown_token :: "connect_option list \<Rightarrow> string" where
  "shown_token cs = foldl (\<lambda>t x. case x of Token t' \<Rightarrow> t' | UserInfo _ _ \<Rightarrow> t) '''' cs"

definition shown_user :: "connect_option list \<Rightarrow> string \<times> string" where
  "shown_user cs = foldl (\<lambda>u x. case x of UserInfo n p \<Rightarrow> (n, p) | Token _ \<Rightarrow> u) ('''', '''') cs"

text \<open>
  The NATS server on a client of any of its ports (NATS documentation, \<open>Authentication\<close>): a custom check
  decides alone; else a user whose name and password are presented; else the token, which restricts
  nothing. A configured secret is compared as it is unless it is a bcrypt hash, which begins with
  \<open>$2\<close>; and of two users with one name only one counts.
\<close>

definition plain_secret :: "string \<Rightarrow> bool" where
  "plain_secret s \<longleftrightarrow> \<not> has_prefix s ''$2''"

definition admission_laws :: "(nats_options \<Rightarrow> connect_option list \<Rightarrow> nats_user option) \<Rightarrow> bool" where
  "admission_laws admit \<longleftrightarrow> (\<forall>opts cs. case o_custom opts of
     Some a \<Rightarrow> admit opts cs = client_check a (shown_token cs)
   | None \<Rightarrow>
       (o_users opts \<noteq> [] \<and> distinct (map nu_username (o_users opts))
          \<and> (\<forall>u\<in>set (o_users opts). nu_username u \<noteq> '''' \<and> plain_secret (nu_password u)) \<longrightarrow>
        admit opts cs = find (\<lambda>u. shown_user cs = (nu_username u, nu_password u)) (o_users opts))
     \<and> (o_users opts = [] \<and> o_authorization opts \<noteq> '''' \<and> plain_secret (o_authorization opts) \<longrightarrow>
        (if shown_token cs = o_authorization opts then \<exists>u. admit opts cs = Some u \<and> nu_permissions u = None
         else admit opts cs = None)))"

section \<open>What a user may do\<close>

text \<open>
  A user may subscribe or publish on a subject its permission allows and does not deny; an empty
  list of allowed subjects allows all (NATS documentation, \<open>Authorization\<close>).
\<close>

definition permits :: "(string \<Rightarrow> string \<Rightarrow> bool) \<Rightarrow> subject_permission \<Rightarrow> string \<Rightarrow> bool" where
  "permits covers p s \<longleftrightarrow> (sp_allow p = [] \<or> (\<exists>a\<in>set (sp_allow p). covers a s))
                        \<and> \<not> (\<exists>d\<in>set (sp_deny p). covers d s)"

definition may_receive :: "(string \<Rightarrow> string \<Rightarrow> bool) \<Rightarrow> nats_user \<Rightarrow> string \<Rightarrow> bool" where
  "may_receive covers u s = (case nu_permissions u of None \<Rightarrow> True | Some p \<Rightarrow> permits covers (perm_subscribe p) s)"

definition may_publish :: "(string \<Rightarrow> string \<Rightarrow> bool) \<Rightarrow> nats_user \<Rightarrow> string \<Rightarrow> bool" where
  "may_publish covers u s = (case nu_permissions u of None \<Rightarrow> True | Some p \<Rightarrow> permits covers (perm_publish p) s)"

text \<open>\<open>>\<close> alone covers every subject.\<close>

definition nats_laws :: "(string \<Rightarrow> string \<Rightarrow> bool) \<Rightarrow> bool" where
  "nats_laws covers \<longleftrightarrow> nats_match_laws covers \<and> (\<forall>s. s \<noteq> '''' \<longrightarrow> covers ''>'' s)"

lemma permits_simps [simp]:
  "permits covers (allow_only [a]) s = covers a s"
  "permits covers (deny_only [d]) s \<longleftrightarrow> \<not> covers d s"
  by (simp_all add: permits_def allow_only_def deny_only_def)

lemma Subject_not_Nil [simp]: "Subject L u \<noteq> ''''"
  by (simp add: Subject_def)

lemma covers_org:
  assumes "nats_laws covers" and "CHR ''/'' \<notin> set a" and "CHR ''/'' \<notin> set b" and "t \<noteq> ''''"
  shows "covers (OrgSubject a) (Subject L (scheme L @ b @ ''/'' @ t)) \<longleftrightarrow> a = b"
  using org_subject_iff [of covers a b L t] assms by (simp add: nats_laws_def)

lemma tail_wildcard:
  "nats_match_laws covers \<Longrightarrow> wildcard_free p \<Longrightarrow>
     covers (p @ ''.>'') s \<longleftrightarrow> (\<exists>t. t \<noteq> '''' \<and> s = p @ ''.'' @ t)"
  unfolding nats_match_laws_def by blast

lemma covers_all:
  assumes "nats_laws covers" and "x \<noteq> ''''"
  shows "covers ''priompt.>'' (Subject L (scheme L @ x))"
proof -
  have law: "nats_match_laws covers" using assms(1) by (simp add: nats_laws_def)
  have free: "wildcard_free ''priompt''" by (simp add: wildcard_free_def)
  have "Subject L (scheme L @ x) = ''priompt'' @ ''.'' @ join ''.'' (map subjectToken (split_on (CHR ''/'') x))"
    by (simp add: Subject_def)
  moreover have "join ''.'' (map subjectToken (split_on (CHR ''/'') x)) \<noteq> ''''"
    using assms(2) join_tokens_Nil by blast
  ultimately have "covers (''priompt'' @ ''.>'') (Subject L (scheme L @ x))"
    unfolding tail_wildcard [OF law free] by blast
  moreover have "''priompt'' @ ''.>'' = ''priompt.>''" by simp
  ultimately show ?thesis by (simp only:)
qed

text \<open>Which of the three ways to authenticate clients the options carry.\<close>

lemma options_auth:
  "o_users (options c) = map broker_user (cfg_users c)"
  "o_custom (options c) = (if cfg_users c = [] \<and> cfg_token c \<noteq> ''''
     then map_option (\<lambda>k. \<lparr>ca_token = cfg_token c, ca_check = k\<rparr>) (cfg_authenticate c) else None)"
  "o_authorization (options c) = (if cfg_users c = [] \<and> cfg_authenticate c = None then cfg_token c else '''')"
  by (simp_all add: options_def Let_def split: option.splits)

section \<open>Properties\<close>

text \<open>
  C16. An API credential presented to the broker buys read access to its own org and nothing more:
  the client it admits cannot publish on any subject, receives the events of a prompt exactly if
  the prompt is of its org (or the credential is an admin's, with no org), and is disconnected
  when the credential expires.
\<close>

theorem api_credential_watches_own_org:
  assumes "nats_laws covers" and "client_check a tok = Some u" and "tok \<noteq> ca_token a"
    and "ca_check a tok = (o', expires, ok)"
    and "CHR ''/'' \<notin> set o'" and "CHR ''/'' \<notin> set b" and "t \<noteq> ''''"
  shows "ok \<and> tok \<noteq> '''' \<and> nu_deadline u = expires
       \<and> (\<forall>s. s \<noteq> '''' \<longrightarrow> \<not> may_publish covers u s)
       \<and> (may_receive covers u (Subject L (scheme L @ b @ ''/'' @ t)) \<longleftrightarrow> o' = '''' \<or> o' = b)"
proof -
  have u: "ok" "tok \<noteq> ''''" "nu_deadline u = expires"
    "nu_permissions u = Some \<lparr>perm_subscribe = allow_only [if o' \<noteq> '''' then OrgSubject o' else ''priompt.>''],
                              perm_publish = deny_only [''>'']\<rparr>"
    using assms(2-4) by (auto simp: client_check_def Let_def split: if_splits)
  show ?thesis
    using u covers_org [OF assms(1,5,6,7), of L] covers_all [OF assms(1), of "b @ ''/'' @ t" L] assms(1)
    by (auto simp: may_publish_def may_receive_def nats_laws_def)
qed

text \<open>A configuration with credentials, none of them a bcrypt hash, its users named apart.\<close>

definition has_credentials :: "config \<Rightarrow> bool" where
  "has_credentials c \<longleftrightarrow> (cfg_users c \<noteq> [] \<or> cfg_token c \<noteq> '''') \<and> plain_secret (cfg_token c)
     \<and> distinct (map us_name (cfg_users c)) \<and> (\<forall>x\<in>set (cfg_users c). us_name x \<noteq> '''' \<and> plain_secret (us_password x))"

lemma find_map:
  "(\<And>x. P (f x) = Q x) \<Longrightarrow> find P (map f xs) = map_option f (find Q xs)"
  by (induction xs) simp_all

lemma admits_users:
  assumes "admission_laws admit" and "has_credentials c" and "cfg_users c \<noteq> []"
  shows "admit (options c) cs = map_option broker_user (find (\<lambda>x. shown_user cs = (us_name x, us_password x)) (cfg_users c))"
proof -
  have names: "nu_username (broker_user x) = us_name x" "nu_password (broker_user x) = us_password x" for x
    by (simp_all add: broker_user_def Let_def)
  have "admit (options c) cs = find (\<lambda>u. shown_user cs = (nu_username u, nu_password u)) (map broker_user (cfg_users c))"
    using assms unfolding admission_laws_def
    by (auto simp: options_auth has_credentials_def comp_def names dest!: spec [of _ "options c"])
  also have "\<dots> = map_option broker_user (find (\<lambda>x. shown_user cs = (us_name x, us_password x)) (cfg_users c))"
    by (rule find_map) (simp add: names)
  finally show ?thesis .
qed

lemma admits_token:
  assumes "admission_laws admit" and "has_credentials c" and "cfg_users c = []"
  shows "admit (options c) cs = Some u \<Longrightarrow> shown_token cs = cfg_token c
      \<or> (\<exists>check. cfg_authenticate c = Some check \<and> shown_token cs \<noteq> '''' \<and> snd (snd (check (shown_token cs))))"
    and "shown_token cs = cfg_token c \<Longrightarrow> \<exists>u. admit (options c) cs = Some u \<and> nu_permissions u = None"
proof -
  note law = assms(1) [unfolded admission_laws_def, rule_format, of "options c" cs]
  have token: "cfg_token c \<noteq> ''''" "plain_secret (cfg_token c)" using assms(2,3) by (simp_all add: has_credentials_def)
  show "admit (options c) cs = Some u \<Longrightarrow> shown_token cs = cfg_token c
      \<or> (\<exists>check. cfg_authenticate c = Some check \<and> shown_token cs \<noteq> '''' \<and> snd (snd (check (shown_token cs))))"
    using law token assms(3)
    by (cases "cfg_authenticate c") (auto simp: options_auth client_check_def split: if_splits prod.splits)
  show "shown_token cs = cfg_token c \<Longrightarrow> \<exists>u. admit (options c) cs = Some u \<and> nu_permissions u = None"
    using law token assms(3) by (cases "cfg_authenticate c") (simp_all add: options_auth client_check_def)
qed

text \<open>
  C30. A broker with credentials admits nobody without one. With users, a client is admitted only as the
  user whose name and password it presents; with a token, only by that token or by one that the
  check of API credentials accepts; and one that presents nothing never. The server's own publisher is
  admitted, with the right to publish the events of every prompt, unless the configuration lists
  users and none of them may publish: then it is refused.
\<close>

theorem broker_admits_credentials_only:
  assumes "nats_laws covers" and "admission_laws admit" and "has_credentials c"
  shows "(\<forall>cs u. admit (options c) cs = Some u \<longrightarrow>
            (if cfg_users c \<noteq> [] then \<exists>x\<in>set (cfg_users c). shown_user cs = (us_name x, us_password x) \<and> u = broker_user x
             else shown_token cs = cfg_token c
               \<or> (\<exists>check. cfg_authenticate c = Some check \<and> shown_token cs \<noteq> '''' \<and> snd (snd (check (shown_token cs))))))
       \<and> admit (options c) [] = None
       \<and> (if cfg_users c \<noteq> [] \<and> (\<forall>x\<in>set (cfg_users c). \<not> us_publish x) then admit (options c) (publisherAuth c) = None
          else \<exists>u. admit (options c) (publisherAuth c) = Some u
               \<and> (\<forall>y. y \<noteq> '''' \<longrightarrow> may_publish covers u (Subject L (scheme L @ y))))"
proof (cases "cfg_users c = []")
  case True
  note adm = admits_token [OF assms(2,3) True]
  have token: "cfg_token c \<noteq> ''''" using assms(3) True by (simp add: has_credentials_def)
  then have "admit (options c) [] = None"
    using adm(1) [of "[]"] by (cases "admit (options c) []") (auto simp: shown_token_def)
  moreover have "shown_token (publisherAuth c) = cfg_token c"
    using True token by (simp add: publisherAuth_def shown_token_def)
  ultimately show ?thesis using True adm(1) adm(2) [of "publisherAuth c"] by (auto simp: may_publish_def)
next
  case False
  note adm = admits_users [OF assms(2,3) False]
  have "admit (options c) cs = Some u \<Longrightarrow> \<exists>x\<in>set (cfg_users c). shown_user cs = (us_name x, us_password x) \<and> u = broker_user x"
    for cs u unfolding adm by (auto simp: find_Some_iff)
  moreover have none: "admit (options c) cs = None" if "shown_user cs = ('''', '''')" for cs
    using assms(3) that unfolding adm by (auto simp: find_None_iff has_credentials_def)
  moreover have "\<exists>u. admit (options c) (publisherAuth c) = Some u
      \<and> (\<forall>y. y \<noteq> '''' \<longrightarrow> may_publish covers u (Subject L (scheme L @ y)))" if pub: "\<exists>x\<in>set (cfg_users c). us_publish x"
  proof -
    obtain z where z: "find us_publish (cfg_users c) = Some z" "z \<in> set (cfg_users c)" "us_publish z"
      using pub by (cases "find us_publish (cfg_users c)") (auto simp: find_None_iff find_Some_iff)
    then have shown: "shown_user (publisherAuth c) = (us_name z, us_password z)"
      by (simp add: publisherAuth_def shown_user_def)
    have "find (\<lambda>x. shown_user (publisherAuth c) = (us_name x, us_password x)) (cfg_users c) \<noteq> None"
      using z(2) shown by (auto simp: find_None_iff)
    then obtain x where x: "find (\<lambda>x. shown_user (publisherAuth c) = (us_name x, us_password x)) (cfg_users c) = Some x"
      by blast
    then have "x \<in> set (cfg_users c)" "us_name x = us_name z" using shown by (auto simp: find_Some_iff)
    then have "x = z" using z(2) assms(3) unfolding has_credentials_def distinct_map inj_on_def by blast
    moreover have "may_publish covers (broker_user z) (Subject L (scheme L @ y))" if "y \<noteq> ''''" for y
      using z(3) covers_all [OF assms(1) that] by (simp add: broker_user_def may_publish_def Let_def)
    ultimately show ?thesis using x unfolding adm by simp
  qed
  moreover have "shown_user (publisherAuth c) = ('''', '''')" if "\<forall>x\<in>set (cfg_users c). \<not> us_publish x"
    using that by (auto simp: publisherAuth_def shown_user_def find_Some_iff split: option.splits)
  moreover have "shown_user [] = ('''', '''')" by (simp add: shown_user_def)
  ultimately show ?thesis using False by auto
qed

lemma route_url_Some:
  "route_url secret r = Some u \<Longrightarrow> \<exists>p. url_parse r = Some p \<and> u_host u = u_host p
     \<and> u_user u = (if u_user p = None \<and> secret \<noteq> '''' then Some (url_UserPassword routeUser secret) else u_user p)"
  by (auto simp: route_url_def split: option.splits if_splits)

lemma route_url_None: "route_url secret r = None \<longleftrightarrow> url_parse r = None"
  by (auto simp: route_url_def split: option.splits)

lemma set_map_filter: "u \<in> set (List.map_filter f xs) \<longleftrightarrow> (\<exists>x\<in>set xs. f x = Some u)"
  by (induction xs) (auto simp: List.map_filter_simps split: option.splits)

lemma options_routes:
  "o_routes (options c) = (if cfg_routes c \<noteq> [] \<or> 0 < cfg_cluster_port c
     then List.map_filter (route_url (cfg_route_secret c)) (cfg_routes c) else [])"
  "cfg_routes c \<noteq> [] \<Longrightarrow> o_cluster (options c) = \<lparr>co_name = cfg_cluster_name c, co_host = cfg_cluster_host c,
     co_port = cfg_cluster_port c, co_username = (if cfg_route_secret c = '''' then '''' else routeUser),
     co_password = cfg_route_secret c\<rparr>"
  by (simp_all add: options_def Let_def split: option.splits)

text \<open>
  Every cluster route the broker dials is one that was configured and parses, keeps the
  credential it names itself, and otherwise carries the cluster secret; without a secret the
  cluster listener has no credential at all rather than an empty password.
\<close>

theorem routes_carry_the_secret:
  "(\<forall>u\<in>set (o_routes (options c)). \<exists>r\<in>set (cfg_routes c). \<exists>p. url_parse r = Some p \<and> u_host u = u_host p
      \<and> u_user u = (if u_user p = None \<and> cfg_route_secret c \<noteq> ''''
                    then Some (url_UserPassword routeUser (cfg_route_secret c)) else u_user p))
   \<and> (cfg_routes c \<noteq> [] \<longrightarrow>
        (co_username (o_cluster (options c)) = '''' \<longleftrightarrow> cfg_route_secret c = '''')
      \<and> co_password (o_cluster (options c)) = cfg_route_secret c
      \<and> (\<forall>r\<in>set (cfg_routes c). url_parse r \<noteq> None \<longrightarrow>
           (\<exists>u\<in>set (o_routes (options c)). route_url (cfg_route_secret c) r = Some u)))"
proof (intro conjI impI ballI)
  show "\<exists>r\<in>set (cfg_routes c). \<exists>p. url_parse r = Some p \<and> u_host u = u_host p
      \<and> u_user u = (if u_user p = None \<and> cfg_route_secret c \<noteq> ''''
                    then Some (url_UserPassword routeUser (cfg_route_secret c)) else u_user p)"
    if "u \<in> set (o_routes (options c))" for u
    using that route_url_Some unfolding options_routes(1) by (force simp: set_map_filter split: if_splits)
next
  assume ne: "cfg_routes c \<noteq> []"
  show "co_username (o_cluster (options c)) = '''' \<longleftrightarrow> cfg_route_secret c = ''''"
    "co_password (o_cluster (options c)) = cfg_route_secret c"
    unfolding options_routes(2) [OF ne] by (simp_all add: routeUser_def)
  show "\<exists>u\<in>set (o_routes (options c)). route_url (cfg_route_secret c) r = Some u"
    if "r \<in> set (cfg_routes c)" "url_parse r \<noteq> None" for r
    using that ne route_url_None [of "cfg_route_secret c" r]
    unfolding options_routes(1) by (auto simp: set_map_filter)
qed

section \<open>Witnesses\<close>

text \<open>The matching of \<open>tail_match\<close> with the wildcard that covers everything.\<close>

definition sample_match :: "string \<Rightarrow> string \<Rightarrow> bool" where
  "sample_match p s \<longleftrightarrow> p = ''>'' \<and> s \<noteq> '''' \<or> tail_match p s"

lemma sample_match_laws: "nats_laws sample_match"
  unfolding nats_laws_def nats_match_laws_def
proof (intro conjI allI impI)
  show "sample_match p s \<longleftrightarrow> p = s" if "wildcard_free p" for p s
  proof -
    have "p \<noteq> ''>''" using that by (auto simp: wildcard_free_def)
    moreover have "tail_match p s \<longleftrightarrow> p = s"
      using tail_match_laws that unfolding nats_match_laws_def by blast
    ultimately show ?thesis unfolding sample_match_def by blast
  qed
  show "sample_match (p @ ''.>'') s \<longleftrightarrow> (\<exists>t. t \<noteq> '''' \<and> s = p @ ''.'' @ t)" if "wildcard_free p" for p s
  proof -
    have "length (p @ ''.>'') \<noteq> length ''>''" by simp
    then have "p @ ''.>'' \<noteq> ''>''" by metis
    then show ?thesis
      unfolding sample_match_def using tail_wildcard [OF tail_match_laws that, of s] by blast
  qed
  show "sample_match ''>'' s" if "s \<noteq> ''''" for s using that by (simp add: sample_match_def)
qed

definition acme_check :: authenticate where
  "acme_check tok = (if tok = ''t1'' then (''acme'', time_zero, True) else ('''', time_zero, False))"

theorem api_credential_watches_own_org_witness:
  "\<exists>u. client_check \<lparr>ca_token = ''root'', ca_check = acme_check\<rparr> ''t1'' = Some u
     \<and> \<not> may_publish sample_match u ''priompt.acme.p''
     \<and> (\<forall>L::unit lib. may_receive sample_match u (Subject L (scheme L @ ''acme'' @ ''/'' @ ''p''))
          \<and> \<not> may_receive sample_match u (Subject L (scheme L @ ''beta'' @ ''/'' @ ''p'')))"
proof -
  let ?a = "\<lparr>ca_token = ''root'', ca_check = acme_check\<rparr>"
  obtain u where u: "client_check ?a ''t1'' = Some u"
    by (simp add: client_check_def acme_check_def)
  have "ca_check ?a ''t1'' = (''acme'', time_zero, True)" by (simp add: acme_check_def)
  note rule = api_credential_watches_own_org [OF sample_match_laws u _ this]
  have "may_receive sample_match u (Subject L (scheme L @ ''acme'' @ ''/'' @ ''p''))"
    "\<not> may_receive sample_match u (Subject L (scheme L @ ''beta'' @ ''/'' @ ''p''))" for L :: "unit lib"
    using rule [of "''acme''" "''p''" L] rule [of "''beta''" "''p''" L] by simp_all
  moreover have all: "\<forall>s. s \<noteq> '''' \<longrightarrow> \<not> may_publish sample_match u s"
    using rule [of "''acme''" "''p''" undefined] by fastforce
  have "\<not> may_publish sample_match u ''priompt.acme.p''"
    using spec [OF all, of "''priompt.acme.p''"] by simp
  ultimately show ?thesis
    using u by blast
qed

text \<open>A server that admits by these laws, and a configuration with a token and a check.\<close>

definition sample_admit :: "nats_options \<Rightarrow> connect_option list \<Rightarrow> nats_user option" where
  "sample_admit opts cs =
     (let anyone = Some \<lparr>nu_username = '''', nu_password = '''', nu_permissions = None, nu_deadline = time_zero\<rparr>
      in case o_custom opts of Some a \<Rightarrow> client_check a (shown_token cs)
      | None \<Rightarrow> if o_users opts \<noteq> [] then find (\<lambda>u. shown_user cs = (nu_username u, nu_password u)) (o_users opts)
                else if o_authorization opts = shown_token cs \<or> o_authorization opts = '''' then anyone else None)"

lemma sample_admission_laws: "admission_laws sample_admit"
  by (auto simp: admission_laws_def sample_admit_def Let_def split: option.split)

definition root_config :: config where
  "root_config = \<lparr>cfg_host = ''0.0.0.0'', cfg_port = 4222, cfg_token = ''root'', cfg_authenticate = Some acme_check,
     cfg_users = [], cfg_routes = [], cfg_cluster_name = '''', cfg_cluster_host = '''', cfg_cluster_port = 0,
     cfg_route_secret = ''''\<rparr>"

theorem broker_admits_credentials_only_witness:
  "sample_admit (options root_config) [] = None \<and> sample_admit (options root_config) [Token ''t2''] = None
   \<and> (\<exists>u. sample_admit (options root_config) [Token ''root''] = Some u
        \<and> (\<forall>L::unit lib. may_publish sample_match u (Subject L (scheme L @ ''acme/p''))))"
proof -
  have creds: "has_credentials root_config"
    by (simp add: has_credentials_def root_config_def plain_secret_def)
  note rule = broker_admits_credentials_only [OF sample_match_laws sample_admission_laws creds]
  have cfg: "cfg_users root_config = []" "publisherAuth root_config = [Token ''root'']" "cfg_token root_config = ''root''"
    "cfg_authenticate root_config = Some acme_check"
    by (simp_all add: root_config_def publisherAuth_def)
  have only: "shown_token cs = ''root'' \<or> snd (snd (acme_check (shown_token cs)))"
    if "sample_admit (options root_config) cs = Some u" for cs u
    using conjunct1 [OF rule, rule_format, OF that] unfolding cfg by (simp split: if_splits) blast
  have "sample_admit (options root_config) [Token ''t2''] = None"
    using only [of "[Token ''t2'']"] by (cases "sample_admit (options root_config) [Token ''t2'']")
      (simp_all add: shown_token_def acme_check_def)
  moreover have "\<exists>u. sample_admit (options root_config) [Token ''root''] = Some u
      \<and> (\<forall>y. y \<noteq> '''' \<longrightarrow> may_publish sample_match u (Subject L (scheme L @ y)))" for L :: "unit lib"
    using conjunct2 [OF conjunct2 [OF rule], of L] unfolding cfg by (simp only: simp_thms if_False)
  then have "\<exists>u. sample_admit (options root_config) [Token ''root''] = Some u
      \<and> (\<forall>L::unit lib. may_publish sample_match u (Subject L (scheme L @ ''acme/p'')))"
    by (metis list.distinct(1) option.inject)
  ultimately show ?thesis using conjunct1 [OF conjunct2 [OF rule]] by blast
qed

theorem routes_carry_the_secret_witness:
  "\<exists>u. o_routes (options \<lparr>cfg_host = ''127.0.0.1'', cfg_port = 4222, cfg_token = '''', cfg_authenticate = None,
        cfg_users = [], cfg_routes = [''nats://n2:6222''], cfg_cluster_name = ''priompt'', cfg_cluster_host = ''127.0.0.1'',
        cfg_cluster_port = 6222, cfg_route_secret = ''s3''\<rparr>) = [u]
     \<and> u_user u = Some (url_UserPassword routeUser ''s3'')"
proof -
  let ?c = "\<lparr>cfg_host = ''127.0.0.1'', cfg_port = 4222, cfg_token = '''', cfg_authenticate = None,
        cfg_users = [], cfg_routes = [''nats://n2:6222''], cfg_cluster_name = ''priompt'', cfg_cluster_host = ''127.0.0.1'',
        cfg_cluster_port = 6222, cfg_route_secret = ''s3''\<rparr>"
  have "case url_parse ''nats://n2:6222'' of Some p \<Rightarrow> u_user p = None | None \<Rightarrow> False" by code_simp
  then have parsed: "\<exists>p. url_parse ''nats://n2:6222'' = Some p \<and> u_user p = None"
    by (auto split: option.splits)
  then obtain u where u: "o_routes (options ?c) = [u]"
    by (auto simp: options_routes List.map_filter_simps route_url_def)
  with parsed routes_carry_the_secret [of ?c] show ?thesis by auto
qed

end
