(* ===== verification/Nats_Bus.thy ===== *)
theory Nats_Bus
  imports Nats_Broker
begin

text \<open>
  The life of the bus and of a subscriber, \<open>internal/pubsub/pubsub.go\<close>: starting the embedded
  broker and connecting its publisher, and closing. The NATS libraries are parameters; what is
  modelled is which of their calls are made, in which order, and what is left running.
\<close>

section \<open>Calls\<close>

text \<open>\<open>natsd.NewServer\<close>, \<open>ReadyForConnections\<close> within five seconds, and \<open>nats.Connect\<close> to a URL.\<close>

record ('ns, 'nc) nats_lib =
  nl_new :: "nats_options \<Rightarrow> gerr + 'ns"
  nl_ready :: "'ns \<Rightarrow> bool"
  nl_url :: "'ns \<Rightarrow> string"
  nl_connect :: "string \<Rightarrow> connect_option list \<Rightarrow> gerr + 'nc"

datatype ('ns, 'nc) nats_call = Start 'ns | Shutdown 'ns | Opened 'nc | Drain 'nc | Flushed 'nc

record ('ns, 'nc) bus =
  b_ns :: 'ns
  b_nc :: 'nc

text \<open>\<open>NewEmbedded\<close>, with the calls it makes added to those made before.\<close>

definition NewEmbedded ::
  "('ns, 'nc) nats_lib \<Rightarrow> config \<Rightarrow> ('ns, 'nc) nats_call list
   \<Rightarrow> (gerr + ('ns, 'nc) bus) \<times> ('ns, 'nc) nats_call list" where
  "NewEmbedded N cfg cs =
     (case nl_new N (options cfg) of
        Inl e \<Rightarrow> (Inl e, cs)
      | Inr ns \<Rightarrow>
          (let cs = cs @ [Start ns] in
           if \<not> nl_ready N ns then (Inl (Gerr [] ''embedded NATS not ready''), cs @ [Shutdown ns])
           else (case nl_connect N (nl_url N ns) (publisherAuth cfg) of
                   Inl e \<Rightarrow> (Inl e, cs @ [Shutdown ns])
                 | Inr nc \<Rightarrow> (Inr \<lparr>b_ns = ns, b_nc = nc\<rparr>, cs @ [Opened nc]))))"

definition ClientURL :: "('ns, 'nc) nats_lib \<Rightarrow> ('ns, 'nc) bus \<Rightarrow> string" where
  "ClientURL N b = nl_url N (b_ns b)"

definition bus_Close :: "('ns, 'nc) bus \<Rightarrow> ('ns, 'nc) nats_call list \<Rightarrow> ('ns, 'nc) nats_call list" where
  "bus_Close b cs = cs @ [Drain (b_nc b), Shutdown (b_ns b)]"

text \<open>A subscriber is its connection.\<close>

definition Connect ::
  "('ns, 'nc) nats_lib \<Rightarrow> string \<Rightarrow> connect_option list \<Rightarrow> ('ns, 'nc) nats_call list
   \<Rightarrow> (gerr + 'nc) \<times> ('ns, 'nc) nats_call list" where
  "Connect N url opts cs =
     (case nl_connect N url opts of Inl e \<Rightarrow> (Inl e, cs) | Inr nc \<Rightarrow> (Inr nc, cs @ [Opened nc]))"

definition sub_Flush :: "'nc \<Rightarrow> ('ns, 'nc) nats_call list \<Rightarrow> ('ns, 'nc) nats_call list" where
  "sub_Flush nc cs = cs @ [Flushed nc]"

definition sub_Close :: "'nc \<Rightarrow> ('ns, 'nc) nats_call list \<Rightarrow> ('ns, 'nc) nats_call list" where
  "sub_Close nc cs = cs @ [Drain nc]"

section \<open>What is left running\<close>

text \<open>The brokers that were started and not shut down since, and the connections not drained since.\<close>

fun brokers_up :: "('ns, 'nc) nats_call list \<Rightarrow> 'ns set" where
  "brokers_up [] = {}"
| "brokers_up (c # cs) = (case c of Start ns \<Rightarrow> if Shutdown ns \<in> set cs then brokers_up cs else insert ns (brokers_up cs)
     | _ \<Rightarrow> brokers_up cs)"

fun connected :: "('ns, 'nc) nats_call list \<Rightarrow> 'nc set" where
  "connected [] = {}"
| "connected (c # cs) = (case c of Opened nc \<Rightarrow> if Drain nc \<in> set cs then connected cs else insert nc (connected cs)
     | _ \<Rightarrow> connected cs)"

lemma brokers_up_append:
  "brokers_up (cs @ ds) = {ns \<in> brokers_up cs. Shutdown ns \<notin> set ds} \<union> brokers_up ds"
  by (induction cs) (auto split: nats_call.splits)

lemma connected_append:
  "connected (cs @ ds) = {nc \<in> connected cs. Drain nc \<notin> set ds} \<union> connected ds"
  by (induction cs) (auto split: nats_call.splits)

text \<open>
  C24. The bus leaves nothing behind. A start that fails, at any of its three steps, leaves the brokers
  and connections that were there before; one that succeeds adds its broker and its publisher's
  connection, which is made with the broker's own credential; and closing that bus takes both away.
\<close>

theorem bus_leaves_nothing_running:
  assumes "NewEmbedded N cfg cs = (r, cs')"
    and "\<forall>ns. nl_new N (options cfg) = Inr ns \<longrightarrow> ns \<notin> brokers_up cs"
    and "\<forall>url nc. nl_connect N url (publisherAuth cfg) = Inr nc \<longrightarrow> nc \<notin> connected cs"
  shows "case r of
      Inl e \<Rightarrow> brokers_up cs' = brokers_up cs \<and> connected cs' = connected cs
    | Inr b \<Rightarrow> brokers_up cs' = insert (b_ns b) (brokers_up cs) \<and> connected cs' = insert (b_nc b) (connected cs)
        \<and> nl_ready N (b_ns b) \<and> nl_connect N (ClientURL N b) (publisherAuth cfg) = Inr (b_nc b)
        \<and> brokers_up (bus_Close b cs') = brokers_up cs \<and> connected (bus_Close b cs') = connected cs"
  using assms
  by (auto simp: NewEmbedded_def Let_def brokers_up_append connected_append bus_Close_def ClientURL_def
      split: sum.splits if_splits)

text \<open>A broker that refuses a publisher without the token, started with one and without.\<close>

definition token_lib :: "(nats_options, nat) nats_lib" where
  "token_lib = \<lparr>nl_new = Inr, nl_ready = \<lambda>_. True, nl_url = \<lambda>o'. ''nats://'' @ o_host o',
     nl_connect = \<lambda>url opts. if opts = [Token ''s3''] then Inr 7 else Inl (Gerr [] ''authorization violation'')\<rparr>"

definition token_config :: "string \<Rightarrow> config" where
  "token_config t = \<lparr>cfg_host = ''127.0.0.1'', cfg_port = 4222, cfg_token = t, cfg_authenticate = None, cfg_users = [],
     cfg_routes = [], cfg_cluster_name = '''', cfg_cluster_host = '''', cfg_cluster_port = 0, cfg_route_secret = ''''\<rparr>"

theorem bus_leaves_nothing_running_witness:
  "(\<exists>e cs. NewEmbedded token_lib (token_config ''wrong'') [] = (Inl e, cs) \<and> cs \<noteq> [] \<and> brokers_up cs = {})
 \<and> (\<exists>b cs. NewEmbedded token_lib (token_config ''s3'') [] = (Inr b, cs) \<and> connected cs = {7}
      \<and> brokers_up (bus_Close b cs) = {})"
proof -
  have bad: "\<exists>e cs. NewEmbedded token_lib (token_config ''wrong'') [] = (Inl e, cs) \<and> cs \<noteq> []"
    by (simp add: NewEmbedded_def token_lib_def token_config_def publisherAuth_def Let_def)
  have good: "\<exists>b cs. NewEmbedded token_lib (token_config ''s3'') [] = (Inr b, cs) \<and> b_nc b = 7"
    by (simp add: NewEmbedded_def token_lib_def token_config_def publisherAuth_def Let_def)
  from bad obtain e cs where b: "NewEmbedded token_lib (token_config ''wrong'') [] = (Inl e, cs)" "cs \<noteq> []" by blast
  from good obtain b ds where g: "NewEmbedded token_lib (token_config ''s3'') [] = (Inr b, ds)" "b_nc b = 7" by blast
  have empty: "\<forall>ns. nl_new token_lib (options c) = Inr ns \<longrightarrow> ns \<notin> brokers_up []"
    "\<forall>url nc. nl_connect token_lib url (publisherAuth c) = Inr nc \<longrightarrow> nc \<notin> connected []" for c by simp_all
  show ?thesis
    using bus_leaves_nothing_running [OF b(1) empty] bus_leaves_nothing_running [OF g(1) empty] b g by auto
qed

end
