(* ===== verification/Go_Net.thy ===== *)
theory Go_Net
  imports Go_Url
begin

text \<open>
  The parts of Go's \<open>net\<close> and \<open>strconv\<close> that the start-up of the broker uses:
  \<open>net.SplitHostPort\<close>, \<open>strconv.Atoi\<close>, \<open>net.ParseIP\<close> and \<open>(IP).IsLoopback\<close>. An error is
  \<open>None\<close>; the texts are only ever printed.
\<close>

section \<open>Host and port\<close>

fun index_byte :: "char \<Rightarrow> string \<Rightarrow> nat option" where
  "index_byte d [] = None"
| "index_byte d (c # s) = (if c = d then Some 0 else map_option Suc (index_byte d s))"

definition net_SplitHostPort :: "string \<Rightarrow> (string \<times> string) option" where
  "net_SplitHostPort hp =
     (case last_index_of hp (CHR '':'') of
        None \<Rightarrow> None
      | Some i \<Rightarrow>
          if has_prefix hp ''['' then
            (case index_byte (CHR '']'') hp of
               None \<Rightarrow> None
             | Some e \<Rightarrow>
                 if Suc e \<noteq> i then None
                 else if CHR ''['' \<in> set (drop 1 hp) \<or> CHR '']'' \<in> set (drop (Suc e) hp) then None
                 else Some (drop 1 (take e hp), drop (Suc i) hp))
          else if CHR '':'' \<in> set (take i hp) then None
          else if CHR ''['' \<in> set hp \<or> CHR '']'' \<in> set hp then None
          else Some (take i hp, drop (Suc i) hp))"

definition digit_value :: "char \<Rightarrow> nat" where
  "digit_value c = of_char c - 48"

definition decimal :: "string \<Rightarrow> nat" where
  "decimal ds = foldl (\<lambda>n c. 10 * n + digit_value c) 0 ds"

text \<open>\<open>strconv.Atoi\<close> of a 64-bit \<open>int\<close>: an optional sign, decimal digits, in range.\<close>

definition strconv_Atoi :: "string \<Rightarrow> int option" where
  "strconv_Atoi s =
     (let neg = has_prefix s ''-'';
          ds = (if neg \<or> has_prefix s ''+'' then drop 1 s else s);
          n = (if neg then - int (decimal ds) else int (decimal ds))
      in if ds = [] \<or> \<not> list_all is_digit ds then None
         else if - (2 ^ 63) \<le> n \<and> n < 2 ^ 63 then Some n else None)"

section \<open>IP addresses\<close>

text \<open>One decimal field of a dotted address: no leading zero, at most 255.\<close>

definition ipv4_field :: "string \<Rightarrow> nat option" where
  "ipv4_field f =
     (if f = [] \<or> \<not> list_all is_digit f \<or> length f > 1 \<and> hd f = CHR ''0'' \<or> 255 < decimal f
      then None else Some (decimal f))"

definition ipv4_fields :: "string \<Rightarrow> nat list option" where
  "ipv4_fields s =
     (case map ipv4_field (split_on (CHR ''.'') s) of
        [Some a, Some b, Some c, Some d] \<Rightarrow> Some [a, b, c, d]
      | _ \<Rightarrow> None)"

text \<open>
  The groups of an IPv6 address. \<open>n\<close> groups are still free, \<open>bs\<close> are the bytes so far, \<open>ell\<close> the
  position of \<open>::\<close> among them.
\<close>

fun ipv6_groups :: "nat \<Rightarrow> nat list \<Rightarrow> nat option \<Rightarrow> string \<Rightarrow> (nat list \<times> nat option) option" where
  "ipv6_groups 0 bs ell s = (if s = [] then Some (bs, ell) else None)"
| "ipv6_groups (Suc n) bs ell s =
     (let g = takeWhile is_hex s; rest = dropWhile is_hex s; v = foldl (\<lambda>a c. 16 * a + unhex c) 0 g
      in if g = [] \<or> 4 < length g then None
         else if has_prefix rest ''.'' then
           (if ell = None \<and> n \<noteq> 1 \<or> n = 0 then None
            else map_option (\<lambda>q. (bs @ q, ell)) (ipv4_fields s))
         else (let bs = bs @ [v div 256, v mod 256]
           in if rest = [] then Some (bs, ell)
              else if hd rest \<noteq> CHR '':'' \<or> tl rest = [] then None
              else if hd (tl rest) = CHR '':'' then
                (if ell \<noteq> None then None
                 else if tl (tl rest) = [] then Some (bs, Some (length bs))
                 else ipv6_groups n bs (Some (length bs)) (tl (tl rest)))
              else ipv6_groups n bs ell (tl rest)))"

definition ipv6_expand :: "nat list \<Rightarrow> nat option \<Rightarrow> nat list option" where
  "ipv6_expand bs ell =
     (if length bs < 16 then
        (case ell of None \<Rightarrow> None
         | Some e \<Rightarrow> Some (take e bs @ replicate (16 - length bs) 0 @ drop e bs))
      else if ell = None then Some bs else None)"

text \<open>An address with a zone parses, but \<open>net.ParseIP\<close> refuses it.\<close>

definition ipv6_parse :: "string \<Rightarrow> nat list option" where
  "ipv6_parse s =
     (if CHR ''%'' \<in> set s then None
      else if s = ''::'' then Some (replicate 16 0)
      else (case (if has_prefix s ''::'' then ipv6_groups 8 [] (Some 0) (drop 2 s) else ipv6_groups 8 [] None s) of
              None \<Rightarrow> None
            | Some (bs, ell) \<Rightarrow> ipv6_expand bs ell))"

definition v4_in_v6 :: "nat list \<Rightarrow> nat list" where
  "v4_in_v6 q = replicate 10 0 @ [255, 255] @ q"

text \<open>\<open>net.ParseIP\<close>: the first of the bytes dot, colon and percent decides the kind.\<close>

definition net_ParseIP :: "string \<Rightarrow> nat list option" where
  "net_ParseIP s =
     (case find (\<lambda>c. c = CHR ''.'' \<or> c = CHR '':'' \<or> c = CHR ''%'') s of
        None \<Rightarrow> None
      | Some c \<Rightarrow> if c = CHR ''.'' then map_option v4_in_v6 (ipv4_fields s)
                  else if c = CHR '':'' then ipv6_parse s else None)"

definition ip_IsLoopback :: "nat list \<Rightarrow> bool" where
  "ip_IsLoopback ip =
     (if take 10 ip = replicate 10 0 \<and> take 2 (drop 10 ip) = [255, 255] then ip ! 12 = 127
      else ip = replicate 15 0 @ [1])"

section \<open>Lemmas\<close>

text \<open>A dotted address is a loopback address exactly if its first field is 127.\<close>

lemma loopback_v4: "ip_IsLoopback (v4_in_v6 [a, b, c, d]) \<longleftrightarrow> a = 127"
  by (simp add: ip_IsLoopback_def v4_in_v6_def numeral_eq_Suc)

lemma ipv6_groups_length:
  "ipv6_groups n bs ell s = Some (bs', ell') \<Longrightarrow> length bs' \<le> length bs + 2 * n"
proof (induction n bs ell s rule: ipv6_groups.induct)
  case (2 n bs ell s)
  then show ?case
    by (auto simp: Let_def ipv4_fields_def split: if_splits list.splits option.splits)
qed (auto split: if_splits)

lemma ParseIP_length: "net_ParseIP s = Some ip \<Longrightarrow> length ip = 16"
proof -
  assume ip: "net_ParseIP s = Some ip"
  have v4: "length q = 4" if "ipv4_fields t = Some q" for t q
    using that by (auto simp: ipv4_fields_def split: list.splits option.splits)
  have v6: "length ip = 16" if "ipv6_expand bs ell = Some ip" "length bs \<le> 16" for bs ell
    using that by (auto simp: ipv6_expand_def split: if_splits option.splits)
  have "length ip = 16" if p: "ipv6_parse s = Some ip"
    using p v6 ipv6_groups_length [of 8 "[]"]
    by (fastforce simp: ipv6_parse_def split: if_splits option.splits)
  with ip v4 show ?thesis
    by (auto simp: net_ParseIP_def v4_in_v6_def split: option.splits if_splits)
qed

text \<open>\<open>To4\<close> of a 16-byte address, and the two loopback ranges.\<close>

lemma loopback_cases:
  assumes "length ip = 16"
  shows "ip_IsLoopback ip \<longleftrightarrow> take 12 ip = replicate 10 0 @ [255, 255] \<and> ip ! 12 = 127 \<or> ip = replicate 15 0 @ [1]"
proof -
  have "take 12 ip = take 10 ip @ take 2 (drop 10 ip)"
    using take_add [of 10 2 ip] by simp
  moreover have "length (take 10 ip) = length (replicate 10 (0::nat))" using assms by simp
  ultimately have "take 12 ip = replicate 10 0 @ [255, 255]
      \<longleftrightarrow> take 10 ip = replicate 10 0 \<and> take 2 (drop 10 ip) = [255, 255]"
    by (metis append_eq_append_conv)
  moreover have "take 12 (replicate 15 (0::nat) @ [1]) \<noteq> replicate 10 0 @ [255, 255]"
    by (simp add: numeral_eq_Suc)
  ultimately show ?thesis by (auto simp: ip_IsLoopback_def)
qed

end
