(* ===== verification/Redis_L2.thy ===== *)
theory Redis_L2
  imports L2_Cache
begin

text \<open>
  The shared cache, \<open>internal/server/redis_cache.go\<close>. The Redis client, the sealer of the storage
  library and protobuf's marshalling are parameters; on a client and codec that behave as
  documented the cache meets the contract of \<open>L2_Cache\<close>.
\<close>

section \<open>Parameters\<close>

text \<open>\<open>Get\<close>, \<open>Set\<close> with an expiry and \<open>Del\<close> of \<open>*redis.Client\<close>.\<close>

record 'rd redis_client =
  rdb_get :: "string \<Rightarrow> 'rd \<Rightarrow> (gerr + string) \<times> 'rd"
  rdb_set :: "string \<Rightarrow> string \<Rightarrow> int \<Rightarrow> 'rd \<Rightarrow> gerr option \<times> 'rd"
  rdb_del :: "string \<Rightarrow> 'rd \<Rightarrow> gerr option \<times> 'rd"

text \<open>\<open>(*store.Sealer).SealBytes/OpenBytes\<close> and \<open>proto.Marshal/Unmarshal\<close>.\<close>

record resp_codec =
  seal_bytes :: "string \<Rightarrow> string"
  open_bytes :: "string \<Rightarrow> gerr + string"
  marshal :: "get_resp \<Rightarrow> gerr + string"
  unmarshal :: "string \<Rightarrow> gerr + get_resp"

section \<open>Definitions\<close>

definition redisKey :: "string \<Rightarrow> string" where
  "redisKey uri = ''priompt:cache:'' @ uri"

definition redis_decode :: "resp_codec \<Rightarrow> string \<Rightarrow> get_resp option" where
  "redis_decode X b =
     (case open_bytes X b of
        Inl _ \<Rightarrow> None
      | Inr b' \<Rightarrow> (case unmarshal X b' of Inl _ \<Rightarrow> None | Inr resp \<Rightarrow> Some resp))"

definition redis_get ::
  "'rd redis_client \<Rightarrow> resp_codec \<Rightarrow> string \<Rightarrow> 'rd \<Rightarrow> get_resp option \<times> 'rd" where
  "redis_get R X uri c =
     (case rdb_get R (redisKey uri) c of
        (Inl _, c') \<Rightarrow> (None, c')
      | (Inr b, c') \<Rightarrow> (redis_decode X b, c'))"

definition redis_put ::
  "'rd redis_client \<Rightarrow> resp_codec \<Rightarrow> int \<Rightarrow> string \<Rightarrow> get_resp \<Rightarrow> 'rd \<Rightarrow> 'rd" where
  "redis_put R X t uri resp c =
     (case marshal X resp of
        Inl _ \<Rightarrow> c
      | Inr b \<Rightarrow> snd (rdb_set R (redisKey uri) (seal_bytes X b) t c))"

definition redis_invalidate :: "'rd redis_client \<Rightarrow> string \<Rightarrow> 'rd \<Rightarrow> gerr option \<times> 'rd" where
  "redis_invalidate R uri c = rdb_del R (redisKey uri) c"

definition redis_cache :: "'rd redis_client \<Rightarrow> resp_codec \<Rightarrow> int \<Rightarrow> 'rd cache" where
  "redis_cache R X t =
     \<lparr>c_get = redis_get R X, c_put = redis_put R X t, c_invalidate = redis_invalidate R\<rparr>"

text \<open>
  \<open>connect\<close> is what \<open>redis.ParseURL\<close>, \<open>redis.NewClient\<close> and the \<open>PING\<close> of the constructor give for a
  URL: a client, or the error of the first that fails.
\<close>

definition NewRedisCache ::
  "(string \<Rightarrow> gerr + 'rd redis_client) \<Rightarrow> string \<Rightarrow> int \<Rightarrow> resp_codec \<Rightarrow> gerr + 'rd cache" where
  "NewRedisCache connect url t X =
     (case connect url of Inl e \<Rightarrow> Inl e | Inr R \<Rightarrow> Inr (redis_cache R X t))"

lemma redis_cache_simps [simp]:
  "c_get (redis_cache R X t) = redis_get R X"
  "c_put (redis_cache R X t) = redis_put R X t"
  "c_invalidate (redis_cache R X t) = redis_invalidate R"
  by (simp_all add: redis_cache_def)

lemma redisKey_inject [simp]: "redisKey u = redisKey v \<longleftrightarrow> u = v"
  by (simp add: redisKey_def)

section \<open>What the code relies on\<close>

text \<open>
  A Redis client over a key-value store \<open>kv\<close>: an answer of GET is the stored value, a SET writes
  at most its own key, a DEL removes nothing but its key, and one that reports no error removed it.
  Any call may fail, and any key may disappear at any time (expiry, eviction).
\<close>

definition redis_laws :: "'rd redis_client \<Rightarrow> ('rd \<Rightarrow> string \<Rightarrow> string option) \<Rightarrow> bool" where
  "redis_laws R kv \<longleftrightarrow>
     (\<forall>k c b. fst (rdb_get R k c) = Inr b \<longrightarrow> kv c k = Some b)
   \<and> (\<forall>k c j x. kv (snd (rdb_get R k c)) j = Some x \<longrightarrow> kv c j = Some x)
   \<and> (\<forall>k b t c j x. kv (snd (rdb_set R k b t c)) j = Some x \<longrightarrow> (j = k \<and> x = b) \<or> kv c j = Some x)
   \<and> (\<forall>k c j x. kv (snd (rdb_del R k c)) j = Some x \<longrightarrow> kv c j = Some x)
   \<and> (\<forall>k c. fst (rdb_del R k c) = None \<longrightarrow> kv (snd (rdb_del R k c)) k = None)"

text \<open>What is sealed opens to itself, and what is marshalled unmarshals to itself.\<close>

definition codec_laws :: "resp_codec \<Rightarrow> bool" where
  "codec_laws X \<longleftrightarrow> (\<forall>b. open_bytes X (seal_bytes X b) = Inr b)
     \<and> (\<forall>r b. marshal X r = Inr b \<longrightarrow> unmarshal X b = Inr r)"

lemma redis_lawsD:
  assumes "redis_laws R kv"
  shows "fst (rdb_get R k c) = Inr b \<Longrightarrow> kv c k = Some b"
    and "kv (snd (rdb_get R k c)) j = Some x \<Longrightarrow> kv c j = Some x"
    and "kv (snd (rdb_set R k b t c)) j = Some x \<Longrightarrow> (j = k \<and> x = b) \<or> kv c j = Some x"
    and "kv (snd (rdb_del R k c)) j = Some x \<Longrightarrow> kv c j = Some x"
    and "fst (rdb_del R k c) = None \<Longrightarrow> kv (snd (rdb_del R k c)) k = None"
  using assms unfolding redis_laws_def by blast+

lemma redis_decode_seal:
  "codec_laws X \<Longrightarrow> marshal X r = Inr b \<Longrightarrow> redis_decode X (seal_bytes X b) = Some r"
  by (simp add: codec_laws_def redis_decode_def)

definition redis_view ::
  "resp_codec \<Rightarrow> ('rd \<Rightarrow> string \<Rightarrow> string option) \<Rightarrow> 'rd \<Rightarrow> string \<Rightarrow> get_resp option" where
  "redis_view X kv c u = Option.bind (kv c (redisKey u)) (redis_decode X)"

lemma redis_view_Some:
  "redis_view X kv c u = Some r \<longleftrightarrow> (\<exists>b. kv c (redisKey u) = Some b \<and> redis_decode X b = Some r)"
  by (auto simp: redis_view_def bind_eq_Some_conv)

text \<open>
  C34. Over a Redis client and a codec that behave as documented, the shared cache meets the
  contract of the server's cache: what it answers was put for that very address, sealed with this
  key, and an invalidation it reports as done is one after which no reader finds the entry.
\<close>

theorem redis_cache_meets_contract:
  assumes "redis_laws R kv" and "codec_laws X"
  shows "l2_cache (redis_cache R X t) (redis_view X kv)"
proof
  fix u v c r x
  note D = redis_lawsD [OF assms(1)]
  show "redis_view X kv c u = Some r" if "fst (c_get (redis_cache R X t) u c) = Some r"
    using that D(1) [of "redisKey u" c]
    by (auto simp: redis_get_def redis_view_Some split: prod.splits sum.splits)
  show "redis_view X kv c v = Some r"
    if "redis_view X kv (snd (c_get (redis_cache R X t) u c)) v = Some r"
    using that D(2) [of "redisKey u" c]
    by (auto simp: redis_get_def redis_view_Some split: prod.splits sum.splits)
  show "(v = u \<and> x = r) \<or> redis_view X kv c v = Some x"
    if "redis_view X kv (c_put (redis_cache R X t) u r c) v = Some x"
    using that D(3) [of "redisKey u" _ t c] redis_decode_seal [OF assms(2)]
    by (fastforce simp: redis_put_def redis_view_Some split: sum.splits)
  show "redis_view X kv c v = Some x"
    if "redis_view X kv (snd (c_invalidate (redis_cache R X t) u c)) v = Some x"
    using that D(4) [of "redisKey u" c] by (auto simp: redis_invalidate_def redis_view_Some)
  show "redis_view X kv (snd (c_invalidate (redis_cache R X t) u c)) u = None"
    if "fst (c_invalidate (redis_cache R X t) u c) = None"
    using that D(5) [of "redisKey u" c] by (simp add: redis_invalidate_def redis_view_def)
qed

text \<open>An instance: a client over a map, a tagging seal and a codec for a bare address.\<close>

definition map_client :: "(string \<Rightarrow> string option) redis_client" where
  "map_client =
     \<lparr>rdb_get = (\<lambda>k c. (case c k of None \<Rightarrow> Inl (Gerr [] ''redis: nil'') | Some b \<Rightarrow> Inr b, c)),
      rdb_set = (\<lambda>k b t c. (None, c(k \<mapsto> b))),
      rdb_del = (\<lambda>k c. (None, c(k := None)))\<rparr>"

definition uri_codec :: resp_codec where
  "uri_codec =
     \<lparr>seal_bytes = (\<lambda>b. ''enc1:'' @ b),
      open_bytes = (\<lambda>b. if has_prefix b ''enc1:'' then Inr (trim_prefix b ''enc1:'')
                        else Inl (Gerr [] ''not sealed'')),
      marshal = (\<lambda>r. if r = \<lparr>g_uri = g_uri r, g_template = '''', g_slots = [],
                             g_version_hash = '''', g_commit_hash = ''''\<rparr>
                     then Inr (g_uri r) else Inl (Gerr [] ''unsupported'')),
      unmarshal = (\<lambda>b. Inr \<lparr>g_uri = b, g_template = '''', g_slots = [], g_version_hash = '''',
                            g_commit_hash = ''''\<rparr>)\<rparr>"

lemma map_client_laws: "redis_laws map_client (\<lambda>c. c)"
  by (auto simp: redis_laws_def map_client_def split: option.splits if_splits)

lemma uri_codec_laws: "codec_laws uri_codec"
  unfolding codec_laws_def uri_codec_def
  by (auto split: if_splits simp del: append_Cons)

theorem redis_cache_meets_contract_witness:
  "redis_laws map_client (\<lambda>c. c) \<and> codec_laws uri_codec
   \<and> l2_cache (redis_cache map_client uri_codec 30) (redis_view uri_codec (\<lambda>c. c))"
  using map_client_laws uri_codec_laws
    redis_cache_meets_contract [OF map_client_laws uri_codec_laws] by blast

end
