(* ===== verification/Serve_Startup.thy ===== *)
theory Serve_Startup
  imports Nats_Broker Go_Net Redis_L2 Sample_Registry
begin

text \<open>
  What \<open>priompt serve\<close> decides before it serves (\<open>cmd/priompt/main.go\<close>): which flag combinations
  it refuses, how the broker is configured and guarded, who may subscribe, which cache is built,
  whether the encryption key fits, and the demo prompt.
\<close>

section \<open>Stopping\<close>

text \<open>
  \<open>log.Fatal\<close> ends the process: a format and its arguments, the texts of wrapped errors left out.
\<close>

datatype fatal = Fatal (fatal_format: string) (fatal_args: "string list")

definition checkTLSFlags :: "string \<Rightarrow> string \<Rightarrow> string \<Rightarrow> string option" where
  "checkTLSFlags cert key clientCA =
     (if (cert = '''') \<noteq> (key = '''') then Some ''-tls-cert and -tls-key must be set together''
      else if clientCA \<noteq> '''' \<and> cert = '''' then Some ''-client-ca requires -tls-cert and -tls-key''
      else None)"

section \<open>Addresses\<close>

definition isLoopback :: "string \<Rightarrow> bool" where
  "isLoopback host =
     (if host = ''127.0.0.1'' \<or> host = ''::1'' \<or> host = ''localhost'' then True
      else if host = '''' \<or> host = ''0.0.0.0'' \<or> host = ''::'' then False
      else (case net_ParseIP host of None \<Rightarrow> False | Some ip \<Rightarrow> ip_IsLoopback ip))"

definition splitHostPort :: "string \<Rightarrow> fatal + string \<times> int" where
  "splitHostPort addr =
     (case net_SplitHostPort addr of
        None \<Rightarrow> Inl (Fatal ''bad -nats-addr %q: %v'' [addr])
      | Some (host, portStr) \<Rightarrow>
          (case strconv_Atoi portStr of
             None \<Rightarrow> Inl (Fatal ''bad -nats-addr port %q: %v'' [portStr])
           | Some port \<Rightarrow> Inr (if host = '''' then ''0.0.0.0'' else host, port)))"

section \<open>The broker\<close>

text \<open>An authentication provider: \<open>Authenticate(ctx, header)\<close>.\<close>

type_synonym provider = "string \<Rightarrow> gerr + identity"

fun nats_try :: "provider list \<Rightarrow> authenticate" where
  "nats_try [] token = ('''', time_zero, False)"
| "nats_try (p # ps) token =
     (case p (''Bearer '' @ token) of
        Inr i \<Rightarrow> (id_org i, id_expires i, True)
      | Inl e \<Rightarrow> if \<not> errors_is e Err_Unrecognized then ('''', time_zero, False) else nats_try ps token)"

definition natsAuth :: "provider list \<Rightarrow> authenticate option" where
  "natsAuth providers = (if providers = [] then None else Some (nats_try providers))"

text \<open>The flags of \<open>serve\<close> about the broker.\<close>

record broker_flags =
  natsAddr :: string
  natsToken :: string
  natsRoutes :: string
  natsCluster :: string
  natsClusterSecret :: string

definition not_loopback_msg :: string where
  "not_loopback_msg = ''-nats-addr %s is not loopback: set -nats-token (or PRIOMPT_NATS_TOKEN) ''
     @ ''so subscribers must authenticate, or bind NATS to 127.0.0.1''"

definition cluster_not_loopback_msg :: string where
  "cluster_not_loopback_msg = ''-nats-cluster-addr %s is not loopback: set -nats-cluster-secret ''
     @ ''(or PRIOMPT_NATS_CLUSTER_SECRET) so cluster peers must authenticate. ''
     @ ''Keep this port on a trusted network either way '' @ [CHR 0xE2, CHR 0x80, CHR 0x94]
     @ '' it also accepts client ''
     @ ''connections''"

definition with_cluster :: "broker_flags \<Rightarrow> config \<Rightarrow> fatal + config" where
  "with_cluster F cfg =
     (if natsCluster F \<noteq> '''' then
        (case splitHostPort (natsCluster F) of
           Inl e \<Rightarrow> Inl e
         | Inr (ch, cp) \<Rightarrow>
             (let cfg = cfg\<lparr>cfg_cluster_name := ''priompt'', cfg_cluster_host := ch, cfg_cluster_port := cp,
                            cfg_route_secret := natsClusterSecret F\<rparr>
              in if cfg_route_secret cfg = '''' \<and> \<not> isLoopback ch
                 then Inl (Fatal cluster_not_loopback_msg [natsCluster F]) else Inr cfg))
      else Inr cfg)"

definition serve_broker :: "broker_flags \<Rightarrow> provider list \<Rightarrow> fatal + config option" where
  "serve_broker F providers =
     (if natsAddr F = '''' then Inr None
      else (case splitHostPort (natsAddr F) of
        Inl e \<Rightarrow> Inl e
      | Inr (host, port) \<Rightarrow>
          (let cfg = \<lparr>cfg_host = host, cfg_port = port, cfg_token = natsToken F,
                      cfg_authenticate = natsAuth providers, cfg_users = [], cfg_routes = [],
                      cfg_cluster_name = '''', cfg_cluster_host = '''', cfg_cluster_port = 0,
                      cfg_route_secret = ''''\<rparr>
           in if cfg_token cfg = '''' \<and> \<not> isLoopback host
              then Inl (Fatal not_loopback_msg [natsAddr F])
              else (case with_cluster F cfg of
                      Inl e \<Rightarrow> Inl e
                    | Inr cfg \<Rightarrow> Inr (Some (if natsRoutes F \<noteq> ''''
                        then cfg\<lparr>cfg_routes := split_on (CHR '','') (natsRoutes F)\<rparr> else cfg))))))"

section \<open>The cache\<close>

text \<open>The cache a server is given: one over Redis, the in-process one, or none.\<close>

datatype 'rd server_cache = Shared "'rd cache" | In_process ttl_cache | Uncached

definition buildCache ::
  "(string \<Rightarrow> gerr + 'rd redis_client) \<Rightarrow> (gerr + resp_codec) \<Rightarrow> gotime \<Rightarrow> string \<Rightarrow> int \<Rightarrow> fatal + 'rd server_cache" where
  "buildCache connect newSealer now redisURL t =
     (if redisURL \<noteq> '''' then
        (case newSealer of
           Inl e \<Rightarrow> Inl (Fatal ''encryption key: %v'' [])
         | Inr X \<Rightarrow> (case NewRedisCache connect redisURL t X of
                     Inl e \<Rightarrow> Inl (Fatal ''redis: %v'' [])
                   | Inr K \<Rightarrow> Inr (Shared K)))
      else Inr (case NewMemCache now t of None \<Rightarrow> Uncached | Some c \<Rightarrow> In_process c))"

definition cacheName :: "string \<Rightarrow> int \<Rightarrow> string" where
  "cacheName redisURL t = (if redisURL \<noteq> '''' then ''redis'' else if 0 < t then ''mem'' else ''off'')"

definition embedName :: "string \<Rightarrow> string \<Rightarrow> string" where
  "embedName url model = (if url = '''' then ''lexical(offline)'' else model @ ''@'' @ url)"

section \<open>The stored prompts\<close>

text \<open>
  \<open>dump\<close> is \<open>st.Dump\<close>, \<open>key\<close> the variable \<open>PRIOMPT_ENCRYPTION_KEY\<close>. The result is the error that
  stops the server, if any, and the log.
\<close>

definition checkEncryptionKey :: "gerr + 'a \<Rightarrow> string \<Rightarrow> string option \<times> log_line list" where
  "checkEncryptionKey dump key =
     (case dump of
        Inr _ \<Rightarrow> (None, [])
      | Inl e \<Rightarrow>
          if key = '''' \<and> errors_is e Json_Syntax then
            (Some (''encryption key missing or wrong: the database holds encrypted prompts ''
                   @ ''but PRIOMPT_ENCRYPTION_KEY is not set''), [])
          else if key \<noteq> '''' \<and> contains (err_text e) ''decrypt column'' then
            (Some (''encryption key missing or wrong: PRIOMPT_ENCRYPTION_KEY does not decrypt ''
                   @ ''the stored prompts (it must be the key they were written with)''), [])
          else (None, [(''startup read of stored prompts failed: %v'', [err_text e])]))"

definition demo_uri :: string where
  "demo_uri = ''priompt://acme/onboarding/welcome''"

definition seedDemo :: "'st store \<Rightarrow> 'st \<Rightarrow> 'st \<times> log_line list" where
  "seedDemo st s =
     (case st_get st demo_uri s of
        ((p, err), s1) \<Rightarrow>
          if \<not> (case err of None \<Rightarrow> False | Some e \<Rightarrow> errors_is e Err_NotFound) then (s1, [])
          else (case st_commit st demo_uri ''main'' (''Hi {name}, welcome to {org}!'' @ [LF]) [''name'', ''org'']
                       ''priompt'' ''seed: demo prompt'' s1 of
                  (Inl e, s2) \<Rightarrow> (s2, [(''seed demo prompt: %v'', [err_text e])])
                | (Inr _, s2) \<Rightarrow> (s2, [(''seeded demo prompt %s'', [demo_uri])])))"

section \<open>Properties\<close>

text \<open>
  The host names \<open>isLoopback\<close> decides by hand agree with the rule it falls back on: a host is
  taken for loopback exactly if it is \<open>localhost\<close> or an IP address, in whatever notation, of
  \<open>127.0.0.0/8\<close> or \<open>::1\<close>.
\<close>

theorem isLoopback_iff_address:
  "isLoopback host \<longleftrightarrow> host = ''localhost'' \<or> (\<exists>ip. net_ParseIP host = Some ip
     \<and> (take 12 ip = replicate 10 0 @ [255, 255] \<and> ip ! 12 = 127 \<or> ip = replicate 15 0 @ [1]))"
proof -
  let ?loop = "\<lambda>h. case net_ParseIP h of None \<Rightarrow> False | Some ip \<Rightarrow> ip_IsLoopback ip"
  have "?loop ''127.0.0.1''" "?loop ''::1''" "\<not> ?loop ''''" "\<not> ?loop ''0.0.0.0''" "\<not> ?loop ''::''"
    by code_simp+
  then have "isLoopback host \<longleftrightarrow> host = ''localhost'' \<or> ?loop host"
    unfolding isLoopback_def by (metis (no_types))
  moreover have "?loop host \<longleftrightarrow> (\<exists>ip. net_ParseIP host = Some ip
     \<and> (take 12 ip = replicate 10 0 @ [255, 255] \<and> ip ! 12 = 127 \<or> ip = replicate 15 0 @ [1]))"
    using loopback_cases ParseIP_length [of host] by (cases "net_ParseIP host") simp_all
  ultimately show ?thesis by blast
qed

lemma serve_broker_Some:
  assumes "serve_broker F ps = Inr (Some c)"
  obtains port where "splitHostPort (natsAddr F) = Inr (cfg_host c, port)"
    and "cfg_token c = natsToken F" and "cfg_authenticate c = natsAuth ps" and "cfg_users c = []"
    and "natsToken F \<noteq> '''' \<or> isLoopback (cfg_host c)"
    and "if natsCluster F \<noteq> '''' then cfg_route_secret c = natsClusterSecret F
           \<and> (natsClusterSecret F \<noteq> '''' \<or> isLoopback (cfg_cluster_host c))
         else cfg_route_secret c = '''' \<and> cfg_cluster_port c = 0"
    and "cfg_routes c = (if natsRoutes F \<noteq> '''' then split_on (CHR '','') (natsRoutes F) else [])"
  using assms
  by (auto simp: serve_broker_def with_cluster_def Let_def split: if_splits sum.splits prod.splits)

text \<open>
  A broker that can be reached from outside is never open: if \<open>serve\<close> starts one on a host that
  is not loopback, its options demand a credential, with the token as the only one that may
  publish; and a cluster port on a host that is not loopback has a secret.
\<close>

theorem exposed_broker_demands_credentials:
  assumes "serve_broker F ps = Inr (Some c)" and "\<not> isLoopback (cfg_host c)"
  shows "natsToken F \<noteq> ''''
       \<and> (case o_custom (options c) of
            Some a \<Rightarrow> ca_token a = natsToken F \<and> client_check a '''' = None
              \<and> (\<forall>tok u. client_check a tok = Some u \<and> nu_permissions u = None \<longrightarrow> tok = natsToken F)
          | None \<Rightarrow> o_authorization (options c) = natsToken F)
       \<and> (natsCluster F \<noteq> '''' \<and> \<not> isLoopback (cfg_cluster_host c) \<longrightarrow> cfg_route_secret c \<noteq> '''')"
proof -
  obtain port where c: "cfg_token c = natsToken F" "cfg_users c = []"
    "natsToken F \<noteq> '''' \<or> isLoopback (cfg_host c)"
    "if natsCluster F \<noteq> '''' then cfg_route_secret c = natsClusterSecret F
           \<and> (natsClusterSecret F \<noteq> '''' \<or> isLoopback (cfg_cluster_host c))
         else cfg_route_secret c = '''' \<and> cfg_cluster_port c = 0"
    using serve_broker_Some [OF assms(1)] by metis
  have tok: "natsToken F \<noteq> ''''" using c(3) assms(2) by blast
  then show ?thesis
    using c(1,2,4)
    by (cases "cfg_authenticate c")
       (auto simp: options_auth client_check_def Let_def split: prod.splits if_splits)
qed

text \<open>
  Routes given without a cluster address lose the cluster secret: \<open>-nats-routes\<close> with
  \<open>-nats-cluster-secret\<close> but no \<open>-nats-cluster-addr\<close> configures the routes, and dials every one
  that names no credential of its own without any.
\<close>

theorem routes_without_cluster_address_drop_the_secret:
  assumes "serve_broker F ps = Inr (Some c)" and "natsCluster F = ''''" and "natsRoutes F \<noteq> ''''"
    and "r \<in> set (split_on (CHR '','') (natsRoutes F))" and "url_parse r = Some p" and "u_user p = None"
  shows "p \<in> set (o_routes (options c)) \<and> cfg_route_secret c = ''''"
proof -
  have c: "cfg_route_secret c = ''''" "cfg_routes c = split_on (CHR '','') (natsRoutes F)"
    using serve_broker_Some [OF assms(1)] assms(2,3) by metis+
  have "route_url '''' r = Some p" using assms(5,6) by (simp add: route_url_def)
  then show ?thesis using c assms(4) by (auto simp: options_routes set_map_filter)
qed

text \<open>
  Where the rule for the client address does not reach: a broker on loopback needs no token, and with
  \<open>-nats-cluster-addr\<close> on a public address it is started with a cluster port to which anyone can
  connect as a client, as that port admits clients by their credentials and none is demanded.
\<close>

lemma public_cluster_port_without_token:
  "\<exists>c. serve_broker \<lparr>natsAddr = ''127.0.0.1:4222'', natsToken = '''', natsRoutes = '''', natsCluster = '':6222'',
                    natsClusterSecret = ''s3''\<rparr> ps = Inr (Some c)
     \<and> cfg_cluster_host c = ''0.0.0.0'' \<and> cfg_cluster_port c = 6222
     \<and> o_users (options c) = [] \<and> o_custom (options c) = None \<and> o_authorization (options c) = ''''"
proof -
  have "splitHostPort ''127.0.0.1:4222'' = Inr (''127.0.0.1'', 4222)" "splitHostPort '':6222'' = Inr (''0.0.0.0'', 6222)"
    by code_simp+
  then show ?thesis
    by (auto simp: serve_broker_def with_cluster_def isLoopback_def options_auth)
qed

text \<open>
  A client's token is worth on the broker what the first provider that recognises it says: it is
  admitted exactly if that provider accepts it, with that identity's org and expiry; a provider
  that recognises and rejects it (an expired token) ends the search.
\<close>

theorem nats_auth_follows_first_provider_that_recognises:
  assumes "\<forall>p\<in>set qs. \<exists>e. p (''Bearer '' @ tok) = Inl e \<and> errors_is e Err_Unrecognized"
    and "\<forall>e. p (''Bearer '' @ tok) = Inl e \<longrightarrow> \<not> errors_is e Err_Unrecognized"
  shows "natsAuth (qs @ p # ps) = Some (nats_try (qs @ p # ps))
       \<and> nats_try (qs @ p # ps) tok = (case p (''Bearer '' @ tok) of
            Inr i \<Rightarrow> (id_org i, id_expires i, True) | Inl e \<Rightarrow> ('''', time_zero, False))
       \<and> nats_try qs tok = ('''', time_zero, False)"
  using assms by (induction qs) (auto simp: natsAuth_def split: sum.splits)

text \<open>
  The name the start-up line gives the cache is the cache that was built, and a time to live of
  zero or less, which turns the in-process cache off, does not turn the Redis cache off: it is built
  with that very time to live.
\<close>

theorem cache_built_as_named:
  "(case buildCache connect newSealer now redisURL t of
      Inr (Shared K) \<Rightarrow> cacheName redisURL t = ''redis''
        \<and> (\<exists>R X. connect redisURL = Inr R \<and> newSealer = Inr X \<and> K = redis_cache R X t)
    | Inr (In_process c) \<Rightarrow> cacheName redisURL t = ''mem'' \<and> ttl c = t \<and> 0 < t
    | Inr Uncached \<Rightarrow> cacheName redisURL t = ''off'' \<and> t \<le> 0
    | Inl e \<Rightarrow> redisURL \<noteq> '''')"
  by (auto simp: buildCache_def cacheName_def NewMemCache_def NewRedisCache_def split: sum.splits option.splits)

text \<open>
  The demo prompt is seeded once and overwrites nothing: whatever is served stays served,
  and after a seeding whose commit succeeds the next start writes nothing.
\<close>

theorem demo_is_seeded_once:
  assumes "store_contract L st" and "default_branch L = ''main''" and "seedDemo st s = (s1, log1)"
  shows "(\<forall>v p. served st s v = (p, None) \<longrightarrow> served st s1 v = (p, None))
       \<and> (log1 = [(''seeded demo prompt %s'', [demo_uri])] \<longrightarrow> seedDemo st s1 = (s1, []))"
proof -
  note pure = reads_pure_get [OF store_contractD(1) [OF assms(1)]]
  obtain p err where sv: "served st s demo_uri = (p, err)" by fastforce
  show ?thesis
  proof (cases "case err of None \<Rightarrow> False | Some e \<Rightarrow> errors_is e Err_NotFound")
    case False
    with sv pure assms(3) show ?thesis by (simp add: seedDemo_def)
  next
    case True
    obtain x s2 where cm: "st_commit st demo_uri ''main'' (''Hi {name}, welcome to {org}!'' @ [LF]) [''name'', ''org'']
        ''priompt'' ''seed: demo prompt'' s = (x, s2)" by fastforce
    note commit = commit_contractD [OF store_contractD(2) [OF assms(1)] cm, unfolded assms(2)]
    have "served st s v = (q, None) \<Longrightarrow> v \<noteq> demo_uri" for v q using True sv by auto
    moreover have "s1 = s2" "(\<exists>c. x = Inr c) \<longleftrightarrow> log1 = [(''seeded demo prompt %s'', [demo_uri])]"
      using assms(3) sv True pure cm by (auto simp: seedDemo_def split: sum.splits)
    moreover have "seedDemo st s2 = (s2, [])" if "\<exists>c. x = Inr c"
      using that commit(2) pure by (auto simp: seedDemo_def)
    ultimately show ?thesis using commit(1) by auto
  qed
qed

section \<open>Witnesses\<close>

definition public_flags :: broker_flags where
  "public_flags = \<lparr>natsAddr = '':4222'', natsToken = ''root'', natsRoutes = ''nats://n2:6222'', natsCluster = '''',
                   natsClusterSecret = ''s3''\<rparr>"

definition acme_provider :: provider where
  "acme_provider h = (if h = ''Bearer t1''
     then Inr \<lparr>id_org = ''acme'', id_sub = '''', id_write = False, id_expires = time_zero\<rparr>
     else Inl (Gerr [Err_Unrecognized] ''unrecognized''))"

definition deaf_provider :: provider where
  "deaf_provider h = Inl (Gerr [Err_Unrecognized] ''unrecognized'')"

lemma public_broker: "\<exists>c. serve_broker public_flags [acme_provider] = Inr (Some c) \<and> cfg_host c = ''0.0.0.0''"
proof -
  have "splitHostPort '':4222'' = Inr (''0.0.0.0'', 4222)" by code_simp
  then show ?thesis by (simp add: serve_broker_def public_flags_def with_cluster_def)
qed

theorem exposed_broker_demands_credentials_witness:
  "\<exists>c. serve_broker public_flags [acme_provider] = Inr (Some c) \<and> \<not> isLoopback (cfg_host c)
     \<and> natsToken public_flags \<noteq> ''''"
proof -
  obtain c where c: "serve_broker public_flags [acme_provider] = Inr (Some c)" "cfg_host c = ''0.0.0.0''"
    using public_broker by blast
  have open': "\<not> isLoopback (cfg_host c)" unfolding c(2) by (simp add: isLoopback_def)
  with exposed_broker_demands_credentials [OF c(1) open'] c(1) show ?thesis by blast
qed

theorem routes_without_cluster_address_drop_the_secret_witness:
  "\<exists>c p. serve_broker public_flags [acme_provider] = Inr (Some c) \<and> natsClusterSecret public_flags = ''s3''
     \<and> p \<in> set (o_routes (options c)) \<and> cfg_route_secret c = ''''"
proof -
  obtain c where c: "serve_broker public_flags [acme_provider] = Inr (Some c)" using public_broker by blast
  have "case url_parse ''nats://n2:6222'' of Some p \<Rightarrow> u_user p = None | None \<Rightarrow> False" by code_simp
  then obtain p where p: "url_parse ''nats://n2:6222'' = Some p" "u_user p = None"
    by (auto split: option.splits)
  have "natsCluster public_flags = ''''" "natsRoutes public_flags \<noteq> ''''"
    "''nats://n2:6222'' \<in> set (split_on (CHR '','') (natsRoutes public_flags))"
    by (simp_all add: public_flags_def)
  from routes_without_cluster_address_drop_the_secret [OF c this p] c show ?thesis
    by (auto simp: public_flags_def)
qed

theorem nats_auth_follows_first_provider_that_recognises_witness:
  "natsAuth [deaf_provider, acme_provider] = Some (nats_try [deaf_provider, acme_provider])
   \<and> nats_try [deaf_provider, acme_provider] ''t1'' = (''acme'', time_zero, True)"
  using nats_auth_follows_first_provider_that_recognises [of "[deaf_provider]" "''t1''" acme_provider "[]"]
  by (simp add: deaf_provider_def acme_provider_def)

theorem demo_is_seeded_once_witness:
  "\<exists>s1 log1. seedDemo sample_ops sample_empty = (s1, log1)
     \<and> log1 = [(''seeded demo prompt %s'', [demo_uri])] \<and> seedDemo sample_ops s1 = (s1, [])"
proof -
  obtain s1 log1 where run: "seedDemo sample_ops sample_empty = (s1, log1)" by fastforce
  moreover have "log1 = [(''seeded demo prompt %s'', [demo_uri])]"
    using run by (simp add: seedDemo_def find_head_def sample_empty_def not_found_def sample_commit_def Let_def)
  ultimately show ?thesis
    using demo_is_seeded_once [OF sample_store_contract _ run] by simp
qed

end
