(* ===== verification/Cli_Text.thy ===== *)
theory Cli_Text
  imports Serve_Startup Prompt_Server
begin

text \<open>
  The command line's handling of text (\<open>cmd/priompt/main.go\<close>): templates read from files, lines
  for the diff, credentials in log lines, the connection string, and the build stamp.
\<close>

section \<open>Templates and lines\<close>

definition utf8BOM :: string where
  "utf8BOM = [CHR 0xEF, CHR 0xBB, CHR 0xBF]"

definition normalizeTemplate :: "string \<Rightarrow> gerr + string" where
  "normalizeTemplate t =
     (if has_prefix t [CHR 0xFF, CHR 0xFE] \<or> has_prefix t [CHR 0xFE, CHR 0xFF] \<or> CHR 0x00 \<in> set t
      then Inl (Gerr [] ''file is UTF-16; save as UTF-8'')
      else Inr (crlf_to_lf (trim_prefix t utf8BOM)))"

text \<open>\<open>splitLines\<close> of the command line, a second copy of the server's.\<close>

definition cli_splitLines :: "string \<Rightarrow> string list" where
  "cli_splitLines s =
     (let s = crlf_to_lf s;
          s = (if \<not> has_suffix s [LF] then s @ [LF] else s)
      in split_on LF s)"

text \<open>A text as a Windows editor saves it: CRLF line ends.\<close>

fun to_crlf :: "string \<Rightarrow> string" where
  "to_crlf [] = []"
| "to_crlf (c # s) = (if c = LF then CR # LF # to_crlf s else c # to_crlf s)"

lemma crlf_to_lf_to_crlf: "CR \<notin> set t \<Longrightarrow> crlf_to_lf (to_crlf t) = t"
  by (induction t) (auto simp: crlf_to_lf_Cons_other)

lemma set_to_crlf: "set (to_crlf t) \<subseteq> insert CR (set t)"
  by (induction t) auto

lemma prefix_to_crlf: "has_prefix (to_crlf t) p \<Longrightarrow> CR \<notin> set p \<Longrightarrow> has_prefix t p"
proof (induction p arbitrary: t)
  case (Cons a p)
  then show ?case by (cases t) (auto simp: has_prefix_def split: if_splits)
qed simp

text \<open>
  Whatever a Windows editor does to a template, what is stored is the same: saved with a byte
  order mark, with CRLF line ends, with both or with neither, a text free of carriage returns and
  NUL bytes normalizes to itself.
\<close>

theorem windows_text_normalizes_to_plain:
  assumes "CR \<notin> set t" and "CHR 0x00 \<notin> set t" and "\<not> has_prefix t utf8BOM"
    and "\<not> has_prefix t [CHR 0xFF, CHR 0xFE]" and "\<not> has_prefix t [CHR 0xFE, CHR 0xFF]"
  shows "normalizeTemplate t = Inr t \<and> normalizeTemplate (to_crlf t) = Inr t
       \<and> normalizeTemplate (utf8BOM @ t) = Inr t \<and> normalizeTemplate (utf8BOM @ to_crlf t) = Inr t"
proof -
  have nul: "CHR 0x00 \<notin> set (to_crlf t)" using set_to_crlf [of t] assms(2) by auto
  have pre: "\<not> has_prefix (to_crlf t) p" if "\<not> has_prefix t p" "CR \<notin> set p" for p
    using that prefix_to_crlf by blast
  have u16: "\<not> has_prefix (to_crlf t) [CHR 0xFF, CHR 0xFE]" "\<not> has_prefix (to_crlf t) [CHR 0xFE, CHR 0xFF]"
    and bom: "\<not> has_prefix (to_crlf t) utf8BOM"
    using pre assms(3-5) by (auto simp: utf8BOM_def)
  show ?thesis
    using assms nul u16 bom crlf_to_lf_to_crlf [OF assms(1)]
    by (simp add: normalizeTemplate_def trim_prefix_id crlf_to_lf_no_CR) (simp add: utf8BOM_def)
qed

theorem windows_text_normalizes_to_plain_witness:
  "normalizeTemplate (utf8BOM @ ''Hi {name}'' @ [CR, LF] @ ''bye'' @ [CR, LF])
   = Inr (''Hi {name}'' @ [LF] @ ''bye'' @ [LF])"
  using windows_text_normalizes_to_plain [of "''Hi {name}'' @ [LF] @ ''bye'' @ [LF]"]
  by (simp add: utf8BOM_def)

text \<open>
  The command line and the server cut a text into the same lines, and a missing newline at the
  end makes no difference to them, nor do CRLF line ends.
\<close>

theorem line_splitting_agrees:
  assumes "CR \<notin> set s"
  shows "cli_splitLines s = splitLines s \<and> splitLines (to_crlf s) = splitLines s
       \<and> (\<not> has_suffix s [LF] \<longrightarrow> splitLines (s @ [LF]) = splitLines s)"
  using assms crlf_to_lf_to_crlf [OF assms]
  by (simp add: cli_splitLines_def splitLines_def Let_def crlf_to_lf_no_CR has_suffix_iff)

theorem line_splitting_agrees_witness:
  "splitLines (''a'' @ [CR, LF] @ ''b'') = splitLines (''a'' @ [LF] @ ''b'' @ [LF])"
  using line_splitting_agrees [of "''a'' @ [LF] @ ''b''"] by (simp add: has_suffix_def)

section \<open>Credentials in log lines\<close>

definition redact_part :: "string \<Rightarrow> string" where
  "redact_part p =
     (case index_of p ''://'' of
        None \<Rightarrow> p
      | Some s \<Rightarrow> (case last_index_of p (CHR ''@'') of
                     None \<Rightarrow> p
                   | Some a \<Rightarrow> if s < a then take (s + 3) p @ ''***'' @ drop a p else p))"

definition redactURL :: "string \<Rightarrow> string" where
  "redactURL raw = join '','' (map redact_part (split_on (CHR '','') raw))"

lemma index_of_scheme: "CHR '':'' \<notin> set sch \<Longrightarrow> index_of (sch @ ''://'' @ t) ''://'' = Some (length sch)"
  by (induction sch) auto

lemma redact_part_credential:
  assumes "CHR '':'' \<notin> set sch" and "CHR ''@'' \<notin> set rest"
  shows "redact_part (sch @ ''://'' @ cred @ ''@'' @ rest) = sch @ ''://***@'' @ rest"
proof -
  have "last_index_of (sch @ ''://'' @ cred @ ''@'' @ rest) (CHR ''@'') = Some (length sch + 3 + length cred)"
    using last_index_of_append [OF assms(2), of "sch @ ''://'' @ cred"] by simp
  then show ?thesis
    using index_of_scheme [OF assms(1), of "cred @ ''@'' @ rest"]
    by (simp add: redact_part_def numeral_3_eq_3)
qed

lemma join_infix: "\<exists>a b. join sep (xs @ x # ys) = a @ x @ b"
proof (induction xs)
  case Nil
  show ?case
  proof (cases ys)
    case Nil
    then have "join sep ([] @ x # ys) = [] @ x @ []" by simp
    then show ?thesis by blast
  next
    case (Cons y zs)
    then have "join sep ([] @ x # ys) = [] @ x @ sep @ join sep ys" by simp
    then show ?thesis by blast
  qed
next
  case (Cons z xs)
  then obtain a b where "join sep (xs @ x # ys) = a @ x @ b" by blast
  then have "join sep ((z # xs) @ x # ys) = (z @ sep @ a) @ x @ b" by (simp add: join_Cons)
  then show ?case by blast
qed

lemma split_on_comma_list:
  "xs \<noteq> [] \<Longrightarrow> \<forall>x\<in>set xs. CHR '','' \<notin> set x \<Longrightarrow> split_on (CHR '','') (join '','' xs) = xs"
  by (rule split_on_join)

text \<open>
  A credential in a URL does not reach the log: wherever it stands in a comma-separated list,
  what is printed of \<open>scheme://credential@host\<close> is \<open>scheme://***@host\<close>, whatever the credential
  (at signs, colons and slashes included), and nothing of it is left.
\<close>

theorem redaction_hides_the_credential:
  assumes "CHR '':'' \<notin> set sch" and "CHR ''@'' \<notin> set rest"
    and "\<forall>x\<in>set (xs @ [sch, cred, rest] @ ys). CHR '','' \<notin> set x"
  shows "redactURL (join '','' (xs @ [sch @ ''://'' @ cred @ ''@'' @ rest] @ ys))
    = join '','' (map redact_part xs @ [sch @ ''://***@'' @ rest] @ map redact_part ys)"
proof -
  have "split_on (CHR '','') (join '','' (xs @ [sch @ ''://'' @ cred @ ''@'' @ rest] @ ys))
      = xs @ [sch @ ''://'' @ cred @ ''@'' @ rest] @ ys"
    by (rule split_on_comma_list) (use assms(3) in auto)
  then show ?thesis
    unfolding redactURL_def using redact_part_credential [OF assms(1,2)] by simp
qed

theorem redaction_hides_the_credential_witness:
  "redactURL ''nats://a@h1,nats://us:p/w@x@h2:4222'' = ''nats://***@h1,nats://***@h2:4222''"
  using redaction_hides_the_credential [of "''nats''" "''h2:4222''" "[''nats://a@h1'']" "''us:p/w@x''" "[]"]
  by (simp add: redact_part_def)

text \<open>
  A URL without a scheme is printed as it is: a broker address given as \<open>credential@host:port\<close>,
  which NATS clients accept, is not redacted.
\<close>

theorem schemeless_credentials_are_printed:
  assumes "\<not> contains raw ''://''"
  shows "redactURL raw = raw"
proof -
  have "\<not> contains p ''://''" if p: "p \<in> set (split_on (CHR '','') raw)" for p
  proof -
    obtain as bs where "split_on (CHR '','') raw = as @ p # bs" using p by (auto simp: in_set_conv_decomp)
    then have "raw = join '','' (as @ p # bs)" using join_split_on [of "CHR '',''" raw] by simp
    then have "\<exists>a b. raw = a @ p @ b" using join_infix by metis
    then show ?thesis using assms unfolding contains_iff by (metis append.assoc)
  qed
  then have "map redact_part (split_on (CHR '','') raw) = split_on (CHR '','') raw"
    by (intro map_idI) (simp add: redact_part_def contains_def)
  then show ?thesis by (simp add: redactURL_def)
qed

theorem schemeless_credentials_are_printed_witness:
  "redactURL ''s3cr3t@10.0.0.1:4222'' = ''s3cr3t@10.0.0.1:4222''"
proof -
  have "\<not> contains ''s3cr3t@10.0.0.1:4222'' ''://''" by (simp add: contains_def)
  then show ?thesis by (rule schemeless_credentials_are_printed)
qed

section \<open>The connection string\<close>

definition setEnvLine :: "string \<Rightarrow> string \<Rightarrow> string \<Rightarrow> string" where
  "setEnvLine goos name v =
     (if goos = ''windows'' then ''$env:'' @ name @ '' = '' @ [CHR 0x22] @ v @ [CHR 0x22]
      else ''export '' @ name @ ''='' @ v)"

definition envOr :: "string \<Rightarrow> string \<Rightarrow> string" where
  "envOr v def = (if v \<noteq> '''' then v else def)"

text \<open>\<open>connURL\<close> of the value of \<open>PRIOMPT_URL\<close>: host and token.\<close>

definition connURL :: "string \<Rightarrow> fatal + string \<times> string" where
  "connURL raw =
     (if raw = '''' then Inr ('''', '''')
      else if \<not> contains raw ''://'' then Inr (raw, '''')
      else (case url_parse raw of
              None \<Rightarrow> Inl (Fatal ''bad PRIOMPT_URL %q: %v'' [raw])
            | Some u \<Rightarrow> Inr (u_host u, user_name (u_user u))))"

definition envHost :: "string \<Rightarrow> fatal + string" where
  "envHost raw =
     (case connURL raw of
        Inl e \<Rightarrow> Inl e
      | Inr (h, _) \<Rightarrow> Inr (if h \<noteq> '''' then h else ''localhost:8443''))"

text \<open>
  \<open>authCtx\<close> of the values of \<open>PRIOMPT_TOKEN\<close> and \<open>PRIOMPT_URL\<close>: the \<open>authorization\<close> header it
  attaches, if any.
\<close>

definition authCtx :: "string \<Rightarrow> string \<Rightarrow> fatal + string option" where
  "authCtx token raw =
     (case (if token = '''' then map_sum id snd (connURL raw) else Inr token) of
        Inl e \<Rightarrow> Inl e
      | Inr t \<Rightarrow> Inr (if t \<noteq> '''' then Some (''Bearer '' @ t) else None))"

text \<open>
  \<open>initCmd\<close> once the token is minted: what it writes to the tokens file, and the line that points
  a client at the server.
\<close>

definition init_file :: "string \<Rightarrow> string" where
  "init_file token = token @ '' rw'' @ [LF]"

definition init_url :: "string \<Rightarrow> string \<Rightarrow> string" where
  "init_url token addr = ''priompt://'' @ token @ ''@'' @ addr"

definition init_line :: "string \<Rightarrow> string \<Rightarrow> string \<Rightarrow> string" where
  "init_line goos token addr = setEnvLine goos ''PRIOMPT_URL'' (init_url token addr)"

text \<open>
  C38. The connection string \<open>priompt init\<close> prints is the one the other commands read: for a minted
  token (hexadecimal, so of letters and digits) and an address \<open>host:port\<close>, setting it makes every
  command talk to that address and present that token, unless \<open>PRIOMPT_TOKEN\<close> overrides it.
\<close>

theorem printed_connection_string_is_read_back:
  assumes "list_all is_alnum token" and "token \<noteq> ''''"
    and "list_all plain_byte host" and "list_all is_digit port"
  shows "connURL (init_url token (host @ '':'' @ port)) = Inr (host @ '':'' @ port, token)
       \<and> envHost (init_url token (host @ '':'' @ port)) = Inr (host @ '':'' @ port)
       \<and> authCtx '''' (init_url token (host @ '':'' @ port)) = Inr (Some (''Bearer '' @ token))
       \<and> (own \<noteq> '''' \<longrightarrow> authCtx own raw = Inr (Some (''Bearer '' @ own)))"
proof -
  have tok: "list_all plain_byte token" using assms(1) by (simp add: plain_byte_def list_all_iff)
  have "list_all is_alpha ''priompt''" by (simp add: is_alpha_def byte_between_def)
  note parsed = url_parse_token_host_port [OF this _ tok assms(3,4)]
  have shape: "init_url token (host @ '':'' @ port) = ''priompt'' @ ''://'' @ token @ ''@'' @ host @ '':'' @ port"
    by (simp add: init_url_def)
  have "contains (init_url token (host @ '':'' @ port)) ''://''"
    unfolding shape contains_iff by blast
  moreover have "init_url token (host @ '':'' @ port) \<noteq> ''''" by (simp add: init_url_def)
  moreover have "url_parse (init_url token (host @ '':'' @ port)) = Some \<lparr>u_scheme = to_lower ''priompt'',
      u_opaque = [], u_user = Some (url_User token), u_host = host @ '':'' @ port, u_path = [], u_query = [],
      u_fragment = []\<rparr>"
    unfolding shape using parsed by (simp del: append_Cons append_Nil)
  ultimately have conn: "connURL (init_url token (host @ '':'' @ port)) = Inr (host @ '':'' @ port, token)"
    by (simp add: connURL_def user_name_def url_User_def)
  then show ?thesis using assms(2) by (simp add: envHost_def authCtx_def)
qed

theorem printed_connection_string_is_read_back_witness:
  "connURL ''priompt://deadbeef@localhost:8443'' = Inr (''localhost:8443'', ''deadbeef'')"
proof -
  have h: "list_all is_alnum ''deadbeef''" "list_all plain_byte ''localhost''" "list_all is_digit ''8443''"
    by code_simp+
  show ?thesis
    using printed_connection_string_is_read_back [OF h(1) _ h(2,3)] by (simp add: init_url_def)
qed

section \<open>The build stamp\<close>

text \<open>\<open>fromBuildInfo\<close> of the main module's version and the build settings, key and value.\<close>

fun vcs_commit :: "(string \<times> string) list \<Rightarrow> string \<Rightarrow> string" where
  "vcs_commit [] commit = commit"
| "vcs_commit ((k, v) # ss) commit =
     vcs_commit ss (if k = ''vcs.revision'' \<and> commit = ''unknown'' then v else commit)"

definition fromBuildInfo ::
  "string \<Rightarrow> (string \<times> string) list \<Rightarrow> string \<Rightarrow> string \<Rightarrow> string \<times> string" where
  "fromBuildInfo main settings version commit =
     (if version = ''dev'' \<and> main \<noteq> '''' \<and> main \<noteq> ''(devel)'' then main else version,
      vcs_commit settings commit)"

text \<open>
  The variables as they are before \<open>main\<close> runs: what the linker stamped, or their defaults, completed
  by \<open>init\<close> from the build record, if the binary has one.
\<close>

definition stamp_default :: "string \<times> string" where
  "stamp_default = (''dev'', ''unknown'')"

definition init_stamp :: "(string \<times> (string \<times> string) list) option \<Rightarrow> string \<times> string \<Rightarrow> string \<times> string" where
  "init_stamp bi stamp = (case bi of
     Some (main, settings) \<Rightarrow> fromBuildInfo main settings (fst stamp) (snd stamp) | None \<Rightarrow> stamp)"

text \<open>What the linker stamped always wins.\<close>

lemma stamped_build_info:
  "version \<noteq> ''dev'' \<Longrightarrow> commit \<noteq> ''unknown'' \<Longrightarrow> fromBuildInfo main settings version commit = (version, commit)"
proof -
  have "commit \<noteq> ''unknown'' \<Longrightarrow> vcs_commit settings commit = commit"
    by (induction settings commit rule: vcs_commit.induct) auto
  then show "version \<noteq> ''dev'' \<Longrightarrow> commit \<noteq> ''unknown'' \<Longrightarrow> fromBuildInfo main settings version commit = (version, commit)"
    by (simp add: fromBuildInfo_def)
qed

end
