(* ===== verification/Go_Number.thy ===== *)
theory Go_Number
  imports Complex_Main Go_Net
begin

text \<open>
  The numbers a flag can hold, as Go reads them: \<open>strconv.ParseInt\<close> with base 0,
  \<open>strconv.ParseFloat\<close> to the nearest \<open>float64\<close>, and \<open>time.ParseDuration\<close>, whose fractions go
  through \<open>float64\<close> arithmetic. An error is \<open>None\<close>.
\<close>

section \<open>float64\<close>

datatype go_float = Finite rat | Infinity bool | NaN

fun bit_len :: "nat \<Rightarrow> nat" where
  "bit_len n = (if n = 0 then 0 else Suc (bit_len (n div 2)))"

declare bit_len.simps [simp del]

definition round_half_even :: "nat \<Rightarrow> nat \<Rightarrow> nat" where
  "round_half_even n d =
     (let q = n div d; r = n mod d in if 2 * r < d \<or> 2 * r = d \<and> even q then q else q + 1)"

text \<open>
  The \<open>float64\<close> nearest to \<open>n / d\<close>, ties to even: 53 bits from the exponent \<open>e\<close> on, which is at
  least -1074.
\<close>

definition scale_by :: "nat \<Rightarrow> nat \<Rightarrow> int \<Rightarrow> nat \<times> nat" where
  "scale_by n d e = (if e \<le> 0 then (n * 2 ^ nat (- e), d) else (n, d * 2 ^ nat e))"

definition nearest_float :: "nat \<Rightarrow> nat \<Rightarrow> rat" where
  "nearest_float n d =
     (if n = 0 then 0
      else (let e0 = int (bit_len n) - int (bit_len d) - 53;
                e1 = (case scale_by n d e0 of (a, b) \<Rightarrow> if 2 ^ 53 * b \<le> a then e0 + 1 else e0);
                e = max e1 (- 1074);
                m = (case scale_by n d e of (a, b) \<Rightarrow> round_half_even a b)
            in of_nat m * (if e \<le> 0 then 1 / 2 ^ nat (- e) else 2 ^ nat e)))"

section \<open>Digits, prefixes and underscores\<close>

text \<open>\<open>underscoreOK\<close>: an underscore stands between digits, or between a base prefix and a digit.\<close>

fun underscores_from :: "bool \<Rightarrow> char \<Rightarrow> string \<Rightarrow> bool" where
  "underscores_from hex saw [] \<longleftrightarrow> saw \<noteq> CHR ''_''"
| "underscores_from hex saw (c # s) =
     (if is_digit c \<or> hex \<and> byte_between 97 (lower_byte c) 102 then underscores_from hex (CHR ''0'') s
      else if c = CHR ''_'' then saw = CHR ''0'' \<and> underscores_from hex (CHR ''_'') s
      else saw \<noteq> CHR ''_'' \<and> underscores_from hex (CHR ''!'') s)"

definition drop_sign :: "string \<Rightarrow> string" where
  "drop_sign s = (if has_prefix s ''-'' \<or> has_prefix s ''+'' then drop 1 s else s)"

definition underscoreOK :: "string \<Rightarrow> bool" where
  "underscoreOK s =
     (case drop_sign s of
        a # b # t \<Rightarrow>
          if a = CHR ''0'' \<and> lower_byte b \<in> set ''box'' then underscores_from (lower_byte b = CHR ''x'') (CHR ''0'') t
          else underscores_from False (CHR ''^'') (a # b # t)
      | t \<Rightarrow> underscores_from False (CHR ''^'') t)"

text \<open>The value of a digit of any base.\<close>

definition digit_of :: "char \<Rightarrow> nat option" where
  "digit_of c =
     (if is_digit c then Some (digit_value c)
      else if byte_between 97 (lower_byte c) 122 then Some (of_char (lower_byte c) - 87) else None)"

fun digits_in :: "nat \<Rightarrow> string \<Rightarrow> nat \<Rightarrow> nat option" where
  "digits_in base [] n = Some n"
| "digits_in base (c # s) n =
     (if c = CHR ''_'' then digits_in base s n
      else (case digit_of c of
              None \<Rightarrow> None
            | Some d \<Rightarrow> if base \<le> d then None else digits_in base s (base * n + d)))"

section \<open>ParseInt\<close>

definition parse_uint :: "string \<Rightarrow> nat option" where
  "parse_uint s =
     (case s of
        [] \<Rightarrow> None
      | _ \<Rightarrow>
          (let x = (if 2 < length s then lower_byte (s ! 1) else CHR ''_'');
               (base, ds) = (if hd s \<noteq> CHR ''0'' then (10, s)
                             else if x = CHR ''b'' then (2, drop 2 s)
                             else if x = CHR ''o'' then (8, drop 2 s)
                             else if x = CHR ''x'' then (16, drop 2 s)
                             else (8, drop 1 s))
           in if CHR ''_'' \<in> set ds \<and> \<not> underscoreOK s then None else digits_in base ds 0))"

definition ParseInt :: "string \<Rightarrow> int option" where
  "ParseInt s =
     (case parse_uint (drop_sign s) of
        None \<Rightarrow> None
      | Some n \<Rightarrow>
          if has_prefix s ''-'' then (if n \<le> 2 ^ 63 then Some (- int n) else None)
          else (if n < 2 ^ 63 then Some (int n) else None))"

section \<open>ParseFloat\<close>

text \<open>
  The mantissa: its digits as a number, how many of them follow the point (if there is one), whether
  there was any digit, and the rest of the text.
\<close>

fun mantissa :: "bool \<Rightarrow> string \<Rightarrow> nat \<Rightarrow> nat option \<Rightarrow> bool \<Rightarrow> nat \<times> nat option \<times> bool \<times> string" where
  "mantissa hex [] x point any = (x, point, any, [])"
| "mantissa hex (c # s) x point any =
     (if c = CHR ''_'' then mantissa hex s x point any
      else if c = CHR ''.'' \<and> point = None then mantissa hex s x (Some 0) any
      else if is_digit c \<or> hex \<and> byte_between 97 (lower_byte c) 102
        then mantissa hex s ((if hex then 16 else 10) * x + the (digit_of c)) (map_option Suc point) True
      else (x, point, any, c # s))"

text \<open>
  The exponent; from 10000 on its digits no longer count, which is out of every range. It is
  required of a hexadecimal number.
\<close>

fun exponent_digits :: "string \<Rightarrow> nat \<Rightarrow> nat option" where
  "exponent_digits [] e = Some e"
| "exponent_digits (c # s) e =
     (if c = CHR ''_'' then exponent_digits s e
      else if is_digit c then exponent_digits s (if e < 10000 then 10 * e + digit_value c else e)
      else None)"

definition exponent :: "bool \<Rightarrow> string \<Rightarrow> int option" where
  "exponent hex s =
     (case s of
        [] \<Rightarrow> if hex then None else Some 0
      | c # t \<Rightarrow>
          if lower_byte c \<noteq> (if hex then CHR ''p'' else CHR ''e'') then None
          else (case drop_sign t of
                  [] \<Rightarrow> None
                | d # u \<Rightarrow>
                    if \<not> is_digit d then None
                    else map_option (\<lambda>e. if has_prefix t ''-'' then - int e else int e) (exponent_digits (d # u) 0)))"

text \<open>An unsigned number as numerator and denominator, if its text is one.\<close>

definition read_float :: "string \<Rightarrow> (nat \<times> nat) option" where
  "read_float s =
     (let hex = (2 < length s \<and> hd s = CHR ''0'' \<and> lower_byte (s ! 1) = CHR ''x'') in
      case mantissa hex (if hex then drop 2 s else s) 0 None False of (x, point, any, t) \<Rightarrow>
        if \<not> any \<or> CHR ''_'' \<in> set s \<and> \<not> underscoreOK s then None
        else (case exponent hex t of
                None \<Rightarrow> None
              | Some e \<Rightarrow>
                  (let frac = (case point of None \<Rightarrow> 0 | Some k \<Rightarrow> k);
                       e' = (if hex then e - 4 * int frac else e - int frac);
                       b = (if hex then 2 else 10 :: nat)
                   in Some (if e' < 0 then (x, b ^ nat (- e')) else (x * b ^ nat e', 1)))))"

text \<open>Past the greatest \<open>float64\<close> is a range error, which is reported like any other.\<close>

definition ParseFloat :: "string \<Rightarrow> go_float option" where
  "ParseFloat s =
     (let neg = has_prefix s ''-''; t = map lower_byte (drop_sign s) in
      if t = ''inf'' \<or> t = ''infinity'' then Some (Infinity neg)
      else if map lower_byte s = ''nan'' then Some NaN
      else (case read_float (drop_sign s) of
              None \<Rightarrow> None
            | Some (n, d) \<Rightarrow>
                (let v = nearest_float n d
                 in if 2 ^ 1024 \<le> v then None else Some (Finite (if neg then - v else v)))))"

section \<open>ParseDuration\<close>

definition units :: "(string \<times> nat) list" where
  "units = [(''ns'', 1), (''us'', 1000), ([CHR 0xC2, CHR 0xB5, CHR ''s''], 1000), ([CHR 0xCE, CHR 0xBC, CHR ''s''], 1000),
            (''ms'', 1000000), (''s'', 1000000000), (''m'', 60000000000), (''h'', 3600000000000)]"

fun leading_int :: "string \<Rightarrow> nat \<Rightarrow> (nat \<times> string) option" where
  "leading_int [] x = Some (x, [])"
| "leading_int (c # s) x =
     (if \<not> is_digit c then Some (x, c # s)
      else if 2 ^ 63 div 10 < x \<or> 2 ^ 63 < 10 * x + digit_value c then None
      else leading_int s (10 * x + digit_value c))"

text \<open>The digits after the point, as far as they fit; \<open>k\<close> counts them.\<close>

fun leading_fraction :: "string \<Rightarrow> nat \<Rightarrow> nat \<Rightarrow> bool \<Rightarrow> nat \<times> nat \<times> string" where
  "leading_fraction [] x k full = (x, k, [])"
| "leading_fraction (c # s) x k full =
     (if \<not> is_digit c then (x, k, c # s)
      else if full \<or> (2 ^ 63 - 1) div 10 < x \<or> 2 ^ 63 < 10 * x + digit_value c then leading_fraction s x k True
      else leading_fraction s (10 * x + digit_value c) (Suc k) False)"

text \<open>The part of \<open>f / 10 ^ k\<close> units in nanoseconds, cut off: three roundings to \<open>float64\<close>.\<close>

definition fraction_ns :: "nat \<Rightarrow> nat \<Rightarrow> nat \<Rightarrow> nat" where
  "fraction_ns f k unit =
     (case quotient_of (nearest_float unit (10 ^ k)) of (a, b) \<Rightarrow>
      case quotient_of (nearest_float f 1) of (c, _) \<Rightarrow>
        nat \<lfloor>nearest_float (nat a * nat c) (nat b)\<rfloor>)"

text \<open>One number with its unit, and the rest.\<close>

definition duration_part :: "string \<Rightarrow> (nat \<times> string) option" where
  "duration_part s =
     (if s = [] \<or> \<not> (hd s = CHR ''.'' \<or> is_digit (hd s)) then None
      else (case leading_int s 0 of
        None \<Rightarrow> None
      | Some (v, s1) \<Rightarrow>
          (case (if has_prefix s1 ''.'' then leading_fraction (drop 1 s1) 0 0 False else (0, 0, s1)) of (f, k, s2) \<Rightarrow>
             if \<not> is_digit (hd s) \<and> length s2 = length s1 - 1 then None
             else (let u = takeWhile (\<lambda>c. c \<noteq> CHR ''.'' \<and> \<not> is_digit c) s2 in
               case map_of units u of
                 None \<Rightarrow> None
               | Some unit \<Rightarrow>
                   if 2 ^ 63 div unit < v then None
                   else (let w = v * unit + (if 0 < f then fraction_ns f k unit else 0)
                         in if 2 ^ 63 < w then None else Some (w, drop (length u) s2))))))"

lemma leading_int_length: "leading_int s x = Some (v, t) \<Longrightarrow> length t \<le> length s"
  by (induction s x rule: leading_int.induct) (auto split: if_splits)

lemma leading_fraction_length: "leading_fraction s x k full = (f, j, t) \<Longrightarrow> length t \<le> length s"
  by (induction s x k full rule: leading_fraction.induct) (fastforce split: if_splits)+

lemma duration_part_shorter:
  assumes "duration_part s = Some (w, t)"
  shows "length t < length s"
proof -
  obtain v s1 f k s2 where v: "leading_int s 0 = Some (v, s1)"
    and f: "(if has_prefix s1 ''.'' then leading_fraction (drop 1 s1) 0 0 False else (0, 0, s1)) = (f, k, s2)"
    and unit: "map_of units (takeWhile (\<lambda>c. c \<noteq> CHR ''.'' \<and> \<not> is_digit c) s2) \<noteq> None"
    and t: "t = drop (length (takeWhile (\<lambda>c. c \<noteq> CHR ''.'' \<and> \<not> is_digit c) s2)) s2"
    using assms by (auto simp: duration_part_def Let_def split: if_splits option.splits prod.splits)
  have "length s2 \<le> length s"
    using leading_int_length [OF v] leading_fraction_length f by (fastforce split: if_splits)
  moreover have "s2 \<noteq> []" using unit by (auto simp: units_def)
  moreover have "takeWhile (\<lambda>c. c \<noteq> CHR ''.'' \<and> \<not> is_digit c) s2 \<noteq> []" using unit by (auto simp: units_def)
  ultimately show ?thesis unfolding t by (cases s2) auto
qed

function duration_sum :: "string \<Rightarrow> nat \<Rightarrow> nat option" where
  "duration_sum s d =
     (if s = [] then Some d
      else (case duration_part s of
              None \<Rightarrow> None
            | Some (w, t) \<Rightarrow> if 2 ^ 63 < d + w then None else duration_sum t (d + w)))"
  by pat_completeness auto

termination by (relation "measure (length \<circ> fst)") (auto simp: duration_part_shorter)

declare duration_sum.simps [simp del]

definition ParseDuration :: "string \<Rightarrow> int option" where
  "ParseDuration s =
     (let t = drop_sign s in
      if t = ''0'' then Some 0
      else if t = [] then None
      else (case duration_sum t 0 of
              None \<Rightarrow> None
            | Some d \<Rightarrow>
                if has_prefix s ''-'' then Some (- int d)
                else if d < 2 ^ 63 then Some (int d) else None))"

end
