(* ===== verification/Go_Flag.thy ===== *)
theory Go_Flag
  imports Go_Number
begin

text \<open>
  The standard library's \<open>flag\<close> package as the commands use it: a flag set of string, boolean,
  numeric, duration and repeatable flags with their defaults, and \<open>FlagSet.Parse\<close>, which reads a
  prefix of the arguments. The repeatable flag is the program's own \<open>multiFlag\<close>
  (\<open>cmd/priompt/main.go\<close>).
\<close>

section \<open>Flag sets\<close>

datatype flag_val = StringFlag string | BoolFlag bool | ListFlag "string list"
  | IntFlag int | FloatFlag go_float | DurationFlag int

type_synonym flag_set = "(string \<times> flag_val) list"

text \<open>\<open>multiFlag.Set\<close> appends.\<close>

definition multiFlag_Set :: "string list \<Rightarrow> string \<Rightarrow> string list" where
  "multiFlag_Set m v = m @ [v]"

definition multiFlag_String :: "string list \<Rightarrow> string" where
  "multiFlag_String m = ''['' @ join '' '' m @ '']''"

definition ParseBool :: "string \<Rightarrow> bool option" where
  "ParseBool s =
     (if s \<in> set [''1'', ''t'', ''T'', ''TRUE'', ''true'', ''True''] then Some True
      else if s \<in> set [''0'', ''f'', ''F'', ''FALSE'', ''false'', ''False''] then Some False
      else None)"

text \<open>\<open>Value.Set\<close> of each kind; a string takes any value.\<close>

fun flag_Set :: "flag_val \<Rightarrow> string \<Rightarrow> flag_val option" where
  "flag_Set (StringFlag _) v = Some (StringFlag v)"
| "flag_Set (BoolFlag _) v = map_option BoolFlag (ParseBool v)"
| "flag_Set (ListFlag m) v = Some (ListFlag (multiFlag_Set m v))"
| "flag_Set (IntFlag _) v = map_option IntFlag (ParseInt v)"
| "flag_Set (FloatFlag _) v = map_option FloatFlag (ParseFloat v)"
| "flag_Set (DurationFlag _) v = map_option DurationFlag (ParseDuration v)"

definition assign :: "string \<Rightarrow> flag_val \<Rightarrow> flag_set \<Rightarrow> flag_set" where
  "assign name x fs = map (\<lambda>(n, y). if n = name then (n, x) else (n, y)) fs"

section \<open>Parse\<close>

text \<open>What ends a parse early: a request for help, or an error of a format and its arguments.\<close>

datatype flag_error = HelpWanted | FlagError string "string list"

text \<open>\<open>name=value\<close> cut at its first equals sign.\<close>

definition cut_equals :: "string \<Rightarrow> string \<times> string option" where
  "cut_equals s = (case index_of s ''='' of
     None \<Rightarrow> (s, None) | Some i \<Rightarrow> (take i s, Some (drop (i + 1) s)))"

text \<open>
  Arguments are read while they look like flags. A boolean flag takes a value only after an equals
  sign; any other takes the next argument, whatever that looks like.
\<close>

fun parse_flags :: "flag_set \<Rightarrow> string list \<Rightarrow> flag_error + flag_set \<times> string list" where
  "parse_flags fs [] = Inr (fs, [])"
| "parse_flags fs (s # args) =
     (if length s < 2 \<or> hd s \<noteq> CHR ''-'' then Inr (fs, s # args)
      else if s = ''--'' then Inr (fs, args)
      else let name = (if s ! 1 = CHR ''-'' then drop 2 s else drop 1 s) in
        if name = '''' \<or> hd name = CHR ''-'' \<or> hd name = CHR ''='' then Inl (FlagError ''bad flag syntax: %s'' [s])
        else case cut_equals name of (nm, val) \<Rightarrow>
          (case map_of fs nm of
             None \<Rightarrow> if nm = ''help'' \<or> nm = ''h'' then Inl HelpWanted
                     else Inl (FlagError ''flag provided but not defined: -%s'' [nm])
           | Some (BoolFlag b) \<Rightarrow>
               (let v = (case val of Some v \<Rightarrow> v | None \<Rightarrow> ''true'') in
                case flag_Set (BoolFlag b) v of
                  None \<Rightarrow> Inl (FlagError ''invalid boolean value %q for -%s: %v'' [v, nm])
                | Some x \<Rightarrow> parse_flags (assign nm x fs) args)
           | Some f \<Rightarrow>
               (case val of
                  Some v \<Rightarrow>
                    (case flag_Set f v of
                       None \<Rightarrow> Inl (FlagError ''invalid value %q for flag -%s: %v'' [v, nm])
                     | Some x \<Rightarrow> parse_flags (assign nm x fs) args)
                | None \<Rightarrow>
                    (case args of
                       [] \<Rightarrow> Inl (FlagError ''flag needs an argument: -%s'' [nm])
                     | v # rest \<Rightarrow>
                         (case flag_Set f v of
                            None \<Rightarrow> Inl (FlagError ''invalid value %q for flag -%s: %v'' [v, nm])
                          | Some x \<Rightarrow> parse_flags (assign nm x fs) rest)))))"

declare parse_flags.simps(2) [simp del]

text \<open>The values after a parse.\<close>

definition flag_string :: "flag_set \<Rightarrow> string \<Rightarrow> string" where
  "flag_string fs n = (case map_of fs n of Some (StringFlag v) \<Rightarrow> v | _ \<Rightarrow> '''')"

definition flag_bool :: "flag_set \<Rightarrow> string \<Rightarrow> bool" where
  "flag_bool fs n \<longleftrightarrow> map_of fs n = Some (BoolFlag True)"

definition flag_list :: "flag_set \<Rightarrow> string \<Rightarrow> string list" where
  "flag_list fs n = (case map_of fs n of Some (ListFlag vs) \<Rightarrow> vs | _ \<Rightarrow> [])"

definition flag_int :: "flag_set \<Rightarrow> string \<Rightarrow> int" where
  "flag_int fs n = (case map_of fs n of Some (IntFlag v) \<Rightarrow> v | _ \<Rightarrow> 0)"

definition flag_float :: "flag_set \<Rightarrow> string \<Rightarrow> go_float" where
  "flag_float fs n = (case map_of fs n of Some (FloatFlag v) \<Rightarrow> v | _ \<Rightarrow> Finite 0)"

definition flag_duration :: "flag_set \<Rightarrow> string \<Rightarrow> int" where
  "flag_duration fs n = (case map_of fs n of Some (DurationFlag v) \<Rightarrow> v | _ \<Rightarrow> 0)"

section \<open>Reading an argument list back\<close>

text \<open>A name a flag can have, and a setting written as arguments.\<close>

definition flag_name_ok :: "string \<Rightarrow> bool" where
  "flag_name_ok n \<longleftrightarrow> n \<noteq> '''' \<and> hd n \<noteq> CHR ''-'' \<and> CHR ''='' \<notin> set n"

lemma cut_equals_plain: "CHR ''='' \<notin> set n \<Longrightarrow> cut_equals n = (n, None)"
  by (auto simp: cut_equals_def index_of_None split: option.splits dest: index_of_Some)

lemma map_of_assign: "map_of (assign n x fs) m = (if m = n \<and> map_of fs n \<noteq> None then Some x else map_of fs m)"
  by (induction fs) (auto simp: assign_def)

text \<open>A flag that takes a value takes the next argument verbatim, a dash at its front included.\<close>

lemma parse_value_flag:
  assumes "flag_name_ok n" and "map_of fs n = Some f" and "\<And>b. f \<noteq> BoolFlag b" and "flag_Set f v = Some x"
  shows "parse_flags fs ((CHR ''-'' # n) # v # rest) = parse_flags (assign n x fs) rest"
proof -
  have n: "n \<noteq> []" "hd n \<noteq> CHR ''-''" "CHR ''='' \<notin> set n" using assms(1) by (simp_all add: flag_name_ok_def)
  have "n ! 0 \<noteq> CHR ''-''" "hd n \<noteq> CHR ''=''" using n by (auto simp: hd_conv_nth in_set_conv_nth)
  then show ?thesis
    using n assms(2-4) cut_equals_plain [OF n(3)]
    by (cases f) (auto simp: parse_flags.simps(2) Let_def)
qed

lemma parse_bool_flag:
  assumes "flag_name_ok n" and "map_of fs n = Some (BoolFlag b)"
  shows "parse_flags fs ((CHR ''-'' # n) # rest) = parse_flags (assign n (BoolFlag True) fs) rest"
proof -
  have n: "n \<noteq> []" "hd n \<noteq> CHR ''-''" "CHR ''='' \<notin> set n" using assms(1) by (simp_all add: flag_name_ok_def)
  have "n ! 0 \<noteq> CHR ''-''" "hd n \<noteq> CHR ''=''" using n by (auto simp: hd_conv_nth in_set_conv_nth)
  then show ?thesis
    using n assms(2) cut_equals_plain [OF n(3)] by (auto simp: parse_flags.simps(2) Let_def ParseBool_def)
qed

text \<open>A repeated flag collects its values in order.\<close>

lemma assign_assign: "assign n y (assign n x fs) = assign n y fs"
  by (auto simp: assign_def)

lemma parse_list_flag:
  assumes "flag_name_ok n" and "map_of fs n = Some (ListFlag m)" and "vs \<noteq> []"
  shows "parse_flags fs (concat (map (\<lambda>v. [CHR ''-'' # n, v]) vs) @ rest)
       = parse_flags (assign n (ListFlag (m @ vs)) fs) rest"
  using assms(2,3)
proof (induction vs arbitrary: fs m)
  case (Cons v vs)
  note step = parse_value_flag [OF assms(1) Cons.prems(1), of v "ListFlag (m @ [v])"]
  have set: "map_of (assign n (ListFlag (m @ [v])) fs) n = Some (ListFlag (m @ [v]))"
    using Cons.prems(1) by (simp add: map_of_assign)
  show ?case
  proof (cases "vs = []")
    case True
    with step show ?thesis by (simp add: multiFlag_Set_def)
  next
    case False
    then show ?thesis
      using step Cons.IH [OF set False] by (simp add: multiFlag_Set_def assign_assign)
  qed
qed simp

text \<open>
  A setting as it is written in an argument list: with one dash or two, and its value in the next
  argument, after an equals sign, or, of a boolean flag, left out.
\<close>

datatype value_form = Next string | Equals string | Bare

type_synonym written = "bool \<times> string \<times> value_form"

definition dashed :: "bool \<Rightarrow> string \<Rightarrow> string" where
  "dashed two n = (if two then ''--'' else ''-'') @ n"

fun write_setting :: "written \<Rightarrow> string list" where
  "write_setting (two, n, Next v) = [dashed two n, v]"
| "write_setting (two, n, Equals v) = [dashed two n @ ''='' @ v]"
| "write_setting (two, n, Bare) = [dashed two n]"

text \<open>The flag it names and the text of the value it gives it.\<close>

fun setting_of :: "written \<Rightarrow> string \<times> string" where
  "setting_of (two, n, Next v) = (n, v)"
| "setting_of (two, n, Equals v) = (n, v)"
| "setting_of (two, n, Bare) = (n, ''true'')"

definition as_args :: "written list \<Rightarrow> string list" where
  "as_args ws = concat (map write_setting ws)"

lemma as_args_simps [simp]:
  "as_args [] = []" "as_args (w # ws) = write_setting w @ as_args ws"
  by (simp_all add: as_args_def)

text \<open>Where the flags end: at the end, at the first argument that is not a flag, or at \<open>--\<close>.\<close>

definition flags_end :: "string list \<Rightarrow> bool" where
  "flags_end args \<longleftrightarrow> (case args of [] \<Rightarrow> True | s # _ \<Rightarrow> length s < 2 \<or> hd s \<noteq> CHR ''-'' \<or> s = ''--'')"

text \<open>A flag set without repeatable flags, and a setting that one of its flags can take.\<close>

definition single_valued :: "flag_set \<Rightarrow> bool" where
  "single_valued fs \<longleftrightarrow> (\<forall>n vs. map_of fs n \<noteq> Some (ListFlag vs))"

definition is_bool :: "flag_val \<Rightarrow> bool" where
  "is_bool f \<longleftrightarrow> (\<exists>b. f = BoolFlag b)"

definition settable :: "flag_set \<Rightarrow> written \<Rightarrow> bool" where
  "settable fs w \<longleftrightarrow> flag_name_ok (fst (setting_of w))
     \<and> (\<exists>f. map_of fs (fst (setting_of w)) = Some f \<and> flag_Set f (snd (setting_of w)) \<noteq> None
          \<and> (case snd (snd w) of Next _ \<Rightarrow> \<not> is_bool f | Equals _ \<Rightarrow> True | Bare \<Rightarrow> is_bool f))"

definition set_flag :: "string \<times> string \<Rightarrow> flag_set \<Rightarrow> flag_set" where
  "set_flag s fs = assign (fst s) (the (flag_Set (the (map_of fs (fst s))) (snd s))) fs"

lemma cut_equals_value: "CHR ''='' \<notin> set n \<Longrightarrow> cut_equals (n @ CHR ''='' # v) = (n, Some v)"
  by (induction n) (auto simp: cut_equals_def split: option.splits prod.splits)

lemma dashed_flag:
  assumes "flag_name_ok n"
  shows "\<not> length (dashed two n @ x) < 2" and "hd (dashed two n @ x) = CHR ''-''" and "dashed two n @ x \<noteq> ''--''"
    and "(if (dashed two n @ x) ! 1 = CHR ''-'' then drop 2 (dashed two n @ x) else drop 1 (dashed two n @ x)) = n @ x"
  using assms by (cases n; auto simp: dashed_def flag_name_ok_def)+

lemma name_starts:
  "flag_name_ok n \<Longrightarrow> \<not> (n @ x = '''' \<or> hd (n @ x) = CHR ''-'' \<or> hd (n @ x) = CHR ''='')"
  by (cases n) (auto simp: flag_name_ok_def)

lemma cut_equals_parts:
  assumes "cut_equals s = (n, val)"
  shows "CHR ''='' \<notin> set n" and "s = (case val of None \<Rightarrow> n | Some v \<Rightarrow> n @ ''='' @ v)"
  using assms by (induction s arbitrary: n) (auto simp: cut_equals_def split: option.splits if_splits)

lemma parse_step:
  assumes "flag_name_ok n" and "cut_equals (n @ x) = (n, val)" and "map_of fs n = Some f"
  shows "parse_flags fs (dashed two (n @ x) # args) =
    (if is_bool f then
       (case flag_Set f (case val of Some v \<Rightarrow> v | None \<Rightarrow> ''true'') of
          None \<Rightarrow> Inl (FlagError ''invalid boolean value %q for -%s: %v'' [case val of Some v \<Rightarrow> v | None \<Rightarrow> ''true'', n])
        | Some y \<Rightarrow> parse_flags (assign n y fs) args)
     else
       (case (case val of Some v \<Rightarrow> Some (v, args) | None \<Rightarrow> (case args of [] \<Rightarrow> None | v # rest \<Rightarrow> Some (v, rest))) of
          None \<Rightarrow> Inl (FlagError ''flag needs an argument: -%s'' [n])
        | Some (v, rest) \<Rightarrow>
            (case flag_Set f v of None \<Rightarrow> Inl (FlagError ''invalid value %q for flag -%s: %v'' [v, n])
             | Some y \<Rightarrow> parse_flags (assign n y fs) rest)))"
proof -
  have "dashed two (n @ x) = dashed two n @ x" by (simp add: dashed_def)
  note s = dashed_flag [OF assms(1), of two x, folded this] and name = name_starts [OF assms(1), of x]
  show ?thesis
    unfolding parse_flags.simps(2) Let_def s(4)
    by (simp only: s(1-3) name assms(2,3) if_False simp_thms prod.case option.case)
       (cases f; cases val; cases args; auto simp: is_bool_def comp_def split: option.split)
qed

lemma parse_written:
  assumes "settable fs w"
  shows "parse_flags fs (write_setting w @ rest) = parse_flags (set_flag (setting_of w) fs) rest"
proof -
  obtain two n form where w: "w = (two, n, form)" by (cases w)
  have n: "flag_name_ok n" "CHR ''='' \<notin> set n" using assms by (cases form; simp add: settable_def w flag_name_ok_def)+
  obtain f x where f: "map_of fs n = Some f" "flag_Set f (snd (setting_of w)) = Some x"
    "case form of Next _ \<Rightarrow> \<not> is_bool f | Equals _ \<Rightarrow> True | Bare \<Rightarrow> is_bool f"
    using assms by (cases form) (auto simp: settable_def w)
  note step = parse_step [OF n(1) _ f(1), of _ _ two]
  show ?thesis
  proof (cases form)
    case (Next v)
    then show ?thesis
      using f step [of "[]" None] cut_equals_plain [OF n(2)] by (simp add: w set_flag_def)
  next
    case (Equals v)
    have "dashed two n @ ''='' @ v = dashed two (n @ ''='' @ v)" by (simp add: dashed_def)
    then show ?thesis
      using f Equals step [of "''='' @ v" "Some v"] cut_equals_value [OF n(2)]
      by (simp add: w set_flag_def split: option.splits)
  next
    case Bare
    then show ?thesis
      using f step [of "[]" None] cut_equals_plain [OF n(2)] by (simp add: w set_flag_def)
  qed
qed

lemma parse_flags_end:
  "flags_end args \<Longrightarrow> parse_flags fs args = Inr (fs, if take 1 args = [''--''] then tl args else args)"
  by (cases args) (auto simp: flags_end_def parse_flags.simps(2))

text \<open>Setting a flag leaves the kinds of the flags, and with them what can be set, as they are.\<close>

lemma flag_Set_kind:
  assumes "flag_Set f v = Some x" and "\<And>vs. f \<noteq> ListFlag vs"
  shows "flag_Set x = flag_Set f" and "is_bool x = is_bool f" and "x \<noteq> ListFlag vs"
  using assms by (cases f; auto simp: is_bool_def fun_eq_iff)+

lemma set_flag_lookup:
  assumes "single_valued fs" and "map_of fs (fst s) = Some f" and "flag_Set f (snd s) \<noteq> None"
  shows "map_of (set_flag s fs) m = (if m = fst s then flag_Set f (snd s) else map_of fs m)"
    and "single_valued (set_flag s fs)" and "settable (set_flag s fs) w \<longleftrightarrow> settable fs w"
proof -
  obtain x where x: "flag_Set f (snd s) = Some x" using assms(3) by blast
  have list: "\<And>vs. f \<noteq> ListFlag vs" using assms(1,2) by (auto simp: single_valued_def)
  show look: "map_of (set_flag s fs) m = (if m = fst s then flag_Set f (snd s) else map_of fs m)" for m
    using assms(2) x by (simp add: set_flag_def map_of_assign)
  show "single_valued (set_flag s fs)"
    using assms(1) flag_Set_kind(3) [OF x list] x by (auto simp: single_valued_def look)
  show "settable (set_flag s fs) w \<longleftrightarrow> settable fs w"
    using assms(2) x flag_Set_kind(1,2) [OF x list]
    by (cases "fst (setting_of w) = fst s") (simp_all add: settable_def look split: value_form.split)
qed

text \<open>Any number of settings that their flags can take are read, and the last one of a flag counts.\<close>

lemma parse_settings:
  assumes "single_valued fs" and "\<forall>w \<in> set ws. settable fs w" and "flags_end tail"
  shows "\<exists>fs' rest. parse_flags fs (as_args ws @ tail) = Inr (fs', rest)
     \<and> (\<forall>n. map_of fs' n = (case map_of (rev (map setting_of ws)) n of
              None \<Rightarrow> map_of fs n | Some v \<Rightarrow> flag_Set (the (map_of fs n)) v))"
  using assms(1,2)
proof (induction ws arbitrary: fs)
  case Nil
  then show ?case using parse_flags_end [OF assms(3)] by simp
next
  case (Cons w ws)
  obtain n v where s: "setting_of w = (n, v)" by fastforce
  obtain f x where f: "map_of fs n = Some f" "flag_Set f v = Some x"
    using Cons.prems(2) s by (auto simp: settable_def)
  let ?fs = "set_flag (n, v) fs"
  note look = set_flag_lookup [OF Cons.prems(1), of "(n, v)" f]
  have list: "\<And>vs. f \<noteq> ListFlag vs" using Cons.prems(1) f(1) by (auto simp: single_valued_def)
  have "single_valued ?fs" "\<forall>w\<in>set ws. settable ?fs w" using look f Cons.prems(2) by simp_all
  then obtain fs' rest where fs': "parse_flags ?fs (as_args ws @ tail) = Inr (fs', rest)"
    "\<And>m. map_of fs' m = (case map_of (rev (map setting_of ws)) m of None \<Rightarrow> map_of ?fs m | Some v \<Rightarrow> flag_Set (the (map_of ?fs m)) v)"
    using Cons.IH by blast
  have "parse_flags fs (as_args (w # ws) @ tail) = Inr (fs', rest)"
    using parse_written [of fs w "as_args ws @ tail"] Cons.prems(2) fs'(1) s by simp
  moreover have "map_of fs' m = (case map_of (rev (map setting_of (w # ws))) m of
      None \<Rightarrow> map_of fs m | Some w \<Rightarrow> flag_Set (the (map_of fs m)) w)" for m
    using fs'(2) [of m] look(1) [of m] f flag_Set_kind(1) [OF f(2) list]
    by (auto simp: s map_add_def split: option.splits)
  ultimately show ?case by blast
qed

text \<open>Nothing else is read: arguments that parse are settings and what follows the flags.\<close>

lemma parse_first:
  assumes "single_valued fs" and "parse_flags fs args = Inr r" and "\<not> flags_end args"
  obtains w more where "args = write_setting w @ more" and "settable fs w"
proof -
  obtain s more where args: "args = s # more" and s: "\<not> length s < 2" "hd s = CHR ''-''" "s \<noteq> ''--''"
    using assms(3) by (cases args) (auto simp: flags_end_def)
  let ?name = "if s ! 1 = CHR ''-'' then drop 2 s else drop 1 s"
  obtain two where two: "s = dashed two ?name"
  proof
    show "s = dashed (s ! 1 = CHR ''-'') ?name"
      using s by (cases s; cases "tl s") (auto simp: dashed_def)
  qed
  have name: "\<not> (?name = '''' \<or> hd ?name = CHR ''-'' \<or> hd ?name = CHR ''='')"
    using assms(2) s unfolding args by (auto simp: parse_flags.simps(2) Let_def split: if_splits)
  obtain n val where cut: "cut_equals ?name = (n, val)" by fastforce
  have n: "?name = (case val of None \<Rightarrow> n | Some v \<Rightarrow> n @ ''='' @ v)" by (rule cut_equals_parts(2) [OF cut])
  have "flag_name_ok n"
    using cut_equals_parts(1) [OF cut] name unfolding n by (cases val; cases n; auto simp: flag_name_ok_def)
  note n = this n
  note parse = assms(2) [unfolded args parse_flags.simps(2) Let_def cut]
  obtain f where f: "map_of fs n = Some f"
    using parse s name by (cases "map_of fs n") (auto split: if_splits)
  show thesis
  proof (cases val)
    case (Some v)
    then have "flag_Set f v \<noteq> None"
      using parse s name f by (cases f) (auto split: if_splits option.splits)
    then show ?thesis
      using that [of "(two, n, Equals v)" more] two n f Some by (simp add: args settable_def dashed_def)
  next
    case None
    show ?thesis
    proof (cases "is_bool f")
      case True
      then have "flag_Set f ''true'' \<noteq> None" by (auto simp: is_bool_def ParseBool_def)
      then show ?thesis using that [of "(two, n, Bare)" more] two n f None True by (simp add: args settable_def)
    next
      case False
      then obtain v rest where "more = v # rest" "flag_Set f v \<noteq> None"
        using parse s name f None by (cases f; cases more) (auto simp: is_bool_def split: if_splits option.splits)
      then show ?thesis using that [of "(two, n, Next v)" rest] two n f None False by (simp add: args settable_def)
    qed
  qed
qed

lemma write_setting_length: "write_setting w \<noteq> []"
  by (cases w rule: write_setting.cases) simp_all

lemma parse_flags_Inr:
  assumes "single_valued fs" and "parse_flags fs args = Inr r"
  shows "\<exists>ws tail. args = as_args ws @ tail \<and> flags_end tail \<and> (\<forall>w \<in> set ws. settable fs w)"
  using assms
proof (induction args arbitrary: fs rule: length_induct)
  case (1 args)
  show ?case
  proof (cases "flags_end args")
    case True
    then show ?thesis by (intro exI [of _ "[]"] exI [of _ args]) simp
  next
    case False
    obtain w more where w: "args = write_setting w @ more" "settable fs w"
      using parse_first [OF 1(2,3) False] .
    obtain f where f: "map_of fs (fst (setting_of w)) = Some f" "flag_Set f (snd (setting_of w)) \<noteq> None"
      using w(2) by (auto simp: settable_def)
    note look = set_flag_lookup [OF 1(2) f]
    have "length more < length args" using w(1) write_setting_length [of w] by simp
    moreover have "parse_flags (set_flag (setting_of w) fs) more = Inr r" using 1(3) w parse_written by metis
    ultimately obtain ws tail where "more = as_args ws @ tail" "flags_end tail" "\<forall>w \<in> set ws. settable fs w"
      using 1(1) look(2,3) by metis
    then show ?thesis using w by (intro exI [of _ "w # ws"]) auto
  qed
qed

end
