(* ===== verification/Cli_Host.thy ===== *)
theory Cli_Host
  imports Cli_Text Go_Flag
begin

text \<open>
  A run of the \<open>priompt\<close> binary as a transformation of what surrounds it: files, standard input,
  environment, output, and a state of the world beyond (databases, servers). Commands are sequences
  of steps that may end the process. The helpers of \<open>cmd/priompt/main.go\<close> all commands share:
  reading a template, TLS credentials and the client connection.
\<close>

section \<open>The process\<close>

text \<open>
  The content of a file, or the error of opening it; the error of creating one, if any; the
  environment as \<open>os.Environ\<close> lists it.
\<close>

record host =
  h_files :: "string \<Rightarrow> gerr + string"
  h_create :: "string \<Rightarrow> gerr option"
  h_stdin :: "gerr + string"
  h_environ :: "string list"
  h_goos :: string
  h_now :: gotime
  h_stdout :: string
  h_stderr :: "log_line list"

text \<open>How a process ends, if it does not return: \<open>log.Fatal\<close> or a panic, or \<open>os.Exit\<close>.\<close>

datatype ending = Died fatal | Exited nat

text \<open>A command or a part of one, on the host and a state of the world.\<close>

type_synonym ('a, 's) cmd = "host \<times> 's \<Rightarrow> (ending + 'a) \<times> host \<times> 's"

definition give :: "'a \<Rightarrow> ('a, 's) cmd" where
  "give x w = (Inr x, w)"

definition die :: "fatal \<Rightarrow> ('a, 's) cmd" where
  "die f w = (Inl (Died f), w)"

definition exit_with :: "nat \<Rightarrow> ('a, 's) cmd" where
  "exit_with n w = (Inl (Exited n), w)"

definition seq :: "('a, 's) cmd \<Rightarrow> ('a \<Rightarrow> ('b, 's) cmd) \<Rightarrow> ('b, 's) cmd" where
  "seq c f w = (case c w of (Inl e, w') \<Rightarrow> (Inl e, w') | (Inr x, w') \<Rightarrow> f x w')"

definition or_die :: "gerr + 'a \<Rightarrow> ('a, 's) cmd" where
  "or_die r = (case r of Inl e \<Rightarrow> die (Fatal (err_text e) []) | Inr x \<Rightarrow> give x)"

definition ask :: "(host \<Rightarrow> 'a) \<Rightarrow> ('a, 's) cmd" where
  "ask f w = (Inr (f (fst w)), w)"

definition out :: "string \<Rightarrow> (unit, 's) cmd" where
  "out t w = (Inr (), ((fst w)\<lparr>h_stdout := h_stdout (fst w) @ t\<rparr>, snd w))"

definition log_err :: "log_line \<Rightarrow> (unit, 's) cmd" where
  "log_err l w = (Inr (), ((fst w)\<lparr>h_stderr := h_stderr (fst w) @ [l]\<rparr>, snd w))"

text \<open>An operation of the world beyond, whose error or panic ends the process.\<close>

definition outside :: "('s \<Rightarrow> (fatal + 'a) \<times> 's) \<Rightarrow> ('a, 's) cmd" where
  "outside f w = (case f (snd w) of
     (Inl e, s) \<Rightarrow> (Inl (Died e), (fst w, s)) | (Inr x, s) \<Rightarrow> (Inr x, (fst w, s)))"

definition failing :: "('s \<Rightarrow> (gerr + 'a) \<times> 's) \<Rightarrow> ('a, 's) cmd" where
  "failing f = outside (\<lambda>s. map_prod (map_sum (\<lambda>e. Fatal (err_text e) []) id) id (f s))"

named_theorems cmd_simps \<open>one step of a command\<close>

lemma seq_give [simp, cmd_simps]: "seq (give x) f = f x"
  by (simp add: seq_def give_def fun_eq_iff)

lemma seq_die [simp, cmd_simps]: "seq (die e) f = die e"
  by (simp add: seq_def die_def fun_eq_iff)

lemma seq_exit [simp, cmd_simps]: "seq (exit_with n) f = exit_with n"
  by (simp add: seq_def exit_with_def fun_eq_iff)

lemma seq_assoc: "seq (seq c f) g = seq c (\<lambda>x. seq (f x) g)"
  by (auto simp: seq_def fun_eq_iff split: prod.splits sum.splits)

lemma seq_ask [simp, cmd_simps]: "seq (ask g) f w = f (g (fst w)) w"
  by (simp add: seq_def ask_def)

lemma seq_out [cmd_simps]: "seq (out t) f w = f () ((fst w)\<lparr>h_stdout := h_stdout (fst w) @ t\<rparr>, snd w)"
  by (simp add: seq_def out_def)

lemma seq_log_err [cmd_simps]: "seq (log_err l) f w = f () ((fst w)\<lparr>h_stderr := h_stderr (fst w) @ [l]\<rparr>, snd w)"
  by (simp add: seq_def log_err_def)

lemma or_die_simps [simp, cmd_simps]:
  "or_die (Inl e) = die (Fatal (err_text e) [])" "or_die (Inr x) = give x"
  by (simp_all add: or_die_def)

lemma outside_Inr [cmd_simps]: "f s = (Inr x, s') \<Longrightarrow> seq (outside f) g (h, s) = g x (h, s')"
  by (simp add: outside_def seq_def)

lemma failing_Inr [cmd_simps]: "f s = (Inr x, s') \<Longrightarrow> seq (failing f) g (h, s) = g x (h, s')"
  by (simp add: failing_def outside_def seq_def)

lemma failing_Inl [cmd_simps]:
  "f s = (Inl e, s') \<Longrightarrow> seq (failing f) g (h, s) = (Inl (Died (Fatal (err_text e) [])), (h, s'))"
  by (simp add: failing_def outside_def seq_def)

lemma seq_Inr_cases:
  assumes "seq c f w = (Inr y, w')"
  obtains x w1 where "c w = (Inr x, w1)" and "f x w1 = (Inr y, w')"
  using assms by (auto simp: seq_def split: prod.splits sum.splits)

section \<open>Environment and flags\<close>

text \<open>\<open>os.Getenv\<close>: the first entry of that name counts.\<close>

fun getenv :: "string list \<Rightarrow> string \<Rightarrow> string" where
  "getenv [] k = ''''"
| "getenv (e # es) k = (case cut_equals e of
     (n, Some v) \<Rightarrow> if n = k then v else getenv es k
   | (n, None) \<Rightarrow> getenv es k)"

text \<open>\<open>fs.Parse\<close> under \<open>flag.ExitOnError\<close>; arguments after the flags are ignored.\<close>

definition parse_args :: "flag_set \<Rightarrow> string list \<Rightarrow> (flag_set, 's) cmd" where
  "parse_args fs args = (case parse_flags fs args of
     Inl HelpWanted \<Rightarrow> exit_with 0
   | Inl (FlagError f as) \<Rightarrow> seq (log_err (f, as)) (\<lambda>_. exit_with 2)
   | Inr (fs', rest) \<Rightarrow> give fs')"

lemma parse_args_Inr: "parse_flags fs args = Inr (fs', rest) \<Longrightarrow> parse_args fs args = give fs'"
  by (simp add: parse_args_def)

section \<open>Files\<close>

definition read_all :: "host \<Rightarrow> string \<Rightarrow> gerr + string" where
  "read_all h file = (if file = ''-'' then h_stdin h else h_files h file)"

definition readTemplate :: "string \<Rightarrow> (string, 's) cmd" where
  "readTemplate file =
     seq (ask (\<lambda>h. read_all h file)) (\<lambda>r.
     seq (or_die r) (\<lambda>b.
     case normalizeTemplate b of
       Inl e \<Rightarrow> die (Fatal ''%s: %v'' [file, err_text e])
     | Inr t \<Rightarrow> give t))"

text \<open>Creating a file and writing a text to it.\<close>

definition create_write :: "string \<Rightarrow> string \<Rightarrow> (unit, 's) cmd" where
  "create_write path t w = (case h_create (fst w) path of
     Some e \<Rightarrow> die (Fatal (err_text e) []) w
   | None \<Rightarrow> (Inr (), ((fst w)\<lparr>h_files := (h_files (fst w))(path := Inr t)\<rparr>, snd w)))"

section \<open>TLS\<close>

text \<open>
  The parsing of certificates and keys is the standard library's \<open>crypto/tls\<close> and \<open>crypto/x509\<close>: a
  key pair of two PEM texts, and a pool of the certificates of one, if it holds any.
\<close>

record ('crt, 'pool) pem =
  x509_pair :: "string \<Rightarrow> string \<Rightarrow> gerr + 'crt"
  x509_pool :: "string \<Rightarrow> 'pool option"

definition load_pair :: "('crt, 'pool) pem \<Rightarrow> host \<Rightarrow> string \<Rightarrow> string \<Rightarrow> gerr + 'crt" where
  "load_pair X h certFile keyFile =
     (case h_files h certFile of
        Inl e \<Rightarrow> Inl e
      | Inr c \<Rightarrow> (case h_files h keyFile of Inl e \<Rightarrow> Inl e | Inr k \<Rightarrow> x509_pair X c k))"

definition certPool :: "('crt, 'pool) pem \<Rightarrow> host \<Rightarrow> string \<Rightarrow> gerr + 'pool" where
  "certPool X h pemFile =
     (case h_files h pemFile of
        Inl e \<Rightarrow> Inl e
      | Inr t \<Rightarrow> (case x509_pool X t of
                   None \<Rightarrow> Inl (Gerr [] (''no certificates found in '' @ pemFile))
                 | Some p \<Rightarrow> Inr p))"

text \<open>\<open>tls.Config\<close> as the program fills it in; the zero \<open>ClientAuthType\<close> asks for no certificate.\<close>

datatype cert_policy = NoClientCert | RequireAndVerifyClientCert

record ('crt, 'pool) tls_config =
  t_certificates :: "'crt list"
  t_client_cas :: "'pool option"
  t_client_auth :: cert_policy
  t_root_cas :: "'pool option"

definition zero_tls :: "('crt, 'pool) tls_config" where
  "zero_tls = \<lparr>t_certificates = [], t_client_cas = None, t_client_auth = NoClientCert, t_root_cas = None\<rparr>"

definition serverCreds ::
  "('crt, 'pool) pem \<Rightarrow> host \<Rightarrow> string \<Rightarrow> string \<Rightarrow> string \<Rightarrow> gerr + ('crt, 'pool) tls_config" where
  "serverCreds X h certFile keyFile clientCA =
     (case load_pair X h certFile keyFile of
        Inl e \<Rightarrow> Inl e
      | Inr cert \<Rightarrow>
          (let cfg = zero_tls\<lparr>t_certificates := [cert]\<rparr> in
           if clientCA \<noteq> '''' then
             (case certPool X h clientCA of
                Inl e \<Rightarrow> Inl e
              | Inr pool \<Rightarrow> Inr (cfg\<lparr>t_client_cas := Some pool, t_client_auth := RequireAndVerifyClientCert\<rparr>))
           else Inr cfg))"

text \<open>
  \<open>dial\<close>: the transport credentials of the connection, \<open>None\<close> for plaintext. \<open>newClient\<close> is
  \<open>grpc.NewClient\<close>, which does not connect yet.
\<close>

definition dial_creds ::
  "('crt, 'pool) pem \<Rightarrow> host \<Rightarrow> bool \<Rightarrow> string \<Rightarrow> string \<Rightarrow> string \<Rightarrow> gerr + ('crt, 'pool) tls_config option" where
  "dial_creds X h useTLS caCert clientCert clientKey =
     (if useTLS then
        (case (if caCert \<noteq> '''' then map_sum id (\<lambda>p. zero_tls\<lparr>t_root_cas := Some p\<rparr>) (certPool X h caCert)
               else Inr zero_tls) of
           Inl e \<Rightarrow> Inl e
         | Inr cfg \<Rightarrow>
             if clientCert \<noteq> '''' then
               map_sum id (\<lambda>c. Some (cfg\<lparr>t_certificates := [c]\<rparr>)) (load_pair X h clientCert clientKey)
             else Inr (Some cfg))
      else Inr None)"

definition dial ::
  "('crt, 'pool) pem \<Rightarrow> (string \<Rightarrow> ('crt, 'pool) tls_config option \<Rightarrow> gerr + 'conn)
   \<Rightarrow> string \<Rightarrow> bool \<Rightarrow> string \<Rightarrow> string \<Rightarrow> string \<Rightarrow> ('conn, 's) cmd" where
  "dial X newClient addr useTLS caCert clientCert clientKey =
     seq (ask (\<lambda>h. dial_creds X h useTLS caCert clientCert clientKey)) (\<lambda>r.
     seq (or_die r) (\<lambda>creds. or_die (newClient addr creds)))"

text \<open>
  Credentials that cannot be loaded end the command: it never goes on without the certificate
  authority or the client certificate it was told to use. Without \<open>-tls\<close> both are ignored.
\<close>

lemma dial_creds_Inr:
  assumes "dial_creds X h useTLS caCert clientCert clientKey = Inr creds"
  shows "case creds of
           None \<Rightarrow> \<not> useTLS
         | Some cfg \<Rightarrow> useTLS
             \<and> (if caCert = '''' then t_root_cas cfg = None
                else \<exists>p. certPool X h caCert = Inr p \<and> t_root_cas cfg = Some p)
             \<and> (if clientCert = '''' then t_certificates cfg = []
                else \<exists>c. load_pair X h clientCert clientKey = Inr c \<and> t_certificates cfg = [c])"
  using assms
  by (cases "certPool X h caCert"; cases "load_pair X h clientCert clientKey")
     (auto simp: dial_creds_def zero_tls_def split: if_splits)

lemma dial_without_tls_ignores_certificates:
  "dial_creds X h False caCert clientCert clientKey = Inr None"
  by (simp add: dial_creds_def)

lemma serverCreds_Inr:
  assumes "serverCreds X h certFile keyFile clientCA = Inr cfg"
  obtains c where "load_pair X h certFile keyFile = Inr c" and "t_certificates cfg = [c]"
    and "if clientCA = '''' then t_client_auth cfg = NoClientCert
         else t_client_auth cfg = RequireAndVerifyClientCert
           \<and> (\<exists>p. certPool X h clientCA = Inr p \<and> t_client_cas cfg = Some p)"
  using assms by (auto simp: serverCreds_def zero_tls_def Let_def split: if_splits sum.splits)

end
