(* ===== verification/Cli_Commands.thy ===== *)
theory Cli_Commands
  imports Cli_Text Server_Coherence
begin

text \<open>
  The commands of \<open>cmd/priompt/main.go\<close> that write prompts, \<open>put\<close>, \<open>import\<close> and the commit path
  they share; the client side of \<open>publish\<close>; and the way a diff answer is rebuilt for printing.
\<close>

section \<open>The commit path\<close>

text \<open>\<open>fmt.Errorf("... %w", err)\<close> keeps the chain of the wrapped error.\<close>

definition wrap_error :: "string \<Rightarrow> gerr \<Rightarrow> gerr" where
  "wrap_error msg e = Gerr (chain e) (msg @ err_text e)"

definition commitMain ::
  "'em lib \<Rightarrow> 'st store \<Rightarrow> string \<Rightarrow> string \<Rightarrow> string list \<Rightarrow> string \<Rightarrow> 'st \<Rightarrow> (gerr + bool) \<times> 'st" where
  "commitMain L st uri template slots message s =
     (case validate_prompt L uri template slots of
        Some e \<Rightarrow> (Inl (wrap_error (uri @ '': invalid prompt: '') e), s)
      | None \<Rightarrow>
          (let write = (\<lambda>s. case st_commit st uri (default_branch L) template slots ''priompt'' message s of
                              (Inl e, s2) \<Rightarrow> (Inl e, s2) | (Inr _, s2) \<Rightarrow> (Inr True, s2))
           in case st_resolve st uri (default_branch L) s of
                (Inr tip, s1) \<Rightarrow>
                  if c_version_hash tip = store_hash L template slots then (Inr False, s1) else write s1
              | (Inl e, s1) \<Rightarrow> if \<not> errors_is e Err_NotFound then (Inl e, s1) else write s1))"

section \<open>put\<close>

definition hasStructural :: "sd_result list \<Rightarrow> bool" where
  "hasStructural res \<longleftrightarrow> list_ex (\<lambda>r. sd_class r = ''structural'') res"

text \<open>A short hash, \<open>h[:12]\<close>; the panic of a hash that is too short ends the process as well.\<close>

definition short_hash :: "string \<Rightarrow> fatal + string" where
  "short_hash h = (case slice_to 12 h of Some x \<Rightarrow> Inr x | None \<Rightarrow> Inl (Fatal ''panic: slice bounds out of range'' []))"

text \<open>
  \<open>put\<close> once flags and template are read and the store is open. \<open>format\<close> is \<open>semdiff.Format\<close>; the
  result is what ends the command or what it prints.
\<close>

definition put_commit ::
  "'em lib \<Rightarrow> 'st store \<Rightarrow> string \<Rightarrow> string \<Rightarrow> string list \<Rightarrow> string \<Rightarrow> 'st \<Rightarrow> (fatal + string) \<times> 'st" where
  "put_commit L st uri template slots printed s =
     (case commitMain L st uri template slots ''put'' s of
        (Inl e, s1) \<Rightarrow> (Inl (Fatal (err_text e) []), s1)
      | (Inr wrote, s1) \<Rightarrow>
          (case short_hash (store_hash L template slots) of
             Inl f \<Rightarrow> (Inl f, s1)
           | Inr h \<Rightarrow> (Inr (printed @ (if \<not> wrote then ''unchanged '' else ''stored '') @ uri @ '' ('' @ h @ '')'' @ [LF]), s1)))"

definition put ::
  "'em lib \<Rightarrow> 'st store \<Rightarrow> 'em \<Rightarrow> (sd_result list \<Rightarrow> string) \<Rightarrow> string \<Rightarrow> string \<Rightarrow> string list \<Rightarrow> bool
   \<Rightarrow> 'st \<Rightarrow> (fatal + string) \<times> 'st" where
  "put L st emb format uri template slots force s =
     (case validate_prompt L uri template slots of
        Some e \<Rightarrow> (Inl (Fatal ''validation failed: %v'' [err_text e]), s)
      | None \<Rightarrow>
          (case st_get st uri s of
             ((prev, None), s1) \<Rightarrow>
               (if p_template prev \<noteq> template then
                  (case analyze L (Some emb) (cli_splitLines (p_template prev)) (cli_splitLines template) of
                     Inl e \<Rightarrow> (Inl (Fatal (err_text e) []), s1)
                   | Inr res \<Rightarrow>
                       if \<not> force \<and> hasStructural res
                       then (Inl (Fatal ''structural change detected; re-run with -force to store'' []), s1)
                       else put_commit L st uri template slots (format res) s1)
                else put_commit L st uri template slots '''' s1)
           | ((prev, Some e), s1) \<Rightarrow>
               (if \<not> errors_is e Err_NotFound then (Inl (Fatal (err_text e) []), s1)
                else put_commit L st uri template slots '''' s1)))"

section \<open>import\<close>

text \<open>
  \<open>decode\<close> is \<open>json.Decoder\<close> on the rest of the file: what successive calls of \<open>Decode\<close> give, an
  error ending the list. Every prompt is checked before the first is written.
\<close>

fun import_check :: "'em lib \<Rightarrow> (gerr + prompt) list \<Rightarrow> prompt list \<Rightarrow> gerr + prompt list" where
  "import_check L [] acc = Inr acc"
| "import_check L (Inl e # ds) acc = Inl e"
| "import_check L (Inr p # ds) acc =
     (case normalizeTemplate (p_template p) of
        Inl e \<Rightarrow> Inl (wrap_error (p_uri p @ '': '') e)
      | Inr t \<Rightarrow>
          (case validate_prompt L (p_uri p) t (p_slots p) of
             Some e \<Rightarrow> Inl (wrap_error (''prompt '' @ nat_digits (length acc + 1) @ '' ('' @ p_uri p
                              @ ''): invalid, nothing imported: '') e)
           | None \<Rightarrow> import_check L ds (acc @ [p\<lparr>p_template := t\<rparr>])))"

fun import_write ::
  "'em lib \<Rightarrow> 'st store \<Rightarrow> prompt list \<Rightarrow> nat \<Rightarrow> nat \<Rightarrow> 'st \<Rightarrow> (nat \<times> nat \<times> gerr option) \<times> 'st" where
  "import_write L st [] n unchanged s = ((n, unchanged, None), s)"
| "import_write L st (p # ps) n unchanged s =
     (case commitMain L st (p_uri p) (p_template p) (p_slots p) ''import'' s of
        (Inl e, s1) \<Rightarrow> ((n, unchanged, Some e), s1)
      | (Inr wrote, s1) \<Rightarrow>
          if wrote then import_write L st ps (n + 1) unchanged s1
          else import_write L st ps n (unchanged + 1) s1)"

definition importPrompts ::
  "'em lib \<Rightarrow> 'st store \<Rightarrow> (string \<Rightarrow> (gerr + prompt) list) \<Rightarrow> string \<Rightarrow> 'st
   \<Rightarrow> (nat \<times> nat \<times> gerr option) \<times> 'st" where
  "importPrompts L st decode r s =
     (let head = take 3 r in
      case (if head = utf8BOM then Inr (drop 3 r) else map_sum id (\<lambda>_. r) (normalizeTemplate head)) of
        Inl e \<Rightarrow> ((0, 0, Some e), s)
      | Inr body \<Rightarrow>
          (case import_check L (decode body) [] of
             Inl e \<Rightarrow> ((0, 0, Some e), s)
           | Inr ps \<Rightarrow> import_write L st ps 0 0 s))"

section \<open>publish\<close>

text \<open>
  \<open>publishPrompt\<close> over a client: the two methods of \<open>pb.PromptServiceClient\<close> it calls. The result
  is the error, or the line to print, or (\<open>None\<close>) the panic of a version hash shorter than twelve.
\<close>

record 'w prompt_client =
  cl_get :: "get_req \<Rightarrow> 'w \<Rightarrow> (status + get_resp) \<times> 'w"
  cl_publish :: "publish_req \<Rightarrow> 'w \<Rightarrow> (status + string) \<times> 'w"

abbreviation em_dash :: string where
  "em_dash \<equiv> [CHR 0xE2, CHR 0x80, CHR 0x94]"

definition unchanged_line :: "string \<Rightarrow> string \<Rightarrow> string" where
  "unchanged_line uri h = ''unchanged '' @ uri @ '' ('' @ h @ '') '' @ em_dash @ '' already served; no change event sent''"

definition published_line :: "string \<Rightarrow> string \<Rightarrow> string" where
  "published_line uri h = ''published '' @ uri @ '' ('' @ h @ '') '' @ em_dash @ '' subscribers notified''"

definition publishPrompt ::
  "'w prompt_client \<Rightarrow> publish_req \<Rightarrow> 'w \<Rightarrow> (status + string) option \<times> 'w" where
  "publishPrompt c req w =
     (case cl_get c \<lparr>gq_uri = pq_uri req, gq_ref = ''''\<rparr> w of
        (cur, w1) \<Rightarrow>
          (let before = (case cur of Inr r \<Rightarrow> g_version_hash r | Inl _ \<Rightarrow> '''') in
           case cl_publish c req w1 of
             (Inl e, w2) \<Rightarrow> (Some (Inl e), w2)
           | (Inr h, w2) \<Rightarrow>
               (if h = before
                then map_option (\<lambda>x. Inr (unchanged_line (pq_uri req) x)) (slice_to 12 before)
                else map_option (\<lambda>x. Inr (published_line (pq_uri req) x)) (slice_to 12 h), w2)))"

section \<open>diff\<close>

text \<open>\<open>int(x)\<close> of an \<open>int32\<close> keeps the value.\<close>

definition go_int :: "32 word \<Rightarrow> 64 word" where
  "go_int x = scast x"

definition fromWindows :: "pb_window list \<Rightarrow> window list" where
  "fromWindows ws = map (\<lambda>w. \<lparr>radius = go_int (pw_radius w), delta = pw_delta w\<rparr>) ws"

definition fromProto :: "pb_change list \<Rightarrow> sd_result list" where
  "fromProto changes = map (\<lambda>c.
     \<lparr>sd_change = \<lparr>old_start = go_int (ch_old_start c), old_end = go_int (ch_old_end c),
                   new_start = go_int (ch_new_start c), new_end = go_int (ch_new_end c)\<rparr>,
      signal2 = ch_point_delta c,
      sd_up = \<lparr>curve = fromWindows (ch_up c), stopped_at_boundary = ch_up_boundary c\<rparr>,
      sd_down = \<lparr>curve = fromWindows (ch_down c), stopped_at_boundary = ch_down_boundary c\<rparr>,
      sd_class = ch_classification c\<rparr>) changes"

text \<open>The line numbers and radii of a result fit the wire's 32 bits.\<close>

definition fits32 :: "64 word \<Rightarrow> bool" where
  "fits32 x \<longleftrightarrow> - (2 ^ 31) \<le> sint x \<and> sint x < 2 ^ 31"

definition result_fits :: "sd_result \<Rightarrow> bool" where
  "result_fits r \<longleftrightarrow> fits32 (old_start (sd_change r)) \<and> fits32 (old_end (sd_change r))
     \<and> fits32 (new_start (sd_change r)) \<and> fits32 (new_end (sd_change r))
     \<and> list_all (\<lambda>w. fits32 (radius w)) (curve (sd_up r)) \<and> list_all (\<lambda>w. fits32 (radius w)) (curve (sd_down r))"

lemma go_int_int32: "fits32 x \<Longrightarrow> go_int (int32 x) = x"
proof -
  assume a: "fits32 x"
  have "sint (ucast x :: 32 word) = signed_take_bit 31 (uint x)"
    by (simp add: signed_ucast_eq)
  also have "uint x = take_bit 64 (sint x)" by (simp add: uint_sint)
  also have "signed_take_bit 31 (take_bit 64 (sint x)) = signed_take_bit 31 (sint x)"
    by (simp add: signed_take_bit_take_bit)
  also have "\<dots> = sint x" using a by (intro signed_take_bit_int_eq_self) (simp_all add: fits32_def)
  finally have "(word_of_int (sint (ucast x :: 32 word)) :: 64 word) = word_of_int (sint x)" by simp
  then show ?thesis by (simp add: go_int_def int32_def)
qed

lemma fromWindows_toWindows:
  "list_all (\<lambda>w. fits32 (radius w)) ws \<Longrightarrow> fromWindows (toWindows ws) = ws"
  by (induction ws) (simp_all add: fromWindows_def toWindows_def go_int_int32)

text \<open>
  C37. A diff survives the wire: what the command line rebuilds from the server's answer is the
  analysis the server ran, result for result, as long as its line numbers and radii fit 32 bits.
\<close>

theorem diff_survives_the_wire:
  assumes "server_diff L S oldT newT w = (Inr changes, w')"
    and "analyze L (sv_embedder S) (splitLines oldT) (splitLines newT) = Inr results"
    and "list_all result_fits results"
  shows "fromProto changes = results"
proof -
  have "changes = map (diff_change L) results"
    using assms(1,2) by (simp add: server_diff_def)
  moreover have "fromProto (map (diff_change L) rs) = rs" if "list_all result_fits rs" for rs
    using that
    by (induction rs) (simp_all add: fromProto_def diff_change_def result_fits_def go_int_int32 fromWindows_toWindows)
  ultimately show ?thesis using assms(3) by simp
qed

theorem diff_survives_the_wire_witness:
  "\<exists>changes w'. server_diff sample_lib (sample_server (Some mem_cache)) ''a'' ''b'' (sample_world sample_cache)
       = (Inr changes, w') \<and> fromProto changes = [sample_result]"
proof -
  have an: "analyze sample_lib (sv_embedder (sample_server (Some mem_cache))) (splitLines ''a'') (splitLines ''b'')
      = Inr [sample_result]"
    by (simp add: splitLines_def has_suffix_def)
  have run: "server_diff sample_lib (sample_server (Some mem_cache)) ''a'' ''b'' (sample_world sample_cache)
      = (Inr (map (diff_change sample_lib) [sample_result]), sample_world sample_cache)"
    using an by (simp add: server_diff_def)
  have "list_all result_fits [sample_result]"
    by (simp add: result_fits_def sample_result_def sample_change_def fits32_def)
  with diff_survives_the_wire [OF run an] run show ?thesis by blast
qed

section \<open>put refuses structural changes\<close>

text \<open>
  Without \<open>-force\<close> a structural change never reaches the store: if the analysis of the edit
  against the served template finds one, \<open>put\<close> ends with an error and has written nothing.
\<close>

theorem put_refuses_structural_change:
  assumes "reads_pure st" and "served st s uri = (prev, None)" and "p_template prev \<noteq> template"
    and "analyze L (Some emb) (cli_splitLines (p_template prev)) (cli_splitLines template) = Inr res"
    and "r \<in> set res" and "sd_class r = ''structural''"
  shows "\<exists>f. put L st emb format uri template slots False s = (Inl f, s)"
proof -
  have "hasStructural res" using assms(5,6) by (auto simp: hasStructural_def list_ex_iff)
  then show ?thesis
    using assms(2-4) reads_pure_get [OF assms(1), of uri s] by (auto simp: put_def split: option.splits)
qed

theorem put_refuses_structural_change_witness:
  "\<exists>f s. find_head acme_uri s \<noteq> None
     \<and> put sample_lib sample_ops () (\<lambda>_. '''') acme_uri ''v2'' [] False s = (Inl f, s)"
proof -
  let ?s = "snd (sample_commit acme_uri ''main'' ''v1'' [] ''a'' ''m'' sample_empty)"
  have sv: "served sample_ops ?s acme_uri
      = (\<lparr>p_uri = acme_uri, p_template = ''v1'', p_slots = [], p_version_hash = sample_hash ''v1'' []\<rparr>, None)"
    by (simp add: served_sample sample_commit_def Let_def prompt_of_def)
  have an: "analyze sample_lib (Some ()) (cli_splitLines ''v1'') (cli_splitLines ''v2'') = Inr [sample_result]"
    by (simp add: cli_splitLines_def has_suffix_def)
  have "find_head acme_uri ?s \<noteq> None" by (simp add: sample_commit_def Let_def)
  moreover have "\<exists>f. put sample_lib sample_ops () (\<lambda>_. '''') acme_uri ''v2'' [] False ?s = (Inl f, ?s)"
    using put_refuses_structural_change [OF store_contractD(1) [OF sample_store_contract] sv, of "''v2''" sample_lib "()"
        "[sample_result]" sample_result "\<lambda>_. ''''" "[]"] an by (simp add: sample_result_def)
  ultimately show ?thesis by blast
qed

section \<open>import\<close>

lemma import_check_bad:
  assumes "d \<in> set ds"
    and "case d of Inl e \<Rightarrow> True
         | Inr p \<Rightarrow> (case normalizeTemplate (p_template p) of
                     Inl e \<Rightarrow> True | Inr t \<Rightarrow> validate_prompt L (p_uri p) t (p_slots p) \<noteq> None)"
  shows "\<exists>e. import_check L ds acc = Inl e"
  using assms
proof (induction ds arbitrary: acc)
  case (Cons x ds)
  show ?case
  proof (cases x)
    case (Inl e)
    then show ?thesis by simp
  next
    case (Inr p)
    with Cons show ?thesis by (fastforce split: sum.splits option.splits)
  qed
qed simp

text \<open>
  C28. One bad prompt stops an import before anything is written: if any entry of the file does not
  decode, is UTF-16 or does not validate, the import reports an error and leaves the store alone.
\<close>

theorem invalid_import_writes_nothing:
  assumes "take 3 r = utf8BOM \<and> body = drop 3 r \<or> take 3 r \<noteq> utf8BOM \<and> body = r"
    and "d \<in> set (decode body)"
    and "case d of Inl e \<Rightarrow> True
         | Inr p \<Rightarrow> (case normalizeTemplate (p_template p) of
                     Inl e \<Rightarrow> True | Inr t \<Rightarrow> validate_prompt L (p_uri p) t (p_slots p) \<noteq> None)"
  shows "\<exists>e. importPrompts L st decode r s = ((0, 0, Some e), s)"
proof -
  obtain e where "import_check L (decode body) [] = Inl e"
    using import_check_bad [OF assms(2,3)] by blast
  then show ?thesis
    using assms(1) by (cases "normalizeTemplate (take 3 r)") (auto simp: importPrompts_def Let_def)
qed

theorem invalid_import_writes_nothing_witness:
  "\<exists>e. importPrompts sample_lib sample_ops
     (\<lambda>_. [Inr \<lparr>p_uri = acme_uri, p_template = ''ok'', p_slots = [], p_version_hash = ''''\<rparr>,
           Inr \<lparr>p_uri = acme_uri, p_template = '''', p_slots = [], p_version_hash = ''''\<rparr>]) ''{}'' sample_empty
     = ((0, 0, Some e), sample_empty)"
  by (rule invalid_import_writes_nothing [of "''{}''" "''{}''" "Inr \<lparr>p_uri = acme_uri, p_template = '''', p_slots = [],
        p_version_hash = ''''\<rparr>"])
     (simp_all add: utf8BOM_def normalizeTemplate_def trim_prefix_def)

text \<open>
  What the commit path relies on in \<open>Resolve\<close>: after a commit to main the branch resolves to a
  commit with that content's version hash, and the main branches of other prompts resolve as before.
\<close>

definition resolve_contract :: "'em lib \<Rightarrow> 'st store \<Rightarrow> bool" where
  "resolve_contract L st \<longleftrightarrow> (\<forall>u t sl a g s c s'. st_commit st u (default_branch L) t sl a g s = (Inr c, s') \<longrightarrow>
     (\<exists>tip. fst (st_resolve st u (default_branch L) s') = Inr tip \<and> c_version_hash tip = store_hash L t sl)
   \<and> (\<forall>v. v \<noteq> u \<longrightarrow> fst (st_resolve st v (default_branch L) s') = fst (st_resolve st v (default_branch L) s)))"

text \<open>Main holds a prompt's content.\<close>

definition main_holds :: "'em lib \<Rightarrow> 'st store \<Rightarrow> 'st \<Rightarrow> prompt \<Rightarrow> bool" where
  "main_holds L st s p \<longleftrightarrow> validate_prompt L (p_uri p) (p_template p) (p_slots p) = None
     \<and> (\<exists>tip. fst (st_resolve st (p_uri p) (default_branch L) s) = Inr tip
          \<and> c_version_hash tip = store_hash L (p_template p) (p_slots p))"

text \<open>Two entries that do not contradict each other: other addresses, or the same content.\<close>

definition agree :: "'em lib \<Rightarrow> prompt \<Rightarrow> prompt \<Rightarrow> bool" where
  "agree L p q \<longleftrightarrow> p_uri p = p_uri q
     \<longrightarrow> store_hash L (p_template p) (p_slots p) = store_hash L (p_template q) (p_slots q)"

lemma resolve_pure: "reads_pure st \<Longrightarrow> st_resolve st u b s = (fst (st_resolve st u b s), s)"
  by (simp add: reads_pure_def prod_eq_iff)

lemma commitMain_no_op:
  assumes "reads_pure st" and "main_holds L st s p"
  shows "commitMain L st (p_uri p) (p_template p) (p_slots p) g s = (Inr False, s)"
  using assms resolve_pure [OF assms(1), of "p_uri p" "default_branch L" s]
  by (auto simp: commitMain_def main_holds_def split: prod.splits)

lemma commitMain_success:
  assumes "reads_pure st" and "resolve_contract L st"
    and "commitMain L st (p_uri p) (p_template p) (p_slots p) g s = (Inr wrote, s')"
  shows "main_holds L st s' p"
    and "agree L p q \<Longrightarrow> main_holds L st s q \<Longrightarrow> main_holds L st s' q"
proof -
  obtain x where res: "st_resolve st (p_uri p) (default_branch L) s = (x, s)"
    using resolve_pure [OF assms(1)] by metis
  have "s' = s \<and> main_holds L st s p
      \<or> (\<exists>c. st_commit st (p_uri p) (default_branch L) (p_template p) (p_slots p) ''priompt'' g s = (Inr c, s')
          \<and> validate_prompt L (p_uri p) (p_template p) (p_slots p) = None)"
    using assms(3) res
    by (auto simp: commitMain_def Let_def main_holds_def split: option.splits sum.splits if_splits prod.splits)
  then show holds: "main_holds L st s' p" and "agree L p q \<Longrightarrow> main_holds L st s q \<Longrightarrow> main_holds L st s' q"
    using assms(2) unfolding resolve_contract_def main_holds_def agree_def by metis+
qed

lemma import_write_holds:
  assumes "reads_pure st" and "resolve_contract L st" and "\<forall>p\<in>set ps. \<forall>q\<in>set ps. agree L p q"
    and "import_write L st ps n k s = ((n', k', None), s')"
  shows "(\<forall>p\<in>set ps. main_holds L st s' p) \<and> n' + k' = n + k + length ps
       \<and> (\<forall>q. (\<forall>p\<in>set ps. agree L p q) \<and> main_holds L st s q \<longrightarrow> main_holds L st s' q)"
  using assms(3,4)
proof (induction ps arbitrary: n k s)
  case (Cons p ps)
  obtain wrote s1 where c: "commitMain L st (p_uri p) (p_template p) (p_slots p) ''import'' s = (Inr wrote, s1)"
    using Cons.prems(2) by (auto split: prod.splits sum.splits)
  note step = commitMain_success [OF assms(1,2) c]
  have "\<exists>n1 k1. n1 + k1 = n + k + 1 \<and> import_write L st ps n1 k1 s1 = ((n', k', None), s')"
    using Cons.prems(2) c by (cases wrote) force+
  then obtain n1 k1 where r: "n1 + k1 = n + k + 1" "import_write L st ps n1 k1 s1 = ((n', k', None), s')" by blast
  have "\<forall>p\<in>set ps. \<forall>q\<in>set ps. agree L p q" "\<forall>q\<in>set ps. agree L q p" using Cons.prems(1) by auto
  then show ?case using Cons.IH [OF _ r(2)] step r(1) by auto
qed simp

lemma import_write_again:
  assumes "reads_pure st" and "\<forall>p\<in>set ps. main_holds L st s p"
  shows "import_write L st ps n k s = ((n, k + length ps, None), s)"
  using assms(2) by (induction ps arbitrary: k) (simp_all add: commitMain_no_op [OF assms(1)])

text \<open>The file without its byte order mark.\<close>

definition import_body :: "string \<Rightarrow> string" where
  "import_body r = (if take 3 r = utf8BOM then drop 3 r else r)"

lemma importPrompts_Inr:
  assumes "importPrompts L st decode r s = ((n, k, None), s')"
  obtains ps where "import_check L (decode (import_body r)) [] = Inr ps"
    and "\<And>t. importPrompts L st decode r t = import_write L st ps 0 0 t"
proof -
  obtain body where body: "(if take 3 r = utf8BOM then Inr (drop 3 r)
        else map_sum id (\<lambda>_. r) (normalizeTemplate (take 3 r))) = Inr body"
    using assms by (auto simp: importPrompts_def Let_def split: sum.splits)
  then have "body = import_body r"
    by (cases "normalizeTemplate (take 3 r)") (auto simp: import_body_def split: if_splits)
  moreover obtain ps where "import_check L (decode body) [] = Inr ps"
    using assms body by (auto simp: importPrompts_def Let_def split: sum.splits)
  ultimately show ?thesis using that body by (simp add: importPrompts_def Let_def)
qed

text \<open>
  C27. An import can be repeated, if its file does not name one address with two contents: importing
  the file a second time finds all of it unchanged, counts every prompt as such and writes nothing.
\<close>

theorem import_is_repeatable:
  assumes "reads_pure st" and "resolve_contract L st"
    and "\<forall>ps. import_check L (decode (import_body r)) [] = Inr ps \<longrightarrow> (\<forall>p\<in>set ps. \<forall>q\<in>set ps. agree L p q)"
    and "importPrompts L st decode r s = ((n, k, None), s')"
  shows "importPrompts L st decode r s' = ((0, n + k, None), s')"
proof -
  obtain ps where ps: "import_check L (decode (import_body r)) [] = Inr ps"
    and run: "\<And>t. importPrompts L st decode r t = import_write L st ps 0 0 t"
    using importPrompts_Inr [OF assms(4)] by metis
  have "\<forall>p\<in>set ps. \<forall>q\<in>set ps. agree L p q" using assms(3) ps by blast
  from import_write_holds [OF assms(1,2) this] assms(4)
  show ?thesis unfolding run using import_write_again [OF assms(1), of ps L s' 0 0] by fastforce
qed

text \<open>
  A file that does is imported anew every time: each run without an error commits both contents, so
  that every import adds to the history and sends the prompt through the other content.
\<close>

lemma contradicting_import_never_settles:
  assumes "reads_pure st" and "resolve_contract L st"
    and "import_check L (decode (import_body r)) [] = Inr [p, q]" and "\<not> agree L p q"
    and "importPrompts L st decode r s = ((n, k, None), s')" and "importPrompts L st decode r s' = ((n2, k2, None), s2)"
  shows "n2 = 2 \<and> k2 = 0"
proof -
  have run: "importPrompts L st decode r t = import_write L st [p, q] 0 0 t" for t
    using importPrompts_Inr [OF assms(5)] assms(3) by (metis sum.inject(2))
  have uri: "p_uri q = p_uri p"
    and hash: "store_hash L (p_template p) (p_slots p) \<noteq> store_hash L (p_template q) (p_slots q)"
    using assms(4) by (auto simp: agree_def)
  have last: "main_holds L st t' y" if "commitMain L st (p_uri y) (p_template y) (p_slots y) g t = (Inr w, t')" for t t' w g y
    using commitMain_success(1) [OF assms(1,2) that] .
  have wrote: "w" if "commitMain L st (p_uri x) (p_template x) (p_slots x) g t = (Inr w, t')"
    "main_holds L st t y" "p_uri y = p_uri x" "store_hash L (p_template y) (p_slots y) \<noteq> store_hash L (p_template x) (p_slots x)"
    for x y g t w t'
    using that resolve_pure [OF assms(1), of "p_uri x" "default_branch L" t]
    by (auto simp: commitMain_def main_holds_def Let_def split: option.splits sum.splits if_splits prod.splits)
  have q: "main_holds L st s' q"
    using assms(5) last unfolding run by (auto split: prod.splits sum.splits if_splits)
  obtain w1 t1 where c1: "commitMain L st (p_uri p) (p_template p) (p_slots p) ''import'' s' = (Inr w1, t1)"
    using assms(6) unfolding run by (auto split: prod.splits sum.splits if_splits)
  obtain w2 t2 where c2: "commitMain L st (p_uri q) (p_template q) (p_slots q) ''import'' t1 = (Inr w2, t2)"
    using assms(6) c1 unfolding run by (auto split: prod.splits sum.splits if_splits)
  have "w1" using wrote [OF c1 q uri] hash by simp
  moreover have "w2" using wrote [OF c2 last [OF c1]] uri hash by simp
  ultimately show ?thesis using assms(6) c1 c2 unfolding run by simp
qed

lemma fresh_not_in:
  "c \<in> set (s_commits s) \<Longrightarrow> c_hash c \<noteq> fresh_hash s"
  "r \<in> set (s_refs s) \<Longrightarrow> r_commit r \<noteq> fresh_hash s"
proof -
  have mem: "x \<in> set xs \<Longrightarrow> length (f x) \<le> sum_list (map (length \<circ> f) xs)" for x xs and f :: "'z \<Rightarrow> string"
    by (induction xs) auto
  show "c \<in> set (s_commits s) \<Longrightarrow> c_hash c \<noteq> fresh_hash s"
    using mem [of c "s_commits s" c_hash] by (auto simp: fresh_hash_def dest: arg_cong [of _ _ length])
  show "r \<in> set (s_refs s) \<Longrightarrow> r_commit r \<noteq> fresh_hash s"
    using mem [of r "s_refs s" r_commit] by (auto simp: fresh_hash_def dest: arg_cong [of _ _ length])
qed

lemma find_ref_set_ref:
  "find_ref v b (set_ref u b' h s) = (if u = v \<and> b = b' then Some h else find_ref v b s)"
proof (cases "u = v \<and> b = b'")
  case False
  then have "find (\<lambda>r. r_uri r = v \<and> r_branch r = b) (filter (\<lambda>r. \<not> (r_uri r = u \<and> r_branch r = b')) rs)
      = find (\<lambda>r. r_uri r = v \<and> r_branch r = b) rs" for rs :: "ref list"
    by (induction rs) auto
  with False show ?thesis by (auto simp: find_ref_def set_ref_def simp del: de_Morgan_conj)
qed (simp add: find_ref_def set_ref_def)

lemma sample_after_commit:
  assumes "sample_commit u b t sl a g s = (Inr h, s')"
  shows "find_ref v x s' = (if v = u \<and> x = b then Some h else find_ref v x s)"
    and "k \<noteq> h \<Longrightarrow> find_commit k s' = find_commit k s"
    and "\<exists>c. find_commit h s' = Some c \<and> c_version_hash c = sample_hash t sl" and "h = fresh_hash s"
proof -
  have refs: "find_ref v x (set_head p s) = find_ref v x s" "find_ref v x (record_commit c s) = find_ref v x s"
    "find_commit k (set_head p s) = find_commit k s" "find_commit k (set_ref u b h s) = find_commit k s"
    "find_commit k (record_commit c s) = (if c_hash c = k then Some c else find_commit k s)" for p c u b h k s v x
    by (simp_all add: find_ref_def set_head_def record_commit_def find_commit_def set_ref_def)
  show "find_ref v x s' = (if v = u \<and> x = b then Some h else find_ref v x s)"
    "k \<noteq> h \<Longrightarrow> find_commit k s' = find_commit k s"
    "\<exists>c. find_commit h s' = Some c \<and> c_version_hash c = sample_hash t sl" "h = fresh_hash s"
    using assms by (auto simp: sample_commit_def advance_def Let_def refs find_ref_set_ref)
qed

lemma sample_resolve_contract: "resolve_contract sample_lib sample_ops"
  unfolding resolve_contract_def
proof (intro allI impI conjI)
  fix u t sl a g s c s'
  assume "st_commit sample_ops u (default_branch sample_lib) t sl a g s = (Inr c, s')"
  then have cm: "sample_commit u ''main'' t sl a g s = (Inr c, s')" by simp
  note after = sample_after_commit [OF cm]
  show "\<exists>tip. fst (st_resolve sample_ops u (default_branch sample_lib) s') = Inr tip
      \<and> c_version_hash tip = store_hash sample_lib t sl"
    using after(3) by (auto simp: sample_resolve_def find_tip_def after(1))
  fix v :: string
  assume v: "v \<noteq> u"
  have fresh: "find_ref v ''main'' s \<noteq> Some c"
    using fresh_not_in(2) after(4) by (force simp: find_ref_def find_Some_iff)
  have "''main'' \<noteq> c" using after(4) by (simp add: fresh_hash_def)
  then have "find_commit ''main'' s' = find_commit ''main'' s" by (rule after(2))
  then show "fst (st_resolve sample_ops v (default_branch sample_lib) s')
      = fst (st_resolve sample_ops v (default_branch sample_lib) s)"
    using v fresh after(1,2) by (cases "find_ref v ''main'' s") (auto simp: sample_resolve_def find_tip_def cong: option.case_cong)
qed

definition one_prompt :: "string \<Rightarrow> (gerr + prompt) list" where
  "one_prompt _ = [Inr \<lparr>p_uri = acme_uri, p_template = ''v1'', p_slots = [], p_version_hash = ''''\<rparr>]"

theorem import_is_repeatable_witness:
  "\<exists>n k s'. importPrompts sample_lib sample_ops one_prompt ''{}'' sample_empty = ((n, k, None), s')
     \<and> n + k = 1 \<and> importPrompts sample_lib sample_ops one_prompt ''{}'' s' = ((0, 1, None), s')"
proof -
  let ?i = "importPrompts sample_lib sample_ops one_prompt ''{}'' sample_empty"
  have norm: "normalizeTemplate ''v1'' = Inr ''v1''" "normalizeTemplate ''{}'' = Inr ''{}''"
    by (simp_all add: normalizeTemplate_def trim_prefix_def utf8BOM_def)
  have check: "import_check sample_lib (one_prompt b) []
      = Inr [\<lparr>p_uri = acme_uri, p_template = ''v1'', p_slots = [], p_version_hash = ''''\<rparr>]" for b
    by (simp add: one_prompt_def norm)
  have run: "\<exists>s'. ?i = ((1, 0, None), s')"
    using check norm
    by (simp add: importPrompts_def Let_def utf8BOM_def commitMain_def sample_resolve_def find_tip_def find_ref_def
        find_commit_def sample_empty_def not_found_def sample_commit_def)
  then obtain s' where run: "?i = ((1, 0, None), s')" by blast
  have "\<forall>ps. import_check sample_lib (one_prompt (import_body ''{}'')) [] = Inr ps \<longrightarrow> (\<forall>p\<in>set ps. \<forall>q\<in>set ps. agree sample_lib p q)"
    using check by (auto simp: agree_def)
  from import_is_repeatable [OF store_contractD(1) [OF sample_store_contract] sample_resolve_contract this run] run
  show ?thesis by (intro exI conjI) (assumption, simp_all)
qed

section \<open>What publish tells the user\<close>

text \<open>The command line talking to the server as the caller \<open>ctx\<close>.\<close>

definition server_client ::
  "'em lib \<Rightarrow> ('st, 'ca, 'nt, 'em) server \<Rightarrow> ctx \<Rightarrow> ('st, 'ca, 'nt) world prompt_client" where
  "server_client L S ctx = \<lparr>cl_get = GetPrompt L S ctx, cl_publish = PublishPrompt L S ctx\<rparr>"

context l2_cache
begin

lemma get_is_current:
  assumes "sv_cache S = Some K" and "reads_pure (sv_store S)" and "coherent L (sv_store S) view w"
    and "GetPrompt L S ctx q w = (Inr x, w')" and "gq_ref q = ''''"
  shows "current L (sv_store S) (w_store w) (gq_uri q) x"
  using assms(4,1)
proof (cases rule: GetPrompt_cases)
  case (hit y ca)
  then show ?thesis using get_sound [of "gq_uri q" "w_cache w" x] assms(3) by (auto simp: coherent_def)
next
  case (miss ca y w1)
  then show ?thesis using current_get_head(1) [OF assms(2) miss(3)] by simp
qed (use assms(5) in simp_all)

end

lemma publish_success_event:
  assumes "reads_pure (sv_store S)" and "sv_notifier S = Some n" and "may_write L ctx (pq_uri q)"
    and "validate_prompt L (pq_uri q) (pq_template q) (pq_slots q) = None"
    and "branchOr L (pq_branch q) = default_branch L"
    and "PublishPrompt L S ctx q w = (Inr h, w')"
  shows "h = store_hash L (pq_template q) (pq_slots q)"
    and "(\<exists>p. served (sv_store S) (w_store w) (pq_uri q) = (p, None) \<and> p_version_hash p = h)
         \<Longrightarrow> w_notif w' = w_notif w"
    and "\<not> (\<exists>p. served (sv_store S) (w_store w) (pq_uri q) = (p, None) \<and> p_version_hash p = h)
         \<Longrightarrow> w_notif w' = snd (n_publish n (pq_uri q) h
               (publish_class L S (served (sv_store S) (w_store w) (pq_uri q)) (pq_template q)) (w_notif w))"
proof -
  let ?h = "store_hash L (pq_template q) (pq_slots q)"
  let ?same = "\<exists>p. served (sv_store S) (w_store w) (pq_uri q) = (p, None) \<and> p_version_hash p = ?h"
  have same: "h = ?h \<and> w_notif w' = w_notif w" if s: ?same
  proof -
    obtain p where p: "served (sv_store S) (w_store w) (pq_uri q) = (p, None)" "p_version_hash p = ?h"
      using s by blast
    note f = publish_main_same [OF assms(1,3-5) p assms(6)]
    show ?thesis using f(2,4) by (auto simp: cleared_or_def split: if_splits)
  qed
  have change: "h = ?h \<and> w_notif w' = snd (n_publish n (pq_uri q) ?h
      (publish_class L S (served (sv_store S) (w_store w) (pq_uri q)) (pq_template q)) (w_notif w))" if s: "\<not> ?same"
  proof -
    obtain ls where c: "publish_commit L S ctx q ?h (default_branch L)
        (publish_class L S (served (sv_store S) (w_store w) (pq_uri q)) (pq_template q)) (log_w ls w) = (Inr h, w')"
      using publish_main_change [OF assms(1,3-5) s assms(6)] .
    obtain y s' where cm: "st_commit (sv_store S) (pq_uri q) (default_branch L) (pq_template q) (pq_slots q)
        (ScopeOf ctx) (pq_message q) (w_store (log_w ls w)) = (y, s')" by fastforce
    then obtain z where "y = Inr z" using commit_main_fails(4) [OF _ c] by (cases y) auto
    note f = commit_main [OF assms(2) cm [unfolded this] c]
    show ?thesis using f(3,4) by (auto simp: cleared_or_def split: if_splits)
  qed
  show "h = ?h" using same change by blast
  then show "(\<exists>p. served (sv_store S) (w_store w) (pq_uri q) = (p, None) \<and> p_version_hash p = h)
         \<Longrightarrow> w_notif w' = w_notif w"
    "\<not> (\<exists>p. served (sv_store S) (w_store w) (pq_uri q) = (p, None) \<and> p_version_hash p = h)
         \<Longrightarrow> w_notif w' = snd (n_publish n (pq_uri q) h
               (publish_class L S (served (sv_store S) (w_store w) (pq_uri q)) (pq_template q)) (w_notif w))"
    using same change by blast+
qed

text \<open>
  What \<open>priompt publish\<close> prints is what happened: against a server whose cache is coherent, when
  the prompt could be read or does not exist yet, it says \<open>unchanged ... no change event sent\<close>
  exactly when the server sent none, and \<open>subscribers notified\<close> exactly when it sent one.
\<close>

theorem publish_line_is_true:
  assumes "l2_cache K view" and "sv_cache S = Some K" and "reads_pure (sv_store S)" and "sv_notifier S = Some n"
    and "coherent L (sv_store S) view w" and "may_write L ctx (pq_uri q)"
    and "validate_prompt L (pq_uri q) (pq_template q) (pq_slots q) = None"
    and "branchOr L (pq_branch q) = default_branch L" and "store_hash L (pq_template q) (pq_slots q) \<noteq> ''''"
    and "(\<exists>cur. fst (GetPrompt L S ctx \<lparr>gq_uri = pq_uri q, gq_ref = ''''\<rparr> w) = Inr cur)
       \<or> snd (served (sv_store S) (w_store w) (pq_uri q)) \<noteq> None"
    and "publishPrompt (server_client L S ctx) q w = (Some (Inr line), w')"
  shows "\<exists>h x. slice_to 12 h = Some x \<and> h = store_hash L (pq_template q) (pq_slots q)
    \<and> (line = unchanged_line (pq_uri q) x \<and> w_notif w' = w_notif w
      \<or> line = published_line (pq_uri q) x
        \<and> w_notif w' = snd (n_publish n (pq_uri q) h
            (publish_class L S (served (sv_store S) (w_store w) (pq_uri q)) (pq_template q)) (w_notif w)))"
proof -
  let ?g = "\<lparr>gq_uri = pq_uri q, gq_ref = ''''\<rparr>"
  obtain cur w1 where get: "GetPrompt L S ctx ?g w = (cur, w1)" by fastforce
  have w1: "w_store w1 = w_store w" "w_notif w1 = w_notif w"
    using get_frame(1) [of L S ctx ?g w] get_frame(2) [OF assms(3), of L ctx ?g w] get by simp_all
  obtain r w2 where pub: "PublishPrompt L S ctx q w1 = (r, w2)" by fastforce
  obtain h where r: "r = Inr h" and w2: "w' = w2"
    using assms(11) get pub by (cases r) (auto simp: publishPrompt_def server_client_def Let_def split: if_splits)
  let ?served = "served (sv_store S) (w_store w) (pq_uri q)"
  have before: "(case cur of Inr x \<Rightarrow> g_version_hash x | Inl _ \<Rightarrow> '''')
      = (case ?served of (p, None) \<Rightarrow> p_version_hash p | (p, Some e) \<Rightarrow> '''')"
  proof (cases cur)
    case (Inr x)
    have "current L (sv_store S) (w_store w) (pq_uri q) x"
      using l2_cache.get_is_current [OF assms(1,2,3,5) get [unfolded Inr]] by simp
    then show ?thesis using Inr by (auto simp: current_def resp_of_def)
  next
    case (Inl e)
    then show ?thesis using assms(10) get by (cases ?served) auto
  qed
  note ev = publish_success_event [OF assms(3,4,6,7,8) pub [unfolded r], unfolded w1]
  have eq: "h = (case cur of Inr x \<Rightarrow> g_version_hash x | Inl _ \<Rightarrow> '''')
      \<longleftrightarrow> (\<exists>p. ?served = (p, None) \<and> p_version_hash p = h)"
    unfolding before using ev(1) assms(9) by (cases ?served; cases "snd ?served") auto
  show ?thesis
    using assms(11) get pub r w2 ev eq
    by (cases "h = (case cur of Inr x \<Rightarrow> g_version_hash x | Inl _ \<Rightarrow> '''')")
       (auto simp: publishPrompt_def server_client_def Let_def split: if_splits)
qed

text \<open>
  A stale read makes \<open>priompt publish\<close> claim an event that was never sent: when the cache still
  answers another version than main serves, publishing the content main already serves prints
  \<open>subscribers notified\<close> although the server announced nothing.
\<close>

theorem stale_read_claims_an_event:
  assumes "reads_pure (sv_store S)" and "sv_notifier S = Some n" and "may_write L ctx (pq_uri q)"
    and "validate_prompt L (pq_uri q) (pq_template q) (pq_slots q) = None"
    and "branchOr L (pq_branch q) = default_branch L"
    and "served (sv_store S) (w_store w) (pq_uri q) = (p, None)"
    and "p_version_hash p = store_hash L (pq_template q) (pq_slots q)"
    and "fst (GetPrompt L S ctx \<lparr>gq_uri = pq_uri q, gq_ref = ''''\<rparr> w) = Inr cur"
    and "g_version_hash cur \<noteq> p_version_hash p"
    and "publishPrompt (server_client L S ctx) q w = (Some (Inr line), w')"
  shows "w_notif w' = w_notif w \<and> line = published_line (pq_uri q) (take 12 (p_version_hash p))"
proof -
  let ?g = "\<lparr>gq_uri = pq_uri q, gq_ref = ''''\<rparr>"
  obtain w1 where get: "GetPrompt L S ctx ?g w = (Inr cur, w1)" using assms(8) by (metis prod.collapse)
  have w1: "w_store w1 = w_store w" "w_notif w1 = w_notif w"
    using get_frame(1) [of L S ctx ?g w] get_frame(2) [OF assms(1), of L ctx ?g w] get by simp_all
  obtain r w2 where pub: "PublishPrompt L S ctx q w1 = (r, w2)" by fastforce
  obtain h where r: "r = Inr h" and w2: "w' = w2"
    using assms(10) get pub by (cases r) (auto simp: publishPrompt_def server_client_def Let_def split: if_splits)
  note ev = publish_success_event [OF assms(1-5) pub [unfolded r], unfolded w1]
  show ?thesis
    using assms(6,7,9,10) get pub r w2 ev
    by (auto simp: publishPrompt_def server_client_def Let_def slice_to_def split: if_splits)
qed

text \<open>A first publish of a prompt, read by nobody yet.\<close>

theorem publish_line_is_true_witness:
  "\<exists>line w'. publishPrompt (server_client sample_lib (sample_server (Some mem_cache)) acme_writer)
       (publish_of ''v1.0'' '''') (sample_world sample_cache) = (Some (Inr line), w')
     \<and> w_notif w' = [(acme_uri, sample_hash ''v1.0'' [], ''new'')]"
proof -
  let ?c = "server_client sample_lib (sample_server (Some mem_cache)) acme_writer"
  let ?w = "sample_world sample_cache"
  have hash: "sample_hash ''v1.0'' [] = ''version:v1.0|''" by (simp add: sample_hash_def)
  have run: "fst (publishPrompt ?c (publish_of ''v1.0'' '''') ?w)
      = Some (Inr (published_line acme_uri ''version:v1.0''))"
    by (simp add: publishPrompt_def server_client_def handler_eval sample_eval sample_hash_def slice_to_def)
  obtain w' where run: "publishPrompt ?c (publish_of ''v1.0'' '''') ?w
      = (Some (Inr (published_line acme_uri ''version:v1.0'')), w')"
    using run by (metis prod.collapse)
  have coh: "coherent sample_lib (sv_store (sample_server (Some mem_cache))) ttl_view ?w"
    by (simp add: coherent_def ttl_view_def sample_cache_def)
  have sv: "served sample_ops sample_empty acme_uri
      = (\<lparr>p_uri = '''', p_template = '''', p_slots = [], p_version_hash = ''''\<rparr>, Some not_found)"
    by (simp add: served_sample find_head_def sample_empty_def)
  have neq: "unchanged_line acme_uri x \<noteq> published_line acme_uri y" for x y
    by (simp add: unchanged_line_def published_line_def)
  have cls: "publish_class sample_lib (sample_server (Some mem_cache))
      (\<lparr>p_uri = '''', p_template = '''', p_slots = [], p_version_hash = ''''\<rparr>, Some not_found) ''v1.0'' = ''new''"
    by (simp add: publish_class_def not_found_def)
  have "\<exists>h x. slice_to 12 h = Some x \<and> h = store_hash sample_lib (pq_template (publish_of ''v1.0'' '''')) (pq_slots (publish_of ''v1.0'' ''''))
    \<and> (published_line acme_uri ''version:v1.0'' = unchanged_line (pq_uri (publish_of ''v1.0'' '''')) x \<and> w_notif w' = w_notif ?w
      \<or> published_line acme_uri ''version:v1.0'' = published_line (pq_uri (publish_of ''v1.0'' '''')) x
        \<and> w_notif w' = snd (n_publish rec_notifier (pq_uri (publish_of ''v1.0'' '''')) h
            (publish_class sample_lib (sample_server (Some mem_cache)) (served (sv_store (sample_server (Some mem_cache))) (w_store ?w)
               (pq_uri (publish_of ''v1.0'' ''''))) (pq_template (publish_of ''v1.0'' ''''))) (w_notif ?w)))"
    by (rule publish_line_is_true [OF mem.l2_cache_axioms _ _ _ coh _ _ _ _ _ run])
       (simp_all add: sample_pure branchOr_def hash sv)
  then show ?thesis using run neq hash sv cls by (auto simp: eq_commute [of "published_line _ _" "unchanged_line _ _"])
qed

text \<open>The cache holds \<open>v1\<close>, another node has published \<open>v2.0\<close> since.\<close>

definition stale_world :: "(sample_store, ttl_cache, (string \<times> string \<times> string) list) world" where
  "stale_world = cached_world\<lparr>w_store :=
     snd (sample_commit acme_uri ''main'' ''v2.0'' [] ''acme'' ''m'' (w_store cached_world))\<rparr>"

theorem stale_read_claims_an_event_witness:
  "\<exists>line w'. publishPrompt (server_client sample_lib (sample_server (Some mem_cache)) acme_writer)
       (publish_of ''v2.0'' '''') stale_world = (Some (Inr line), w')
     \<and> w_notif w' = w_notif stale_world \<and> line = published_line acme_uri ''version:v2.0''"
proof -
  let ?S = "sample_server (Some mem_cache)"
  have sv: "served sample_ops (w_store stale_world) acme_uri = (\<lparr>p_uri = acme_uri, p_template = ''v2.0'', p_slots = [],
      p_version_hash = sample_hash ''v2.0'' []\<rparr>, None)"
    by (simp add: stale_world_def served_sample sample_commit_def Let_def prompt_of_def)
  have "fst (ttl_get acme_uri (w_cache cached_world)) = Some v1_resp"
    by (simp add: cached_world_def v1_world_def read_v1_def v1_resp_def) (simp add: handler_eval sample_eval time_after_def time_add_def time_zero_def)
  then have get: "fst (GetPrompt sample_lib ?S acme_writer \<lparr>gq_uri = acme_uri, gq_ref = ''''\<rparr> stale_world) = Inr v1_resp"
    by (cases "ttl_get acme_uri (w_cache cached_world)") (simp add: GetPrompt_def Let_def stale_world_def)
  obtain w1 where g: "GetPrompt sample_lib ?S acme_writer \<lparr>gq_uri = acme_uri, gq_ref = ''''\<rparr> stale_world = (Inr v1_resp, w1)"
    using get by (metis prod.collapse)
  have w1: "w_store w1 = w_store stale_world"
    using get_frame(2) [of ?S sample_lib acme_writer "\<lparr>gq_uri = acme_uri, gq_ref = ''''\<rparr>" stale_world] g sample_pure by simp
  obtain r w2 where pub: "PublishPrompt sample_lib ?S acme_writer (publish_of ''v2.0'' '''') w1 = (r, w2)" by fastforce
  have "inv_ok (Some mem_cache) u c" for u c by (simp add: inv_ok_def ttl_invalidate_def)
  then have r: "r = Inr (sample_hash ''v2.0'' [])"
    using publish_main_same(4) [OF _ _ _ _ _ _ pub] sv sample_pure w1 by (simp add: branchOr_def cleared_or_def)
  have hash: "sample_hash ''v2.0'' [] = ''version:v2.0|''" by (simp add: sample_hash_def)
  have "publishPrompt (server_client sample_lib ?S acme_writer) (publish_of ''v2.0'' '''') stale_world
      = (Some (Inr (published_line acme_uri ''version:v2.0'')), w2)"
    using g pub r hash by (simp add: publishPrompt_def server_client_def v1_resp_def sample_hash_def slice_to_def)
  then obtain w' where run: "publishPrompt (server_client sample_lib ?S acme_writer) (publish_of ''v2.0'' '''') stale_world
      = (Some (Inr (published_line acme_uri ''version:v2.0'')), w')" by blast
  have "g_version_hash v1_resp \<noteq> sample_hash ''v2.0'' []" by (simp add: v1_resp_def sample_hash_def)
  then show ?thesis
    using stale_read_claims_an_event [OF _ _ _ _ _ _ _ _ _ run, of rec_notifier] run sv get sample_pure
    by (force simp: branchOr_def)
qed

end
