(* ===== verification/Cli_Backup.thy ===== *)
theory Cli_Backup
  imports Serve_Startup
begin

text \<open>
  \<open>priompt backup\<close> and \<open>priompt restore\<close>, \<open>cmd/priompt/backup.go\<close>: the records of a backup
  file in the order they are written, and the loop that reads them back. The storage engine and
  the encoding of a record as a line of JSON are parameters.
\<close>

section \<open>Records\<close>

text \<open>The methods of the store that the two commands call besides \<open>Open\<close> and \<open>Close\<close>.\<close>

record 'st archive =
  ar_dump :: "'st \<Rightarrow> (gerr + prompt list) \<times> 'st"
  ar_dump_commits :: "'st \<Rightarrow> (gerr + commit list) \<times> 'st"
  ar_dump_refs :: "'st \<Rightarrow> (gerr + ref list) \<times> 'st"
  ar_schema_version :: "'st \<Rightarrow> int"
  ar_count_commits :: "'st \<Rightarrow> (gerr + int) \<times> 'st"
  ar_put_commit :: "commit \<Rightarrow> 'st \<Rightarrow> gerr option \<times> 'st"
  ar_put_ref :: "ref \<Rightarrow> 'st \<Rightarrow> gerr option \<times> 'st"
  ar_put :: "prompt \<Rightarrow> 'st \<Rightarrow> gerr option \<times> 'st"

text \<open>The struct \<open>record\<close>; a nil pointer is \<open>None\<close>.\<close>

record backup_record =
  bk_kind :: string
  bk_version :: int
  bk_created_at :: string
  bk_schema_version :: int
  bk_prompt :: "prompt option"
  bk_commit :: "commit option"
  bk_ref :: "ref option"

definition backupVersion :: int where
  "backupVersion = 1"

definition empty_record :: "string \<Rightarrow> backup_record" where
  "empty_record k = \<lparr>bk_kind = k, bk_version = 0, bk_created_at = '''', bk_schema_version = 0,
                     bk_prompt = None, bk_commit = None, bk_ref = None\<rparr>"

section \<open>backup\<close>

text \<open>The records written, for the time stamp \<open>created\<close>.\<close>

definition backup_records ::
  "string \<Rightarrow> int \<Rightarrow> prompt list \<Rightarrow> commit list \<Rightarrow> ref list \<Rightarrow> backup_record list" where
  "backup_records created schema prompts commits refs =
     [(empty_record ''header'')\<lparr>bk_version := backupVersion, bk_created_at := created, bk_schema_version := schema\<rparr>]
     @ map (\<lambda>c. (empty_record ''commit'')\<lparr>bk_commit := Some c\<rparr>) commits
     @ map (\<lambda>r. (empty_record ''ref'')\<lparr>bk_ref := Some r\<rparr>) refs
     @ map (\<lambda>p. (empty_record ''prompt'')\<lparr>bk_prompt := Some p\<rparr>) prompts"

text \<open>The command: what it writes and the three counts it reports.\<close>

definition backup ::
  "'st archive \<Rightarrow> string \<Rightarrow> 'st \<Rightarrow> (fatal + backup_record list \<times> nat \<times> nat \<times> nat) \<times> 'st" where
  "backup A created s =
     (case ar_dump A s of
        (Inl e, s1) \<Rightarrow> (Inl (Fatal (err_text e) []), s1)
      | (Inr prompts, s1) \<Rightarrow>
          (case ar_dump_commits A s1 of
             (Inl e, s2) \<Rightarrow> (Inl (Fatal (err_text e) []), s2)
           | (Inr commits, s2) \<Rightarrow>
               (case ar_dump_refs A s2 of
                  (Inl e, s3) \<Rightarrow> (Inl (Fatal (err_text e) []), s3)
                | (Inr refs, s3) \<Rightarrow>
                    (Inr (backup_records created (ar_schema_version A s3) prompts commits refs,
                          length prompts, length commits, length refs), s3))))"

section \<open>restore\<close>

definition trunc :: "string \<Rightarrow> string" where
  "trunc s = (if length s \<le> 80 then s else take 80 s @ [CHR 0xE2, CHR 0x80, CHR 0xA6])"

text \<open>The two ways a line is unmarshalled: as a record, and as a bare prompt.\<close>

record json_codec =
  js_record :: "string \<Rightarrow> gerr + backup_record"
  js_prompt :: "string \<Rightarrow> gerr + prompt"

record counters =
  nP :: nat
  nC :: nat
  nR :: nat
  legacy :: nat

text \<open>A write whose error ends the process.\<close>

definition or_fatal :: "gerr option \<times> 'st \<Rightarrow> counters \<Rightarrow> (fatal + counters) \<times> 'st" where
  "or_fatal x n = (case x of (Some e, s) \<Rightarrow> (Inl (Fatal (err_text e) []), s) | (None, s) \<Rightarrow> (Inr n, s))"

definition restore_line ::
  "'st archive \<Rightarrow> json_codec \<Rightarrow> string \<Rightarrow> counters \<Rightarrow> 'st \<Rightarrow> (fatal + counters) \<times> 'st" where
  "restore_line A J raw n s =
     (case js_record J raw of
        Inl e \<Rightarrow> (Inl (Fatal (err_text e) []), s)
      | Inr rec \<Rightarrow>
          if bk_kind rec = ''header'' then
            (if bk_version rec > backupVersion
             then (Inl (Fatal ''backup format version %d is newer than this binary understands (%d)''
                    [nat_digits (nat (bk_version rec)), nat_digits (nat backupVersion)]), s)
             else (Inr n, s))
          else if bk_kind rec = ''commit'' then
            (case bk_commit rec of None \<Rightarrow> (Inr n, s)
             | Some c \<Rightarrow> or_fatal (ar_put_commit A c s) (n\<lparr>nC := nC n + 1\<rparr>))
          else if bk_kind rec = ''ref'' then
            (case bk_ref rec of None \<Rightarrow> (Inr n, s)
             | Some r \<Rightarrow> or_fatal (ar_put_ref A r s) (n\<lparr>nR := nR n + 1\<rparr>))
          else if bk_kind rec = ''prompt'' then
            (case bk_prompt rec of None \<Rightarrow> (Inr n, s)
             | Some p \<Rightarrow> or_fatal (ar_put A p s) (n\<lparr>nP := nP n + 1\<rparr>))
          else if bk_kind rec = '''' then
            (case js_prompt J raw of
               Inl e \<Rightarrow> (Inl (Fatal ''unrecognised line in backup file: %s'' [trunc raw]), s)
             | Inr p \<Rightarrow>
                 if p_uri p = '''' then (Inl (Fatal ''unrecognised line in backup file: %s'' [trunc raw]), s)
                 else or_fatal (ar_put A p s) (n\<lparr>nP := nP n + 1, legacy := legacy n + 1\<rparr>))
          else (Inl (Fatal ''unknown record kind %q in backup file'' [bk_kind rec]), s))"

text \<open>\<open>raws\<close> are the values \<open>Decode\<close> reads from the file, up to its end or its first error.\<close>

fun restore_loop ::
  "'st archive \<Rightarrow> json_codec \<Rightarrow> (gerr + string) list \<Rightarrow> counters \<Rightarrow> 'st \<Rightarrow> (fatal + counters) \<times> 'st" where
  "restore_loop A J [] n s = (Inr n, s)"
| "restore_loop A J (Inl e # raws) n s = (Inl (Fatal (err_text e) []), s)"
| "restore_loop A J (Inr raw # raws) n s =
     (case restore_line A J raw n s of
        (Inl f, s1) \<Rightarrow> (Inl f, s1)
      | (Inr n1, s1) \<Rightarrow> restore_loop A J raws n1 s1)"

definition restore ::
  "'st archive \<Rightarrow> json_codec \<Rightarrow> string \<Rightarrow> bool \<Rightarrow> (gerr + string) list \<Rightarrow> 'st \<Rightarrow> (fatal + counters) \<times> 'st" where
  "restore A J dbPath force raws s =
     (case ar_count_commits A s of
        (Inl e, s1) \<Rightarrow> (Inl (Fatal (err_text e) []), s1)
      | (Inr existing, s1) \<Rightarrow>
          if existing > 0 \<and> \<not> force
          then (Inl (Fatal (''refusing to restore: %s already holds %d commits.'' @ [LF]
                     @ ''Restore into an empty database, or pass -force to merge this backup into the existing history.'')
                  [dbPath, nat_digits (nat existing)]), s1)
          else restore_loop A J raws \<lparr>nP = 0, nC = 0, nR = 0, legacy = 0\<rparr> s1)"

section \<open>What the commands rely on\<close>

text \<open>
  The content of a store: its three tables, each with its primary key (\<open>README.md\<close>, the schema).
\<close>

record content =
  ct_commits :: "string \<Rightarrow> commit option"
  ct_refs :: "string \<times> string \<Rightarrow> string option"
  ct_prompts :: "string \<Rightarrow> prompt option"

definition empty_content :: content where
  "empty_content = \<lparr>ct_commits = Map.empty, ct_refs = Map.empty, ct_prompts = Map.empty\<rparr>"

definition add_commit :: "commit \<Rightarrow> content \<Rightarrow> content" where
  "add_commit c x = x\<lparr>ct_commits := (ct_commits x)(c_hash c \<mapsto> c)\<rparr>"

definition add_ref :: "ref \<Rightarrow> content \<Rightarrow> content" where
  "add_ref r x = x\<lparr>ct_refs := (ct_refs x)((r_uri r, r_branch r) \<mapsto> r_commit r)\<rparr>"

definition add_prompt :: "prompt \<Rightarrow> content \<Rightarrow> content" where
  "add_prompt p x = x\<lparr>ct_prompts := (ct_prompts x)(p_uri p \<mapsto> p)\<rparr>"

text \<open>
  The version hash of a row is recomputed on every write (\<open>README.md\<close>), so that a row is stored as it
  is given only if its hash is that of its text; and a commit only if its hash is not yet that of
  another commit.
\<close>

definition hashed :: "'em lib \<Rightarrow> prompt \<Rightarrow> bool" where
  "hashed L p \<longleftrightarrow> p_version_hash p = store_hash L (p_template p) (p_slots p)"

definition hashed_commit :: "'em lib \<Rightarrow> commit \<Rightarrow> bool" where
  "hashed_commit L c \<longleftrightarrow> c_version_hash c = store_hash L (c_template c) (c_slots c)"

definition commit_fits :: "'em lib \<Rightarrow> commit \<Rightarrow> content \<Rightarrow> bool" where
  "commit_fits L c x \<longleftrightarrow> hashed_commit L c \<and> (\<forall>d. ct_commits x (c_hash c) = Some d \<longrightarrow> d = c)"

definition sound :: "'em lib \<Rightarrow> content \<Rightarrow> bool" where
  "sound L x \<longleftrightarrow> (\<forall>h c. ct_commits x h = Some c \<longrightarrow> hashed_commit L c)
     \<and> (\<forall>u p. ct_prompts x u = Some p \<longrightarrow> hashed L p)"

text \<open>
  A dump lists each row once; counting and dumping change nothing. A put of a row that fits, if it
  reports no error, leaves the content with that row, and one that reports an error may have added it
  (the connection was lost after the write) or not. Of a put of any other row nothing is assumed.
\<close>

definition lists :: "content \<Rightarrow> prompt list \<Rightarrow> commit list \<Rightarrow> ref list \<Rightarrow> bool" where
  "lists x ps cs rs \<longleftrightarrow>
     map_of (map (\<lambda>c. (c_hash c, c)) cs) = ct_commits x \<and> distinct (map c_hash cs)
   \<and> map_of (map (\<lambda>r. ((r_uri r, r_branch r), r_commit r)) rs) = ct_refs x
   \<and> distinct (map (\<lambda>r. (r_uri r, r_branch r)) rs)
   \<and> map_of (map (\<lambda>p. (p_uri p, p)) ps) = ct_prompts x \<and> distinct (map p_uri ps)"

definition put_law ::
  "('st \<Rightarrow> content) \<Rightarrow> (content \<Rightarrow> bool) \<Rightarrow> (content \<Rightarrow> content) \<Rightarrow> ('st \<Rightarrow> gerr option \<times> 'st) \<Rightarrow> bool" where
  "put_law ct fits add put \<longleftrightarrow>
     (\<forall>s err s'. fits (ct s) \<longrightarrow> put s = (err, s') \<longrightarrow> ct s' = add (ct s) \<or> (err \<noteq> None \<and> ct s' = ct s))"

definition archive_laws :: "'em lib \<Rightarrow> 'st archive \<Rightarrow> ('st \<Rightarrow> content) \<Rightarrow> bool" where
  "archive_laws L A ct \<longleftrightarrow>
     (\<forall>s r s'. ar_dump A s = (r, s') \<longrightarrow> ct s' = ct s \<and> (\<forall>ps. r = Inr ps \<longrightarrow>
        map_of (map (\<lambda>p. (p_uri p, p)) ps) = ct_prompts (ct s) \<and> distinct (map p_uri ps)))
   \<and> (\<forall>s r s'. ar_dump_commits A s = (r, s') \<longrightarrow> ct s' = ct s \<and> (\<forall>cs. r = Inr cs \<longrightarrow>
        map_of (map (\<lambda>c. (c_hash c, c)) cs) = ct_commits (ct s) \<and> distinct (map c_hash cs)))
   \<and> (\<forall>s r s'. ar_dump_refs A s = (r, s') \<longrightarrow> ct s' = ct s \<and> (\<forall>rs. r = Inr rs \<longrightarrow>
        map_of (map (\<lambda>r. ((r_uri r, r_branch r), r_commit r)) rs) = ct_refs (ct s)
        \<and> distinct (map (\<lambda>r. (r_uri r, r_branch r)) rs)))
   \<and> (\<forall>s r s'. ar_count_commits A s = (r, s') \<longrightarrow> ct s' = ct s
        \<and> (\<forall>k. r = Inr k \<longrightarrow> (0 < k \<longleftrightarrow> ct_commits (ct s) \<noteq> Map.empty)))
   \<and> (\<forall>c. put_law ct (commit_fits L c) (add_commit c) (ar_put_commit A c))
   \<and> (\<forall>r. put_law ct (\<lambda>_. True) (add_ref r) (ar_put_ref A r))
   \<and> (\<forall>p. put_law ct (\<lambda>_. hashed L p) (add_prompt p) (ar_put A p))"

text \<open>A store that is up: nothing fails for reasons of its own, and it stays up.\<close>

definition stays_up :: "'em lib \<Rightarrow> 'st archive \<Rightarrow> ('st \<Rightarrow> content) \<Rightarrow> ('st \<Rightarrow> bool) \<Rightarrow> bool" where
  "stays_up L A ct up \<longleftrightarrow> (\<forall>s. up s \<longrightarrow>
     (\<exists>k s'. ar_count_commits A s = (Inr k, s') \<and> up s')
   \<and> (\<forall>c. commit_fits L c (ct s) \<longrightarrow> (\<exists>s'. ar_put_commit A c s = (None, s') \<and> up s'))
   \<and> (\<forall>r. \<exists>s'. ar_put_ref A r s = (None, s') \<and> up s')
   \<and> (\<forall>p. hashed L p \<longrightarrow> (\<exists>s'. ar_put A p s = (None, s') \<and> up s')))"

section \<open>Reading back what was written\<close>

lemma archive_lawsD:
  assumes "archive_laws L A ct"
  shows "ar_dump A s = (Inr ps, s') \<Longrightarrow>
      ct s' = ct s \<and> map_of (map (\<lambda>p. (p_uri p, p)) ps) = ct_prompts (ct s) \<and> distinct (map p_uri ps)"
    and "ar_dump_commits A s = (Inr cs, s') \<Longrightarrow>
      ct s' = ct s \<and> map_of (map (\<lambda>c. (c_hash c, c)) cs) = ct_commits (ct s) \<and> distinct (map c_hash cs)"
    and "ar_dump_refs A s = (Inr rs, s') \<Longrightarrow> ct s' = ct s
      \<and> map_of (map (\<lambda>r. ((r_uri r, r_branch r), r_commit r)) rs) = ct_refs (ct s)
      \<and> distinct (map (\<lambda>r. (r_uri r, r_branch r)) rs)"
    and "ar_count_commits A s = (x, s') \<Longrightarrow> ct s' = ct s"
    and "ar_count_commits A s = (Inr k, s') \<Longrightarrow> 0 < k \<longleftrightarrow> ct_commits (ct s) \<noteq> Map.empty"
    and "put_law ct (commit_fits L c) (add_commit c) (ar_put_commit A c)"
    and "put_law ct (\<lambda>_. True) (add_ref r) (ar_put_ref A r)"
    and "put_law ct (\<lambda>_. hashed L p) (add_prompt p) (ar_put A p)"
proof -
  note laws = assms [unfolded archive_laws_def]
  show "ar_dump A s = (Inr ps, s') \<Longrightarrow>
      ct s' = ct s \<and> map_of (map (\<lambda>p. (p_uri p, p)) ps) = ct_prompts (ct s) \<and> distinct (map p_uri ps)"
    using laws [THEN conjunct1] by blast
  note laws = laws [THEN conjunct2]
  show "ar_dump_commits A s = (Inr cs, s') \<Longrightarrow>
      ct s' = ct s \<and> map_of (map (\<lambda>c. (c_hash c, c)) cs) = ct_commits (ct s) \<and> distinct (map c_hash cs)"
    using laws [THEN conjunct1] by blast
  note laws = laws [THEN conjunct2]
  show "ar_dump_refs A s = (Inr rs, s') \<Longrightarrow> ct s' = ct s
      \<and> map_of (map (\<lambda>r. ((r_uri r, r_branch r), r_commit r)) rs) = ct_refs (ct s)
      \<and> distinct (map (\<lambda>r. (r_uri r, r_branch r)) rs)"
    using laws [THEN conjunct1] by blast
  note laws = laws [THEN conjunct2]
  show "ar_count_commits A s = (x, s') \<Longrightarrow> ct s' = ct s"
    "ar_count_commits A s = (Inr k, s') \<Longrightarrow> 0 < k \<longleftrightarrow> ct_commits (ct s) \<noteq> Map.empty"
    using laws [THEN conjunct1] by blast+
qed (use assms [unfolded archive_laws_def] in blast)+

lemma put_lawD:
  assumes "put_law ct fits add put" and "fits (ct s)" and "put s = (err, s')"
  shows "ct s' = add (ct s) \<or> err \<noteq> None \<and> ct s' = ct s"
  using assms unfolding put_law_def by blast

lemma backup_Inr:
  assumes "archive_laws L A ct" and "backup A created s = (Inr (recs, p, c, r), s1)"
  obtains ps cs rs where "recs = backup_records created (ar_schema_version A s1) ps cs rs"
    and "p = length ps" and "c = length cs" and "r = length rs" and "lists (ct s) ps cs rs"
proof -
  obtain ps cs rs s2 s3 where d: "ar_dump A s = (Inr ps, s2)" "ar_dump_commits A s2 = (Inr cs, s3)"
    "ar_dump_refs A s3 = (Inr rs, s1)"
    and out: "recs = backup_records created (ar_schema_version A s1) ps cs rs"
      "p = length ps" "c = length cs" "r = length rs"
    using assms(2) by (auto simp: backup_def split: prod.splits sum.splits)
  have "lists (ct s) ps cs rs"
    using archive_lawsD(1) [OF assms(1) d(1)] archive_lawsD(2) [OF assms(1) d(2)]
      archive_lawsD(3) [OF assms(1) d(3)] by (simp add: lists_def)
  with out show thesis by (rule that)
qed

text \<open>What one record of a backup adds to a content and to the counts.\<close>

definition add_record :: "backup_record \<Rightarrow> content \<Rightarrow> content" where
  "add_record x = (case bk_commit x of Some c \<Rightarrow> add_commit c | None \<Rightarrow>
     (case bk_ref x of Some r \<Rightarrow> add_ref r | None \<Rightarrow>
     (case bk_prompt x of Some p \<Rightarrow> add_prompt p | None \<Rightarrow> id)))"

definition count_record :: "backup_record \<Rightarrow> counters \<Rightarrow> counters" where
  "count_record x n = (case bk_commit x of Some c \<Rightarrow> n\<lparr>nC := nC n + 1\<rparr> | None \<Rightarrow>
     (case bk_ref x of Some r \<Rightarrow> n\<lparr>nR := nR n + 1\<rparr> | None \<Rightarrow>
     (case bk_prompt x of Some p \<Rightarrow> n\<lparr>nP := nP n + 1\<rparr> | None \<Rightarrow> n)))"

text \<open>A record of a backup of the content \<open>y\<close>: a header of the current format, or a row of \<open>y\<close>.\<close>

definition held :: "backup_record \<Rightarrow> content \<Rightarrow> bool" where
  "held x y \<longleftrightarrow>
     (\<exists>ts v. x = (empty_record ''header'')\<lparr>bk_version := backupVersion, bk_created_at := ts, bk_schema_version := v\<rparr>)
   \<or> (\<exists>c. x = (empty_record ''commit'')\<lparr>bk_commit := Some c\<rparr> \<and> ct_commits y (c_hash c) = Some c)
   \<or> (\<exists>r. x = (empty_record ''ref'')\<lparr>bk_ref := Some r\<rparr> \<and> ct_refs y (r_uri r, r_branch r) = Some (r_commit r))
   \<or> (\<exists>p. x = (empty_record ''prompt'')\<lparr>bk_prompt := Some p\<rparr> \<and> ct_prompts y (p_uri p) = Some p)"

lemma heldE [consumes 1, case_names header commit ref prompt]:
  assumes "held x y"
  obtains ts v where "x = (empty_record ''header'')\<lparr>bk_version := backupVersion, bk_created_at := ts, bk_schema_version := v\<rparr>"
  | c where "x = (empty_record ''commit'')\<lparr>bk_commit := Some c\<rparr>" and "ct_commits y (c_hash c) = Some c"
  | r where "x = (empty_record ''ref'')\<lparr>bk_ref := Some r\<rparr>" and "ct_refs y (r_uri r, r_branch r) = Some (r_commit r)"
  | p where "x = (empty_record ''prompt'')\<lparr>bk_prompt := Some p\<rparr>" and "ct_prompts y (p_uri p) = Some p"
  using assms unfolding held_def by blast

lemma backup_records_held:
  assumes "lists y ps cs rs" and "x \<in> set (backup_records created v ps cs rs)"
  shows "held x y"
proof -
  have "ct_commits y (c_hash c) = Some c" if "c \<in> set cs" for c
    using assms(1) that by (auto simp: lists_def comp_def intro!: map_of_is_SomeI dest!: sym [of "map_of _"])
  moreover have "ct_refs y (r_uri r, r_branch r) = Some (r_commit r)" if "r \<in> set rs" for r
    using assms(1) that by (auto simp: lists_def comp_def intro!: map_of_is_SomeI dest!: sym [of "map_of _"])
  moreover have "ct_prompts y (p_uri p) = Some p" if "p \<in> set ps" for p
    using assms(1) that by (auto simp: lists_def comp_def intro!: map_of_is_SomeI dest!: sym [of "map_of _"])
  ultimately show ?thesis
    using assms(2) unfolding held_def backup_records_def by auto
qed

text \<open>One content is part of another; adding to a part what the whole holds leaves a part.\<close>

definition part_of :: "content \<Rightarrow> content \<Rightarrow> bool" where
  "part_of x y \<longleftrightarrow> ct_commits x \<subseteq>\<^sub>m ct_commits y \<and> ct_refs x \<subseteq>\<^sub>m ct_refs y \<and> ct_prompts x \<subseteq>\<^sub>m ct_prompts y"

lemma part_of_empty [simp]: "part_of empty_content y" "ct_commits empty_content = Map.empty"
  by (simp_all add: part_of_def empty_content_def)

lemma part_of_add:
  assumes "part_of x y"
  shows "ct_commits y (c_hash c) = Some c \<Longrightarrow> part_of (add_commit c x) y"
    and "ct_refs y (r_uri r, r_branch r) = Some (r_commit r) \<Longrightarrow> part_of (add_ref r x) y"
    and "ct_prompts y (p_uri p) = Some p \<Longrightarrow> part_of (add_prompt p x) y"
  using assms by (auto simp: part_of_def add_commit_def add_ref_def add_prompt_def map_le_def)

lemma part_fits:
  assumes "part_of x y" and "sound L y"
  shows "ct_commits y (c_hash c) = Some c \<Longrightarrow> commit_fits L c x"
    and "ct_prompts y (p_uri p) = Some p \<Longrightarrow> hashed L p"
proof -
  show "hashed L p" if "ct_prompts y (p_uri p) = Some p"
    using that assms(2) unfolding sound_def by blast
  assume c: "ct_commits y (c_hash c) = Some c"
  have "d = c" if "ct_commits x (c_hash c) = Some d" for d
  proof -
    have "c_hash c \<in> dom (ct_commits x)" using that by blast
    then have "ct_commits x (c_hash c) = ct_commits y (c_hash c)"
      using assms(1) unfolding part_of_def map_le_def by blast
    then show ?thesis using that c by simp
  qed
  then show "commit_fits L c x" using c assms(2) unfolding commit_fits_def sound_def by blast
qed

text \<open>The errors the store's methods report.\<close>

definition reports :: "'st archive \<Rightarrow> gerr \<Rightarrow> bool" where
  "reports A e \<longleftrightarrow> (\<exists>s s'. ar_count_commits A s = (Inl e, s')) \<or> (\<exists>c s s'. ar_put_commit A c s = (Some e, s'))
     \<or> (\<exists>r s s'. ar_put_ref A r s = (Some e, s')) \<or> (\<exists>p s s'. ar_put A p s = (Some e, s'))"

text \<open>The line of a held record calls one method of the store, the one of its kind.\<close>

lemma restore_line_kinds:
  "js_record J raw = Inr ((empty_record ''commit'')\<lparr>bk_commit := Some c\<rparr>) \<Longrightarrow>
     restore_line A J raw n s = or_fatal (ar_put_commit A c s) (n\<lparr>nC := nC n + 1\<rparr>)"
  "js_record J raw = Inr ((empty_record ''ref'')\<lparr>bk_ref := Some r\<rparr>) \<Longrightarrow>
     restore_line A J raw n s = or_fatal (ar_put_ref A r s) (n\<lparr>nR := nR n + 1\<rparr>)"
  "js_record J raw = Inr ((empty_record ''prompt'')\<lparr>bk_prompt := Some p\<rparr>) \<Longrightarrow>
     restore_line A J raw n s = or_fatal (ar_put A p s) (n\<lparr>nP := nP n + 1\<rparr>)"
  "js_record J raw = Inr ((empty_record ''header'')\<lparr>bk_version := backupVersion, bk_created_at := ts,
       bk_schema_version := v\<rparr>) \<Longrightarrow> restore_line A J raw n s = (Inr n, s)"
  by (simp_all add: restore_line_def empty_record_def)

lemma record_effects:
  "add_record ((empty_record ''commit'')\<lparr>bk_commit := Some c\<rparr>) = add_commit c"
  "add_record ((empty_record ''ref'')\<lparr>bk_ref := Some r\<rparr>) = add_ref r"
  "add_record ((empty_record ''prompt'')\<lparr>bk_prompt := Some p\<rparr>) = add_prompt p"
  "add_record ((empty_record ''header'')\<lparr>bk_version := b, bk_created_at := ts, bk_schema_version := v\<rparr>) = id"
  "count_record ((empty_record ''commit'')\<lparr>bk_commit := Some c\<rparr>) = (\<lambda>n. n\<lparr>nC := nC n + 1\<rparr>)"
  "count_record ((empty_record ''ref'')\<lparr>bk_ref := Some r\<rparr>) = (\<lambda>n. n\<lparr>nR := nR n + 1\<rparr>)"
  "count_record ((empty_record ''prompt'')\<lparr>bk_prompt := Some p\<rparr>) = (\<lambda>n. n\<lparr>nP := nP n + 1\<rparr>)"
  "count_record ((empty_record ''header'')\<lparr>bk_version := b, bk_created_at := ts, bk_schema_version := v\<rparr>) = id"
  by (simp_all add: add_record_def count_record_def empty_record_def fun_eq_iff)

text \<open>A step of a restore: what it adds is part of the whole, and it stops only at an error of the store.\<close>

definition step_ok ::
  "'st archive \<Rightarrow> ('st \<Rightarrow> content) \<Rightarrow> content \<Rightarrow> (content \<Rightarrow> content) \<Rightarrow> (counters \<Rightarrow> counters) \<Rightarrow> counters \<Rightarrow> 'st
   \<Rightarrow> (fatal + counters) \<times> 'st \<Rightarrow> bool" where
  "step_ok A ct y add count n s out \<longleftrightarrow> part_of (ct (snd out)) y \<and> (case fst out of
     Inr n' \<Rightarrow> n' = count n \<and> ct (snd out) = add (ct s)
   | Inl f \<Rightarrow> \<exists>e. f = Fatal (err_text e) [] \<and> reports A e)"

lemma step_put:
  assumes "put_law ct fits add put" and "fits (ct s)" and "part_of (ct s) y" and "part_of (add (ct s)) y"
    and "\<And>e s'. put s = (Some e, s') \<Longrightarrow> reports A e"
  shows "step_ok A ct y add count n s (or_fatal (put s) (count n))"
proof (cases "put s")
  case (Pair err s')
  from put_lawD [OF assms(1,2) Pair] have "ct s' = add (ct s) \<or> err \<noteq> None \<and> ct s' = ct s" .
  then show ?thesis
    using assms(3-5) Pair by (cases err) (auto simp: step_ok_def or_fatal_def)
qed

lemma restore_line_step:
  assumes B: "archive_laws L B ct" and "js_record J raw = Inr x" and "held x y" and "sound L y" and part: "part_of (ct s) y"
  shows "step_ok B ct y (add_record x) (count_record x) n s (restore_line B J raw n s)"
  using assms(3)
proof (cases rule: heldE)
  case (header ts v)
  then show ?thesis using assms(2) part by (simp add: restore_line_kinds record_effects step_ok_def)
next
  case (commit c)
  show ?thesis
    unfolding restore_line_kinds(1) [OF assms(2) [unfolded commit(1)]] commit(1) record_effects
    using part_fits(1) [OF part assms(4) commit(2)] part_of_add(1) [OF part commit(2)] part
    by (intro step_put [OF archive_lawsD(6) [OF B]]) (auto simp: reports_def)
next
  case (ref r)
  show ?thesis
    unfolding restore_line_kinds(2) [OF assms(2) [unfolded ref(1)]] ref(1) record_effects
    using part_of_add(2) [OF part ref(2)] part
    by (intro step_put [OF archive_lawsD(7) [OF B]]) (auto simp: reports_def)
next
  case (prompt p)
  show ?thesis
    unfolding restore_line_kinds(3) [OF assms(2) [unfolded prompt(1)]] prompt(1) record_effects
    using part_fits(2) [OF part assms(4) prompt(2)] part_of_add(3) [OF part prompt(2)] part
    by (intro step_put [OF archive_lawsD(8) [OF B]]) (auto simp: reports_def)
qed

lemma step_ok_after:
  assumes "step_ok A ct y add count n1 s1 out" and "n1 = f n" and "ct s1 = g (ct s)"
  shows "step_ok A ct y (add \<circ> g) (count \<circ> f) n s out"
  using assms by (simp add: step_ok_def split: sum.splits)

lemma restore_loop_step:
  assumes B: "archive_laws L B ct" and "\<forall>x \<in> set xs. js_record J (enc x) = Inr x \<and> held x y" and "sound L y"
    and "part_of (ct s) y"
  shows "step_ok B ct y (fold add_record xs) (fold count_record xs) n s
    (restore_loop B J (map (\<lambda>x. Inr (enc x)) xs) n s)"
  using assms(2,4)
proof (induction xs arbitrary: n s)
  case Nil
  then show ?case by (simp add: step_ok_def)
next
  case (Cons x xs)
  have x: "js_record J (enc x) = Inr x" "held x y" using Cons.prems(1) by simp_all
  note line = restore_line_step [OF B x assms(3) Cons.prems(2), of n]
  obtain r s1 where out: "restore_line B J (enc x) n s = (r, s1)" by fastforce
  show ?case
  proof (cases r)
    case (Inl f)
    then show ?thesis using line out by (simp add: step_ok_def)
  next
    case (Inr n1)
    have part: "part_of (ct s1) y" and s1: "n1 = count_record x n" "ct s1 = add_record x (ct s)"
      using line unfolding out Inr step_ok_def by auto
    have "step_ok B ct y (fold add_record xs) (fold count_record xs) n1 s1 (restore_loop B J (map (\<lambda>x. Inr (enc x)) xs) n1 s1)"
      using Cons.IH [OF _ part] Cons.prems(1) by simp
    from step_ok_after [where f = "count_record x" and g = "add_record x", OF this s1] show ?thesis by (simp add: out Inr comp_def)
  qed
qed

text \<open>Over a store that is up, no step stops.\<close>

lemma restore_line_up:
  assumes "stays_up L B ct up" and "up s" and "js_record J raw = Inr x" and "held x y" and "sound L y" and "part_of (ct s) y"
  shows "\<exists>n' s'. restore_line B J raw n s = (Inr n', s') \<and> up s'"
proof -
  have up: "\<forall>c. commit_fits L c (ct s) \<longrightarrow> (\<exists>s'. ar_put_commit B c s = (None, s') \<and> up s')"
    "\<forall>r. \<exists>s'. ar_put_ref B r s = (None, s') \<and> up s'" "\<forall>p. hashed L p \<longrightarrow> (\<exists>s'. ar_put B p s = (None, s') \<and> up s')"
    using assms(1,2) unfolding stays_up_def by blast+
  show ?thesis
    using assms(4)
  proof (cases rule: heldE)
    case (header ts v)
    then show ?thesis using assms(2,3) by (simp add: restore_line_kinds)
  next
    case (commit c)
    then show ?thesis
      using up(1) part_fits(1) [OF assms(6,5) commit(2)] assms(3) by (auto simp: restore_line_kinds or_fatal_def)
  next
    case (ref r)
    obtain s' where "ar_put_ref B r s = (None, s')" "up s'" using up(2) by blast
    then show ?thesis using ref assms(3) by (simp add: restore_line_kinds or_fatal_def)
  next
    case (prompt p)
    then show ?thesis
      using up(3) part_fits(2) [OF assms(6,5) prompt(2)] assms(3) by (auto simp: restore_line_kinds or_fatal_def)
  qed
qed

lemma restore_loop_up:
  assumes B: "archive_laws L B ct" and "stays_up L B ct up" and "up s"
    and "\<forall>x \<in> set xs. js_record J (enc x) = Inr x \<and> held x y" and "sound L y" and "part_of (ct s) y"
  shows "\<exists>n' s'. restore_loop B J (map (\<lambda>x. Inr (enc x)) xs) n s = (Inr n', s')"
  using assms(3,4,6)
proof (induction xs arbitrary: n s)
  case (Cons x xs)
  have x: "js_record J (enc x) = Inr x" "held x y" using Cons.prems(2) by simp_all
  obtain n1 s1 where out: "restore_line B J (enc x) n s = (Inr n1, s1)" "up s1"
    using restore_line_up [OF assms(2) Cons.prems(1) x assms(5) Cons.prems(3)] by blast
  have "part_of (ct s1) y"
    using restore_line_step [OF B x assms(5) Cons.prems(3), of n] unfolding out step_ok_def by auto
  then show ?case using Cons.IH [OF out(2)] Cons.prems(2) out by simp
qed simp

text \<open>All records of a content, added to a part of it, give the content.\<close>

lemma fold_map_upd:
  "distinct (map k xs) \<Longrightarrow> fold (\<lambda>x g. g(k x \<mapsto> v x)) xs g = g ++ map_of (map (\<lambda>x. (k x, v x)) xs)"
proof (induction xs arbitrary: g)
  case (Cons x xs)
  then have "map_of (map (\<lambda>x. (k x, v x)) xs) (k x) = None"
    by (auto simp: map_of_eq_None_iff)
  then show ?case
    using Cons by (auto simp: fun_eq_iff map_add_def split: option.split)
qed simp

lemma fold_add:
  "fold add_commit cs x = x\<lparr>ct_commits := fold (\<lambda>c g. g(c_hash c \<mapsto> c)) cs (ct_commits x)\<rparr>"
  "fold add_ref rs x = x\<lparr>ct_refs := fold (\<lambda>r g. g((r_uri r, r_branch r) \<mapsto> r_commit r)) rs (ct_refs x)\<rparr>"
  "fold add_prompt ps x = x\<lparr>ct_prompts := fold (\<lambda>p g. g(p_uri p \<mapsto> p)) ps (ct_prompts x)\<rparr>"
proof -
  show "fold add_commit cs x = x\<lparr>ct_commits := fold (\<lambda>c g. g(c_hash c \<mapsto> c)) cs (ct_commits x)\<rparr>"
    by (induction cs arbitrary: x) (simp_all add: add_commit_def)
  show "fold add_ref rs x = x\<lparr>ct_refs := fold (\<lambda>r g. g((r_uri r, r_branch r) \<mapsto> r_commit r)) rs (ct_refs x)\<rparr>"
    by (induction rs arbitrary: x) (simp_all add: add_ref_def)
  show "fold add_prompt ps x = x\<lparr>ct_prompts := fold (\<lambda>p g. g(p_uri p \<mapsto> p)) ps (ct_prompts x)\<rparr>"
    by (induction ps arbitrary: x) (simp_all add: add_prompt_def)
qed

lemma fold_counts:
  "fold (\<lambda>_ n. n\<lparr>nC := Suc (nC n)\<rparr>) xs n = n\<lparr>nC := nC n + length xs\<rparr>"
  "fold (\<lambda>_ n. n\<lparr>nR := Suc (nR n)\<rparr>) ys n = n\<lparr>nR := nR n + length ys\<rparr>"
  "fold (\<lambda>_ n. n\<lparr>nP := Suc (nP n)\<rparr>) zs n = n\<lparr>nP := nP n + length zs\<rparr>"
proof -
  show "fold (\<lambda>_ n. n\<lparr>nC := Suc (nC n)\<rparr>) xs n = n\<lparr>nC := nC n + length xs\<rparr>"
    by (induction xs arbitrary: n) simp_all
  show "fold (\<lambda>_ n. n\<lparr>nR := Suc (nR n)\<rparr>) ys n = n\<lparr>nR := nR n + length ys\<rparr>"
    by (induction ys arbitrary: n) simp_all
  show "fold (\<lambda>_ n. n\<lparr>nP := Suc (nP n)\<rparr>) zs n = n\<lparr>nP := nP n + length zs\<rparr>"
    by (induction zs arbitrary: n) simp_all
qed

lemma fold_records:
  "fold add_record (backup_records created v ps cs rs) x = fold add_prompt ps (fold add_ref rs (fold add_commit cs x))"
  "fold count_record (backup_records created v ps cs rs) \<lparr>nP = 0, nC = 0, nR = 0, legacy = 0\<rparr>
     = \<lparr>nP = length ps, nC = length cs, nR = length rs, legacy = 0\<rparr>"
proof -
  show "fold add_record (backup_records created v ps cs rs) x = fold add_prompt ps (fold add_ref rs (fold add_commit cs x))"
    by (simp add: backup_records_def fold_map comp_def record_effects)
  show "fold count_record (backup_records created v ps cs rs) \<lparr>nP = 0, nC = 0, nR = 0, legacy = 0\<rparr>
     = \<lparr>nP = length ps, nC = length cs, nR = length rs, legacy = 0\<rparr>"
    by (simp add: backup_records_def fold_map comp_def record_effects fold_counts)
qed

lemma map_add_part: "g \<subseteq>\<^sub>m h \<Longrightarrow> g ++ h = h"
  by (auto simp: fun_eq_iff map_add_def map_le_def dom_def split: option.splits)

lemma fold_whole:
  assumes "lists y ps cs rs" and "part_of x y"
  shows "fold add_prompt ps (fold add_ref rs (fold add_commit cs x)) = y"
  using assms by (simp add: lists_def part_of_def fold_add fold_map_upd map_add_part)

text \<open>A restore of all records of a content over a part of it completes it, or stops at an error of the store.\<close>

lemma restore_of_part:
  assumes B: "archive_laws L B ct" and "\<forall>x \<in> set recs. js_record J (enc x) = Inr x"
    and recs: "recs = backup_records created v ps cs rs" and y: "lists y ps cs rs" "sound L y"
    and "part_of (ct t) y" and "force \<or> ct_commits (ct t) = Map.empty"
  shows "case restore B J db force (map (\<lambda>x. Inr (enc x)) recs) t of
           (Inr n, t') \<Rightarrow> ct t' = y \<and> n = \<lparr>nP = length ps, nC = length cs, nR = length rs, legacy = 0\<rparr>
         | (Inl f, t') \<Rightarrow> part_of (ct t') y \<and> (\<exists>e. f = Fatal (err_text e) [] \<and> reports B e)"
    and "stays_up L B ct up \<Longrightarrow> up t \<Longrightarrow> \<not> isl (fst (restore B J db force (map (\<lambda>x. Inr (enc x)) recs) t))"
proof -
  have records: "\<forall>x \<in> set recs. js_record J (enc x) = Inr x \<and> held x y"
    using assms(2) backup_records_held [OF y(1)] recs by blast
  obtain k t1 where k: "ar_count_commits B t = (k, t1)" by fastforce
  have t1: "ct t1 = ct t" by (rule archive_lawsD(4) [OF B k])
  have go: "restore B J db force raws t = restore_loop B J raws \<lparr>nP = 0, nC = 0, nR = 0, legacy = 0\<rparr> t1"
    if "k = Inr i" for raws i
  proof -
    have "\<not> (0 < i \<and> \<not> force)" using archive_lawsD(5) [OF B, of t i t1] k that assms(7) by auto
    then show ?thesis using k that by (cases "0 < i") (simp_all add: restore_def)
  qed
  note loop = restore_loop_step [OF B records y(2), of t1 "\<lparr>nP = 0, nC = 0, nR = 0, legacy = 0\<rparr>"]
  show "case restore B J db force (map (\<lambda>x. Inr (enc x)) recs) t of
           (Inr n, t') \<Rightarrow> ct t' = y \<and> n = \<lparr>nP = length ps, nC = length cs, nR = length rs, legacy = 0\<rparr>
         | (Inl f, t') \<Rightarrow> part_of (ct t') y \<and> (\<exists>e. f = Fatal (err_text e) [] \<and> reports B e)"
  proof (cases k)
    case (Inl e)
    then show ?thesis using k t1 assms(6) by (auto simp: restore_def reports_def)
  next
    case (Inr i)
    show ?thesis
      using loop t1 assms(6) unfolding go [OF Inr]
      by (auto simp: step_ok_def recs fold_records fold_whole [OF y(1)] split: prod.splits sum.splits)
  qed
  show "\<not> isl (fst (restore B J db force (map (\<lambda>x. Inr (enc x)) recs) t))" if up: "stays_up L B ct up" "up t"
  proof -
    obtain i where i: "k = Inr i" "up t1" using up k unfolding stays_up_def by fastforce
    obtain n' s' where "restore_loop B J (map (\<lambda>x. Inr (enc x)) recs) \<lparr>nP = 0, nC = 0, nR = 0, legacy = 0\<rparr> t1 = (Inr n', s')"
      using restore_loop_up [OF B up(1) i(2) records y(2)] t1 assms(6) by metis
    then show ?thesis by (simp add: go [OF i(1)])
  qed
qed

section \<open>Properties\<close>

text \<open>
  C8. A backup gives everything back. Restoring what \<open>backup\<close> wrote of a store whose rows carry the
  version hash of their text, in a file whose records read back as they were written, into a store
  without content leaves that store with exactly the commits, branches and served prompts of the
  store that was backed up, and reports the counts that \<open>backup\<close> reported. It always does so if the
  target store is up; otherwise it may stop short at an error that the target itself reports, with
  that error's text, and then nothing is in the target that was not in the source.
\<close>

theorem backup_restore_roundtrip:
  assumes "archive_laws L A ct" and "archive_laws L B ct'" and "\<forall>x \<in> set recs. js_record J (enc x) = Inr x"
    and "backup A created s = (Inr (recs, p, c, r), s1)" and "sound L (ct s)" and "ct' t = empty_content"
  shows "case restore B J db force (map (\<lambda>x. Inr (enc x)) recs) t of
           (Inr n, t') \<Rightarrow> ct' t' = ct s \<and> n = \<lparr>nP = p, nC = c, nR = r, legacy = 0\<rparr>
         | (Inl f, t') \<Rightarrow> part_of (ct' t') (ct s) \<and> (\<exists>e. f = Fatal (err_text e) [] \<and> reports B e)
             \<and> \<not> (stays_up L B ct' up \<and> up t)"
proof -
  obtain ps cs rs where d: "recs = backup_records created (ar_schema_version A s1) ps cs rs"
    "p = length ps" "c = length cs" "r = length rs" "lists (ct s) ps cs rs"
    using backup_Inr [OF assms(1,4)] .
  have "part_of (ct' t) (ct s)" and empty: "force \<or> ct_commits (ct' t) = Map.empty" by (simp_all add: assms(6))
  from restore_of_part(1) [OF assms(2,3) d(1,5) assms(5) this, where db = db]
    restore_of_part(2) [OF assms(2,3) d(1,5) assms(5) this, where db = db and up = up] show ?thesis
    by (auto simp: d(2-4) isl_def split: prod.splits sum.splits)
qed


text \<open>
  History is not merged by accident: without \<open>-force\<close>, a restore into a store that holds any
  commit ends with an error and leaves the store's content as it was, whatever the file holds; and
  so does, with or without \<open>-force\<close>, a restore of a file whose header names a newer format.
\<close>

theorem restore_refuses_untouched:
  assumes "archive_laws L B ct"
    and "(\<not> force \<and> ct_commits (ct t) \<noteq> Map.empty)
       \<or> (raws = Inr raw # rest \<and> js_record J raw = Inr x \<and> bk_kind x = ''header'' \<and> backupVersion < bk_version x)"
  shows "\<exists>f t'. restore B J db force raws t = (Inl f, t') \<and> ct t' = ct t"
proof (cases "ar_count_commits B t")
  case (Pair k t1)
  note t1 = archive_lawsD(4) [OF assms(1) Pair]
  show ?thesis
  proof (cases k)
    case (Inl err)
    then show ?thesis using Pair t1 by (simp add: restore_def)
  next
    case (Inr k)
    then show ?thesis
      using Pair t1 archive_lawsD(5) [OF assms(1), of t k t1] assms(2)
      by (auto simp: restore_def restore_line_def)
  qed
qed

section \<open>Witnesses\<close>

text \<open>
  A store that holds its rows in three lists, as the documented schema does: a commit whose hash is
  taken is not inserted, the version hash is recomputed on every write. When its connection is down
  it fails one write and is up again.
\<close>

record rows =
  rw_commits :: "commit list"
  rw_refs :: "ref list"
  rw_prompts :: "prompt list"
  rw_down :: bool

definition rows_content :: "rows \<Rightarrow> content" where
  "rows_content s = \<lparr>ct_commits = map_of (map (\<lambda>c. (c_hash c, c)) (rw_commits s)),
     ct_refs = map_of (map (\<lambda>r. ((r_uri r, r_branch r), r_commit r)) (rw_refs s)),
     ct_prompts = map_of (map (\<lambda>p. (p_uri p, p)) (rw_prompts s))\<rparr>"

definition one_per :: "('a \<Rightarrow> 'k) \<Rightarrow> 'a list \<Rightarrow> 'a list" where
  "one_per k xs = foldr (\<lambda>x ys. x # filter (\<lambda>y. k y \<noteq> k x) ys) xs []"

definition row_archive :: "rows archive" where
  "row_archive = \<lparr>
     ar_dump = \<lambda>s. (Inr (one_per p_uri (rw_prompts s)), s),
     ar_dump_commits = \<lambda>s. (Inr (one_per c_hash (rw_commits s)), s),
     ar_dump_refs = \<lambda>s. (Inr (one_per (\<lambda>r. (r_uri r, r_branch r)) (rw_refs s)), s),
     ar_schema_version = \<lambda>_. 3,
     ar_count_commits = \<lambda>s. (Inr (int (length (rw_commits s))), s),
     ar_put_commit = \<lambda>c s. (None, if c_hash c \<in> c_hash ` set (rw_commits s) then s
        else s\<lparr>rw_commits := c\<lparr>c_version_hash := sample_hash (c_template c) (c_slots c)\<rparr> # rw_commits s\<rparr>),
     ar_put_ref = \<lambda>r s. if rw_down s then (Some (Gerr [] ''connection reset''), s\<lparr>rw_down := False\<rparr>)
                        else (None, s\<lparr>rw_refs := r # rw_refs s\<rparr>),
     ar_put = \<lambda>p s. (None, s\<lparr>rw_prompts :=
        p\<lparr>p_version_hash := sample_hash (p_template p) (p_slots p)\<rparr> # rw_prompts s\<rparr>)\<rparr>"

lemma one_per_distinct: "distinct (map k (one_per k xs))"
  by (induction xs) (auto simp: one_per_def intro: distinct_map_filter)

lemma one_per_map_of: "map_of (map (\<lambda>x. (k x, v x)) (one_per k xs)) = map_of (map (\<lambda>x. (k x, v x)) xs)"
proof (induction xs)
  case (Cons x xs)
  have "map_of (map (\<lambda>x. (k x, v x)) (filter (\<lambda>y. k y \<noteq> k x) ys)) a
      = (if a = k x then None else map_of (map (\<lambda>x. (k x, v x)) ys) a)" for ys a
    by (induction ys) auto
  then show ?case
    using Cons by (auto simp: one_per_def fun_eq_iff)
qed (simp add: one_per_def)

lemma row_put_commit:
  "put_law rows_content (commit_fits sample_lib c) (add_commit c) (ar_put_commit row_archive c)"
proof -
  have "rows_content (snd (ar_put_commit row_archive c s)) = add_commit c (rows_content s)"
    if fits: "commit_fits sample_lib c (rows_content s)" for s
  proof (cases "c_hash c \<in> c_hash ` set (rw_commits s)")
    case True
    then have "map_of (map (\<lambda>c. (c_hash c, c)) (rw_commits s)) (c_hash c) \<noteq> None"
      by (simp add: map_of_eq_None_iff image_image)
    then have "map_of (map (\<lambda>c. (c_hash c, c)) (rw_commits s)) (c_hash c) = Some c"
      using fits by (auto simp: commit_fits_def rows_content_def)
    then show ?thesis
      using True by (simp add: row_archive_def rows_content_def add_commit_def map_upd_triv)
  next
    case False
    have "c\<lparr>c_version_hash := sample_hash (c_template c) (c_slots c)\<rparr> = c"
      using fits by (simp add: commit_fits_def hashed_commit_def)
    then show ?thesis using False by (simp add: row_archive_def rows_content_def add_commit_def)
  qed
  then show ?thesis unfolding put_law_def by (metis snd_conv)
qed

lemma row_archive_laws: "archive_laws sample_lib row_archive rows_content"
  unfolding archive_laws_def
proof (intro conjI allI)
  show "put_law rows_content (commit_fits sample_lib c) (add_commit c) (ar_put_commit row_archive c)" for c
    by (rule row_put_commit)
  show "put_law rows_content (\<lambda>_. True) (add_ref r) (ar_put_ref row_archive r)" for r
    by (auto simp: put_law_def row_archive_def rows_content_def add_ref_def split: if_splits)
  show "put_law rows_content (\<lambda>_. hashed sample_lib p) (add_prompt p) (ar_put row_archive p)" for p
    by (auto simp: put_law_def row_archive_def rows_content_def add_prompt_def hashed_def)
qed (auto simp: row_archive_def rows_content_def one_per_map_of one_per_distinct)

lemma row_archive_up: "stays_up sample_lib row_archive rows_content (\<lambda>s. \<not> rw_down s)"
  by (simp add: stays_up_def row_archive_def)

definition kept_commit :: commit where
  "kept_commit = \<lparr>c_hash = ''c1'', c_uri = ''prompt://acme/greet'', c_template = ''Hi'', c_slots = [],
     c_version_hash = sample_hash ''Hi'' [], c_parent = '''', c_parent2 = '''', c_author = ''ann'', c_message = ''first'',
     c_created_at = \<lparr>t_ns = 0, t_off = 0\<rparr>\<rparr>"

definition kept_rows :: rows where
  "kept_rows = \<lparr>rw_commits = [kept_commit],
     rw_refs = [\<lparr>r_uri = ''prompt://acme/greet'', r_branch = ''main'', r_commit = ''c1''\<rparr>],
     rw_prompts = [\<lparr>p_uri = ''prompt://acme/greet'', p_template = ''Hi'', p_slots = [], p_version_hash = sample_hash ''Hi'' []\<rparr>],
     rw_down = False\<rparr>"

definition no_rows :: "bool \<Rightarrow> rows" where
  "no_rows down = \<lparr>rw_commits = [], rw_refs = [], rw_prompts = [], rw_down = down\<rparr>"

text \<open>The file's lines, named by the kind of their records, and the parser that knows them.\<close>

definition kept_file :: "backup_record list" where
  "kept_file = backup_records ''2026-01-01T00:00:00Z'' 3 (rw_prompts kept_rows) (rw_commits kept_rows) (rw_refs kept_rows)"

definition kept_codec :: json_codec where
  "kept_codec = \<lparr>js_record = \<lambda>raw. (case find (\<lambda>x. bk_kind x = raw) kept_file of
       Some x \<Rightarrow> Inr x | None \<Rightarrow> Inl (Gerr [] ''invalid character'')),
     js_prompt = \<lambda>_. Inl (Gerr [] ''invalid character'')\<rparr>"

lemmas kept_defs = kept_file_def kept_codec_def kept_rows_def backup_records_def empty_record_def backupVersion_def

lemma kept_codec_reads: "\<forall>x \<in> set kept_file. js_record kept_codec (bk_kind x) = Inr x"
  by (simp add: kept_defs)

lemma kept_backup:
  "backup row_archive ''2026-01-01T00:00:00Z'' kept_rows = (Inr (kept_file, 1, 1, 1), kept_rows)"
  by (simp add: backup_def row_archive_def one_per_def kept_file_def kept_rows_def)

lemma kept_sound: "sound sample_lib (rows_content kept_rows)"
  by (simp add: sound_def rows_content_def kept_rows_def kept_commit_def hashed_def hashed_commit_def)

lemma no_rows_content: "rows_content (no_rows down) = empty_content"
  by (simp add: rows_content_def no_rows_def empty_content_def)

lemmas kept_restores = kept_defs restore_def row_archive_def no_rows_def restore_line_def or_fatal_def

theorem backup_restore_roundtrip_witness:
  "\<exists>t'. restore row_archive kept_codec ''priompt.db'' False (map (\<lambda>x. Inr (bk_kind x)) kept_file) (no_rows False)
      = (Inr \<lparr>nP = 1, nC = 1, nR = 1, legacy = 0\<rparr>, t') \<and> rows_content t' = rows_content kept_rows"
  using backup_restore_roundtrip [OF row_archive_laws row_archive_laws kept_codec_reads kept_backup kept_sound
      no_rows_content [of False], where db = "''priompt.db''" and force = False and up = "\<lambda>s. \<not> rw_down s"] row_archive_up
  by (auto simp: no_rows_def split: prod.splits sum.splits)


text \<open>
  A store with one commit, and a file written by a later version, read without and with \<open>-force\<close>.
\<close>

definition later_codec :: json_codec where
  "later_codec = \<lparr>js_record = \<lambda>_. Inr ((empty_record ''header'')\<lparr>bk_version := 2\<rparr>),
     js_prompt = \<lambda>_. Inl (Gerr [] ''invalid character'')\<rparr>"

lemma restore_refuses_untouched_witness:
  "(\<exists>f t'. restore row_archive kept_codec ''priompt.db'' False (map (\<lambda>x. Inr (bk_kind x)) kept_file) kept_rows = (Inl f, t')
      \<and> rows_content t' = rows_content kept_rows)
   \<and> (\<exists>f t'. restore row_archive later_codec ''priompt.db'' True [Inr ''header''] kept_rows = (Inl f, t')
      \<and> rows_content t' = rows_content kept_rows)"
  using restore_refuses_untouched [OF row_archive_laws, of False kept_rows "map (\<lambda>x. Inr (bk_kind x)) kept_file"]
    restore_refuses_untouched [OF row_archive_laws, of True kept_rows "[Inr ''header'']" "''header''" "[]" later_codec
      "(empty_record ''header'')\<lparr>bk_version := 2\<rparr>"]
  by (simp add: later_codec_def empty_record_def backupVersion_def rows_content_def kept_rows_def)

end
