(* ===== verification/Cli_Main.thy ===== *)
theory Cli_Main
  imports Cli_Host Cli_Commands Cli_Backup
begin

text \<open>
  The subcommands of \<open>priompt\<close> as programs, from their arguments to what they print and write, and
  the dispatch of \<open>main\<close>; \<open>serve\<close> and \<open>watch\<close> have theories of their own. The databases, the
  connection to a server, the encoding of records as JSON and the minting of tokens are parameters.
\<close>

section \<open>What the commands are given\<close>

text \<open>Databases by path: opening one, and its methods on the state of all of them.\<close>

record 'st dbs =
  db_open :: "string \<Rightarrow> 'st \<Rightarrow> gerr option \<times> 'st"
  db_store :: "string \<Rightarrow> 'st store"
  db_archive :: "string \<Rightarrow> 'st archive"

definition open_db :: "'st dbs \<Rightarrow> string \<Rightarrow> (unit, 'st) cmd" where
  "open_db D path = failing (\<lambda>s. case db_open D path s of (Some e, s') \<Rightarrow> (Inl e, s') | (None, s') \<Rightarrow> (Inr (), s'))"

text \<open>What the commands rely on: opening a database, which may migrate its schema, keeps its content, also when it fails.\<close>

definition open_law :: "'st dbs \<Rightarrow> bool" where
  "open_law D \<longleftrightarrow> (\<forall>path s err s'. db_open D path s = (err, s') \<longrightarrow>
     (\<forall>q u r. served (db_store D q) s' u = served (db_store D q) s u
        \<and> fst (st_resolve (db_store D q) u r s') = fst (st_resolve (db_store D q) u r s)))"

text \<open>The methods of \<open>pb.PromptServiceClient\<close> the commands call; a status ends the command.\<close>

record 'w rpc_client = "'w prompt_client" +
  cl_list :: "string \<Rightarrow> 'w \<Rightarrow> (status + prompt_entry list) \<times> 'w"
  cl_diff :: "diff_req \<Rightarrow> 'w \<Rightarrow> (status + pb_change list) \<times> 'w"

definition rpc_fatal :: "status \<Rightarrow> fatal" where
  "rpc_fatal e = Fatal (st_fmt e) (st_args e)"

text \<open>
  A connection: the transport credentials it was made with, and the client that sends an
  \<open>authorization\<close> header, if any, with every call.
\<close>

record ('crt, 'pool, 'w) net =
  net_pem :: "('crt, 'pool) pem"
  net_dial :: "string \<Rightarrow> ('crt, 'pool) tls_config option \<Rightarrow> gerr + (string option \<Rightarrow> 'w rpc_client)"

text \<open>The embedding model, \<open>semdiff.HTTPEmbedder\<close> and \<open>semdiff.LexicalEmbedder\<close>.\<close>

datatype embedder = HTTPEmbedder (em_url: string) (em_model: string) (em_key: string) | LexicalEmbedder

definition buildEmbedder :: "string \<Rightarrow> string \<Rightarrow> string \<Rightarrow> embedder" where
  "buildEmbedder url model key = (if url \<noteq> '''' then HTTPEmbedder url model key else LexicalEmbedder)"

definition os_env :: "string \<Rightarrow> (string, 's) cmd" where
  "os_env k = ask (\<lambda>h. getenv (h_environ h) k)"

section \<open>Commands on a database\<close>

definition put_flags :: "string list \<Rightarrow> flag_set" where
  "put_flags E =
     [(''uri'', StringFlag ''''), (''file'', StringFlag ''-''), (''db'', StringFlag ''priompt.db''),
      (''force'', BoolFlag False), (''embed-url'', StringFlag (getenv E ''PRIOMPT_EMBED_URL'')),
      (''embed-model'', StringFlag (getenv E ''PRIOMPT_EMBED_MODEL'')), (''slot'', ListFlag [])]"

definition put_cmd ::
  "embedder lib \<Rightarrow> 'st dbs \<Rightarrow> (sd_result list \<Rightarrow> string) \<Rightarrow> string list \<Rightarrow> (unit, 'st) cmd" where
  "put_cmd L D format args =
     seq (ask h_environ) (\<lambda>E.
     seq (parse_args (put_flags E) args) (\<lambda>fs.
     let uri = flag_string fs ''uri''; slots = flag_list fs ''slot''; path = flag_string fs ''db'';
         emb = buildEmbedder (flag_string fs ''embed-url'') (flag_string fs ''embed-model'') (getenv E ''PRIOMPT_EMBED_KEY'')
     in
     seq (readTemplate (flag_string fs ''file'')) (\<lambda>template.
     case validate_prompt L uri template slots of
       Some e \<Rightarrow> die (Fatal ''validation failed: %v'' [err_text e])
     | None \<Rightarrow>
         seq (open_db D path) (\<lambda>_.
         seq (outside (put L (db_store D path) emb format uri template slots (flag_bool fs ''force'')))
         out))))"

text \<open>\<open>encode\<close> is \<open>json.Encoder.Encode\<close> of a prompt: its line, or the error of encoding or writing it.\<close>

definition stream_flags :: "string \<Rightarrow> flag_set" where
  "stream_flags file = [(''db'', StringFlag ''priompt.db''), (file, StringFlag ''-'')]"

fun encode_all :: "('a \<Rightarrow> gerr + string) \<Rightarrow> 'a list \<Rightarrow> string \<times> gerr option" where
  "encode_all encode [] = ('''', None)"
| "encode_all encode (x # xs) = (case encode x of
     Inl e \<Rightarrow> ('''', Some e)
   | Inr t \<Rightarrow> (case encode_all encode xs of (ts, r) \<Rightarrow> (t @ ts, r)))"

text \<open>The text goes to the file or to standard output; what was encoded before an error is written.\<close>

definition write_stream :: "('a \<Rightarrow> gerr + string) \<Rightarrow> string \<Rightarrow> 'a list \<Rightarrow> (unit, 's) cmd" where
  "write_stream encode path xs =
     (case encode_all encode xs of (t, r) \<Rightarrow>
        seq (if path \<noteq> ''-'' then create_write path t else out t) (\<lambda>_.
        case r of Some e \<Rightarrow> die (Fatal (err_text e) []) | None \<Rightarrow> give ()))"

definition export_note :: string where
  "export_note = ''exported %d prompts (served content only '' @ em_dash
     @ '' commits and branches are not included; use `priompt backup` for those)''"

definition export_cmd :: "'st dbs \<Rightarrow> (prompt \<Rightarrow> gerr + string) \<Rightarrow> string list \<Rightarrow> (unit, 'st) cmd" where
  "export_cmd D encode args =
     seq (parse_args (stream_flags ''out'') args) (\<lambda>fs.
     let path = flag_string fs ''db'' in
     seq (open_db D path) (\<lambda>_.
     seq (failing (ar_dump (db_archive D path))) (\<lambda>prompts.
     seq (write_stream encode (flag_string fs ''out'') prompts) (\<lambda>_.
     log_err (export_note, [nat_digits (length prompts)])))))"

text \<open>\<open>os.Open\<close> of the input, when it is not standard input.\<close>

definition open_input :: "string \<Rightarrow> (unit, 's) cmd" where
  "open_input file = (if file = ''-'' then give ()
     else seq (ask (\<lambda>h. h_files h file)) (\<lambda>r. seq (or_die r) (\<lambda>_. give ())))"

definition import_note :: string where
  "import_note = '' unchanged (served content only '' @ em_dash @ '' history was not ''
     @ ''part of this file; use `priompt restore` for a full backup)''"

definition import_cmd ::
  "'em lib \<Rightarrow> 'st dbs \<Rightarrow> (string \<Rightarrow> (gerr + prompt) list) \<Rightarrow> string list \<Rightarrow> (unit, 'st) cmd" where
  "import_cmd L D decode args =
     seq (parse_args (stream_flags ''in'') args) (\<lambda>fs.
     let path = flag_string fs ''db''; file = flag_string fs ''in'' in
     seq (open_input file) (\<lambda>_.
     seq (open_db D path) (\<lambda>_.
     seq (ask (\<lambda>h. read_all h file)) (\<lambda>r.
     case r of
       Inl e \<Rightarrow> die (Fatal ''%s: %v'' [file, err_text e])
     | Inr text \<Rightarrow>
         seq (outside (\<lambda>s. map_prod Inr id (importPrompts L (db_store D path) decode text s))) (\<lambda>(n, unchanged, err).
         case err of
           Some e \<Rightarrow> die (Fatal ''%s: %v'' [file, err_text e])
         | None \<Rightarrow> out (''imported '' @ nat_digits n @ '' prompts, '' @ nat_digits unchanged @ import_note @ [LF]))))))"

section \<open>backup and restore\<close>

text \<open>\<open>time.Now().UTC().Format(time.RFC3339)\<close>: the instant in UTC, without its fraction.\<close>

definition utc_rfc3339 :: "gotime \<Rightarrow> string" where
  "utc_rfc3339 t = format_rfc3339nano (t\<lparr>t_ns := t_ns t div 1000000000 * 1000000000, t_off := 0\<rparr>)"

definition backup_cmd :: "'st dbs \<Rightarrow> (backup_record \<Rightarrow> gerr + string) \<Rightarrow> string list \<Rightarrow> (unit, 'st) cmd" where
  "backup_cmd D encode args =
     seq (parse_args (stream_flags ''out'') args) (\<lambda>fs.
     let path = flag_string fs ''db'' in
     seq (open_db D path) (\<lambda>_.
     seq (ask h_now) (\<lambda>t.
     seq (outside (backup (db_archive D path) (utc_rfc3339 t))) (\<lambda>(recs, p, c, r).
     seq (write_stream encode (flag_string fs ''out'') recs) (\<lambda>_.
     log_err (''backed up %d prompts, %d commits, %d branch pointers'',
              [nat_digits p, nat_digits c, nat_digits r]))))))"

definition legacy_note :: string where
  "legacy_note = ''note: this file is a served-content export (pre-history format), so no commits ''
     @ ''or branches were restored. Prompts resolve, but history, branching and rollback ''
     @ ''are unavailable for them.''"

definition restore_flags :: flag_set where
  "restore_flags = stream_flags ''in'' @ [(''force'', BoolFlag False)]"

text \<open>\<open>split_json\<close> is \<open>json.Decoder\<close> reading raw values.\<close>

definition restore_cmd ::
  "'st dbs \<Rightarrow> json_codec \<Rightarrow> (string \<Rightarrow> (gerr + string) list) \<Rightarrow> string list \<Rightarrow> (unit, 'st) cmd" where
  "restore_cmd D J split_json args =
     seq (parse_args restore_flags args) (\<lambda>fs.
     let path = flag_string fs ''db''; file = flag_string fs ''in'' in
     seq (open_input file) (\<lambda>_.
     seq (open_db D path) (\<lambda>_.
     seq (ask (\<lambda>h. read_all h file)) (\<lambda>r.
     seq (outside (restore (db_archive D path) J path (flag_bool fs ''force'')
            (case r of Inl e \<Rightarrow> [Inl e] | Inr text \<Rightarrow> split_json text))) (\<lambda>n.
     seq (out (''restored '' @ nat_digits (nP n) @ '' prompts, '' @ nat_digits (nC n) @ '' commits, ''
               @ nat_digits (nR n) @ '' branch pointers'' @ [LF])) (\<lambda>_.
     if legacy n > 0 then log_err (legacy_note, []) else give ()))))))"

section \<open>Commands on a server\<close>

definition conn_flags :: "string \<Rightarrow> flag_set" where
  "conn_flags addr =
     [(''addr'', StringFlag addr), (''tls'', BoolFlag False), (''ca-cert'', StringFlag ''''),
      (''cert'', StringFlag ''''), (''key'', StringFlag '''')]"

text \<open>\<open>fs.String("addr", envHost(), ...)\<close>: the default is computed whether or not it is used.\<close>

definition env_host :: "(string, 's) cmd" where
  "env_host = seq (os_env ''PRIOMPT_URL'') (\<lambda>raw. case envHost raw of Inl f \<Rightarrow> die f | Inr a \<Rightarrow> give a)"

definition auth_ctx :: "(string option, 's) cmd" where
  "auth_ctx = seq (os_env ''PRIOMPT_TOKEN'') (\<lambda>t. seq (os_env ''PRIOMPT_URL'') (\<lambda>raw.
     case authCtx t raw of Inl f \<Rightarrow> die f | Inr a \<Rightarrow> give a))"

definition connect_cmd :: "('crt, 'pool, 'w) net \<Rightarrow> flag_set \<Rightarrow> ('w rpc_client, 'w) cmd" where
  "connect_cmd N fs =
     seq (dial (net_pem N) (net_dial N) (flag_string fs ''addr'') (flag_bool fs ''tls'')
            (flag_string fs ''ca-cert'') (flag_string fs ''cert'') (flag_string fs ''key'')) (\<lambda>conn.
     seq auth_ctx (\<lambda>a. give (conn a)))"

definition call_rpc :: "('w \<Rightarrow> (status + 'a) \<times> 'w) \<Rightarrow> ('a, 'w) cmd" where
  "call_rpc f = outside (\<lambda>w. map_prod (map_sum rpc_fatal id) id (f w))"

definition diff_cmd :: "('crt, 'pool, 'w) net \<Rightarrow> (sd_result list \<Rightarrow> string) \<Rightarrow> string list \<Rightarrow> (unit, 'w) cmd" where
  "diff_cmd N format args =
     seq env_host (\<lambda>addr.
     seq (parse_args (conn_flags addr @ [(''uri'', StringFlag ''''), (''file'', StringFlag ''-'')]) args) (\<lambda>fs.
     if flag_string fs ''uri'' = ''''
     then die (Fatal ''usage: priompt diff -uri priompt://... -file edited.txt [-addr localhost:8443]'' [])
     else
       seq (readTemplate (flag_string fs ''file'')) (\<lambda>edited.
       seq (connect_cmd N fs) (\<lambda>cl.
       seq (call_rpc (cl_diff cl \<lparr>dq_uri = flag_string fs ''uri'', dq_new_template = edited\<rparr>)) (\<lambda>changes.
       out (format (fromProto changes)))))))"

text \<open>A hash shorter than twelve bytes panics after the lines before it are printed.\<close>

fun print_entries :: "prompt_entry list \<Rightarrow> (unit, 's) cmd" where
  "print_entries [] = give ()"
| "print_entries (e # es) = (case short_hash (pe_version_hash e) of
     Inl f \<Rightarrow> die f
   | Inr h \<Rightarrow> seq (out (pe_uri e @ [CHR 0x09] @ h @ [LF])) (\<lambda>_. print_entries es))"

definition list_cmd :: "('crt, 'pool, 'w) net \<Rightarrow> string list \<Rightarrow> (unit, 'w) cmd" where
  "list_cmd N args =
     seq env_host (\<lambda>addr.
     seq (parse_args (conn_flags addr @ [(''prefix'', StringFlag '''')]) args) (\<lambda>fs.
     seq (connect_cmd N fs) (\<lambda>cl.
     seq (call_rpc (cl_list cl (flag_string fs ''prefix''))) print_entries)))"

definition publish_flags :: "string \<Rightarrow> flag_set" where
  "publish_flags addr = conn_flags addr @ [(''uri'', StringFlag ''''), (''file'', StringFlag ''-''), (''slot'', ListFlag [])]"

definition publish_cmd :: "('crt, 'pool, 'w) net \<Rightarrow> string list \<Rightarrow> (unit, 'w) cmd" where
  "publish_cmd N args =
     seq env_host (\<lambda>addr.
     seq (parse_args (publish_flags addr) args) (\<lambda>fs.
     if flag_string fs ''uri'' = ''''
     then die (Fatal ''usage: priompt publish -uri priompt://... -file tmpl.txt [-slot name ...]'' [])
     else
       seq (readTemplate (flag_string fs ''file'')) (\<lambda>template.
       seq (connect_cmd N fs) (\<lambda>cl.
       seq (outside (\<lambda>w. case publishPrompt (prompt_client.truncate cl)
                \<lparr>pq_uri = flag_string fs ''uri'', pq_template = template, pq_slots = flag_list fs ''slot'',
                 pq_message = '''', pq_branch = ''''\<rparr> w of
              (None, w') \<Rightarrow> (Inl (Fatal ''panic: slice bounds out of range'' []), w')
            | (Some (Inl e), w') \<Rightarrow> (Inl (rpc_fatal e), w')
            | (Some (Inr line), w') \<Rightarrow> (Inr line, w'))) (\<lambda>line.
       out (line @ [LF]))))))"

section \<open>Setting up\<close>

text \<open>\<open>gen\<close> is \<open>authn.GenToken\<close>.\<close>

definition init_flags :: flag_set where
  "init_flags = [(''tokens-file'', StringFlag ''tokens.txt''), (''addr'', StringFlag ''localhost:8443''),
                 (''force'', BoolFlag False)]"

definition init_cmd :: "gerr + string \<Rightarrow> string list \<Rightarrow> (unit, 's) cmd" where
  "init_cmd gen args =
     seq (parse_args init_flags args) (\<lambda>fs.
     let file = flag_string fs ''tokens-file'' in
     seq (ask (\<lambda>h. h_files h file)) (\<lambda>stat.
     if \<not> isl stat \<and> \<not> flag_bool fs ''force''
     then die (Fatal ''%s already exists; pass -force to overwrite'' [file])
     else
       seq (or_die gen) (\<lambda>token.
       seq (create_write file (init_file token)) (\<lambda>_.
       seq (ask h_goos) (\<lambda>goos.
       out (''wrote admin token to '' @ file @ [LF, LF]
            @ ''  start server:  priompt serve -tokens-file '' @ file @ [LF]
            @ ''  point client:  '' @ init_line goos token (flag_string fs ''addr'') @ [LF]))))))"

definition migrate_cmd :: "'st dbs \<Rightarrow> string list \<Rightarrow> (unit, 'st) cmd" where
  "migrate_cmd D args =
     seq (parse_args [(''db'', StringFlag ''priompt.db'')] args) (\<lambda>fs.
     let path = flag_string fs ''db'' in
     seq (open_db D path) (\<lambda>_.
     seq (outside (\<lambda>s. (Inr (ar_schema_version (db_archive D path) s), s))) (\<lambda>v.
     out (''schema up to date (version '' @ pad_int 0 v @ '')'' @ [LF]))))"

definition gen_token_cmd :: "gerr + string \<Rightarrow> (unit, 's) cmd" where
  "gen_token_cmd gen = seq (or_die gen) (\<lambda>tok. out (tok @ [LF]))"

section \<open>main\<close>

definition usage :: "(unit, 's) cmd" where
  "usage = seq (log_err (''usage: priompt init|serve|put|diff|list|publish|watch|backup|restore|export|import|migrate|gen-token|version [flags]'', []))
     (\<lambda>_. exit_with 2)"

definition version_line :: "string \<Rightarrow> string \<Rightarrow> string \<Rightarrow> string" where
  "version_line version commit go = ''priompt '' @ version @ '' (commit '' @ commit @ '', '' @ go @ '')'' @ [LF]"

text \<open>
  \<open>main\<close> over the arguments after the program's name; \<open>commands\<close> are the subcommands by name.
\<close>

definition main_cmd ::
  "(string \<times> (string list \<Rightarrow> (unit, 's) cmd)) list \<Rightarrow> string \<Rightarrow> string list \<Rightarrow> (unit, 's) cmd" where
  "main_cmd commands version_text argv =
     (case argv of
        [] \<Rightarrow> usage
      | name # args \<Rightarrow>
          (case map_of commands name of
             Some run \<Rightarrow> run args
           | None \<Rightarrow> if name \<in> set [''version'', ''-version'', ''--version''] then out version_text else usage))"

end
