(* ===== verification/Sample_Databases.thy ===== *)
theory Sample_Databases
  imports Cli_Main
begin

text \<open>
  An executable instance of the databases of the command line: one \<open>sample_store\<close> per path. Only the
  witnesses use it.
\<close>

section \<open>A store at a path\<close>

definition at_path :: "'k \<Rightarrow> ('x \<Rightarrow> 'r \<times> 'x) \<Rightarrow> ('k \<Rightarrow> 'x) \<Rightarrow> 'r \<times> ('k \<Rightarrow> 'x)" where
  "at_path a f s = (case f (s a) of (r, x) \<Rightarrow> (r, s(a := x)))"

lemma at_path_simps [simp]:
  "fst (at_path a f s) = fst (f (s a))" "snd (at_path a f s) = s(a := snd (f (s a)))"
  by (simp_all add: at_path_def split: prod.splits)

lemma at_path_eq: "at_path a f s = (r, s') \<longleftrightarrow> (\<exists>x. f (s a) = (r, x) \<and> s' = s(a := x))"
  by (auto simp: at_path_def split: prod.splits)

definition store_at :: "'k \<Rightarrow> 'x store \<Rightarrow> ('k \<Rightarrow> 'x) store" where
  "store_at a st =
     \<lparr>st_get = \<lambda>u. at_path a (st_get st u), st_list = \<lambda>p. at_path a (st_list st p),
      st_resolve = \<lambda>u r. at_path a (st_resolve st u r), st_get_commit = \<lambda>h. at_path a (st_get_commit st h),
      st_log = \<lambda>u b. at_path a (st_log st u b), st_commits = \<lambda>u. at_path a (st_commits st u),
      st_branches = \<lambda>u. at_path a (st_branches st u),
      st_commit = \<lambda>u b t sl c g. at_path a (st_commit st u b t sl c g),
      st_branch = \<lambda>u n f. at_path a (st_branch st u n f),
      st_merge = \<lambda>u i f c g. at_path a (st_merge st u i f c g),
      st_set_branch = \<lambda>u b h. at_path a (st_set_branch st u b h)\<rparr>"

lemma served_store_at [simp]: "served (store_at a st) s u = served st (s a) u"
  by (simp add: served_def store_at_def)

lemma resolve_store_at [simp]: "fst (st_resolve (store_at a st) u r s) = fst (st_resolve st u r (s a))"
  by (simp add: store_at_def)

lemma commit_store_at:
  "st_commit (store_at a st) u b t sl c g s = (r, s') \<longleftrightarrow> (\<exists>x. st_commit st u b t sl c g (s a) = (r, x) \<and> s' = s(a := x))"
  by (simp add: store_at_def at_path_eq)

lemma reads_pure_store_at: "reads_pure st \<Longrightarrow> reads_pure (store_at a st)"
  by (simp add: reads_pure_def store_at_def)

lemma commit_contract_store_at: "commit_contract L st \<Longrightarrow> commit_contract L (store_at a st)"
  unfolding commit_contract_def commit_store_at served_store_at by (elim all_forward impE) auto

lemma resolve_contract_store_at: "resolve_contract L st \<Longrightarrow> resolve_contract L (store_at a st)"
  unfolding resolve_contract_def commit_store_at resolve_store_at by fastforce

section \<open>Databases\<close>

definition dump_heads :: "sample_store \<Rightarrow> prompt list" where
  "dump_heads s = map (\<lambda>u. the (find_head u s)) (remdups (map p_uri (s_heads s)))"

lemma find_head_uri: "find_head u s = Some p \<Longrightarrow> p_uri p = u"
  by (auto simp: find_head_def find_Some_iff)

lemma find_head_listed: "u \<in> p_uri ` set (s_heads s) \<longleftrightarrow> find_head u s \<noteq> None"
  by (auto simp: find_head_def find_None_iff)

lemma dump_heads_uris: "map p_uri (dump_heads s) = remdups (map p_uri (s_heads s))"
proof -
  have "p_uri (the (find_head u s)) = u" if "u \<in> set (remdups (map p_uri (s_heads s)))" for u
    using that find_head_listed [of u s] find_head_uri by fastforce
  then have "map (\<lambda>u. p_uri (the (find_head u s))) (remdups (map p_uri (s_heads s)))
      = map (\<lambda>u. u) (remdups (map p_uri (s_heads s)))"
    by (intro map_cong) auto
  then show ?thesis by (simp add: dump_heads_def comp_def)
qed

lemma in_dump_heads: "p \<in> set (dump_heads s) \<longleftrightarrow> find_head (p_uri p) s = Some p"
proof
  assume "p \<in> set (dump_heads s)"
  then obtain u where u: "u \<in> p_uri ` set (s_heads s)" "p = the (find_head u s)"
    by (auto simp: dump_heads_def)
  then obtain q where "find_head u s = Some q" using find_head_listed by blast
  with u find_head_uri show "find_head (p_uri p) s = Some p" by force
next
  assume h: "find_head (p_uri p) s = Some p"
  then have "p_uri p \<in> set (remdups (map p_uri (s_heads s)))" using find_head_listed [of "p_uri p" s] by simp
  then have "the (find_head (p_uri p) s) \<in> set (dump_heads s)" unfolding dump_heads_def by auto
  then show "p \<in> set (dump_heads s)" using h by simp
qed

definition sample_dbs :: "(string \<Rightarrow> sample_store) dbs" where
  "sample_dbs =
     \<lparr>db_open = \<lambda>path s. (None, s), db_store = \<lambda>path. store_at path sample_ops,
      db_archive = \<lambda>path.
        \<lparr>ar_dump = \<lambda>s. (Inr (dump_heads (s path)), s),
         ar_dump_commits = \<lambda>s. (Inr (s_commits (s path)), s), ar_dump_refs = \<lambda>s. (Inr (s_refs (s path)), s),
         ar_schema_version = \<lambda>s. 1, ar_count_commits = \<lambda>s. (Inr (int (length (s_commits (s path)))), s),
         ar_put_commit = \<lambda>c. at_path path (\<lambda>x. (None, record_commit c x)),
         ar_put_ref = \<lambda>r. at_path path (\<lambda>x. (None, set_ref (r_uri r) (r_branch r) (r_commit r) x)),
         ar_put = \<lambda>p. at_path path (\<lambda>x. (None, set_head p x))\<rparr>\<rparr>"

lemma sample_dbs_simps [simp]:
  "db_open sample_dbs path s = (None, s)" "db_store sample_dbs path = store_at path sample_ops"
  "ar_dump (db_archive sample_dbs path) s = (Inr (dump_heads (s path)), s)"
  by (simp_all add: sample_dbs_def)

text \<open>A host with no files, nothing on standard input and an empty environment.\<close>

definition sample_host :: host where
  "sample_host = \<lparr>h_files = \<lambda>_. Inl (Gerr [] ''no such file or directory''), h_create = \<lambda>_. None, h_stdin = Inr '''',
     h_environ = [], h_goos = ''linux'', h_now = time_zero, h_stdout = '''', h_stderr = []\<rparr>"

end
