(* ===== verification/Go_Json.thy ===== *)
theory Go_Json
  imports Go_Url
begin

text \<open>
  The part of Go's \<open>encoding/json\<close> (Go 1.25.0) that events go through: how a string is written
  (HTML-safe, invalid UTF-8 replaced), and how any text is read, with the strict grammar, the escapes
  and surrogates, the limit on nesting. Reading takes fuel; a bound linear in the length is shown to be
  enough, so that the reader is one total function.
\<close>

section \<open>UTF-8\<close>

definition continuation :: "char \<Rightarrow> bool" where
  "continuation c \<longleftrightarrow> byte_between 0x80 c 0xBF"

text \<open>The length of the well-formed sequence a text starts with, as \<open>utf8.DecodeRune\<close> finds it, or 0.\<close>

fun utf8_len :: "string \<Rightarrow> nat" where
  "utf8_len [] = 0"
| "utf8_len (a # s) =
     (if byte_between 0 a 0x7F then 1
      else (case s of [] \<Rightarrow> 0
        | b # s1 \<Rightarrow>
            if byte_between 0xC2 a 0xDF then (if continuation b then 2 else 0)
            else (case s1 of [] \<Rightarrow> 0
              | c # s2 \<Rightarrow>
                  if (byte_between 0xE0 a 0xE0 \<and> byte_between 0xA0 b 0xBF)
                   \<or> (byte_between 0xE1 a 0xEC \<and> continuation b)
                   \<or> (byte_between 0xED a 0xED \<and> byte_between 0x80 b 0x9F)
                   \<or> (byte_between 0xEE a 0xEF \<and> continuation b)
                  then (if continuation c then 3 else 0)
                  else (case s2 of [] \<Rightarrow> 0
                    | d # s3 \<Rightarrow>
                        if ((byte_between 0xF0 a 0xF0 \<and> byte_between 0x90 b 0xBF)
                            \<or> (byte_between 0xF1 a 0xF3 \<and> continuation b)
                            \<or> (byte_between 0xF4 a 0xF4 \<and> byte_between 0x80 b 0x8F))
                           \<and> continuation c \<and> continuation d
                        then 4 else 0))))"

definition utf8_encode :: "nat \<Rightarrow> string" where
  "utf8_encode r =
     (if r < 0x80 then [char_of r]
      else if r < 0x800 then [char_of (0xC0 + r div 64), char_of (0x80 + r mod 64)]
      else if r < 0x10000 then
        [char_of (0xE0 + r div 4096), char_of (0x80 + r div 64 mod 64), char_of (0x80 + r mod 64)]
      else [char_of (0xF0 + r div 262144), char_of (0x80 + r div 4096 mod 64),
            char_of (0x80 + r div 64 mod 64), char_of (0x80 + r mod 64)])"

text \<open>U+FFFD, what an invalid byte becomes.\<close>

definition replacement :: string where
  "replacement = [CHR 0xEF, CHR 0xBF, CHR 0xBD]"

fun to_valid :: "string \<Rightarrow> string" where
  "to_valid [] = []"
| "to_valid (c # s) =
     (if utf8_len (c # s) = 0 then replacement @ to_valid s
      else take (utf8_len (c # s)) (c # s) @ to_valid (drop (utf8_len (c # s) - 1) s))"

fun valid_utf8 :: "string \<Rightarrow> bool" where
  "valid_utf8 [] = True"
| "valid_utf8 (c # s) \<longleftrightarrow>
     utf8_len (c # s) \<noteq> 0 \<and> valid_utf8 (drop (utf8_len (c # s) - 1) s)"

lemma to_valid_id: "valid_utf8 s \<Longrightarrow> to_valid s = s"
proof (induction s rule: to_valid.induct)
  case (2 c s)
  have "take (utf8_len (c # s)) (c # s) @ drop (utf8_len (c # s) - 1) s = c # s"
    using 2(3) by (cases "utf8_len (c # s)") simp_all
  then show ?case using 2 by auto
qed simp

section \<open>Writing a string\<close>

definition hex_lower :: "nat \<Rightarrow> char" where
  "hex_lower n = char_of (if n < 10 then 48 + n else 87 + n)"

definition QUOTE :: char where
  "QUOTE = CHR 0x22"

definition BACKSLASH :: char where
  "BACKSLASH = CHR 0x5C"

text \<open>An ASCII byte: itself where \<open>htmlSafeSet\<close> has it, a short escape, or \<open>\u00XX\<close>.\<close>

definition escape_byte :: "char \<Rightarrow> string" where
  "escape_byte c =
     (if c = QUOTE \<or> c = BACKSLASH then [BACKSLASH, c]
      else if c = CHR 0x08 then [BACKSLASH, CHR ''b'']
      else if c = CHR 0x09 then [BACKSLASH, CHR ''t'']
      else if c = CHR 0x0A then [BACKSLASH, CHR ''n'']
      else if c = CHR 0x0C then [BACKSLASH, CHR ''f'']
      else if c = CHR 0x0D then [BACKSLASH, CHR ''r'']
      else if of_char c < (32::nat) \<or> c = CHR ''<'' \<or> c = CHR ''>'' \<or> c = CHR ''&''
      then [BACKSLASH, CHR ''u'', CHR ''0'', CHR ''0'', hex_lower (of_char c div 16), hex_lower (of_char c mod 16)]
      else [c])"

text \<open>\<open>appendString\<close> without the quotes; U+2028 and U+2029 are escaped as well.\<close>

fun json_body :: "string \<Rightarrow> string" where
  "json_body [] = []"
| "json_body (c # s) =
     (if utf8_len (c # s) = 0 then BACKSLASH # ''ufffd'' @ json_body s
      else if utf8_len (c # s) = 1 then escape_byte c @ json_body s
      else (if take (utf8_len (c # s)) (c # s) = [CHR 0xE2, CHR 0x80, CHR 0xA8] then BACKSLASH # ''u2028''
            else if take (utf8_len (c # s)) (c # s) = [CHR 0xE2, CHR 0x80, CHR 0xA9] then BACKSLASH # ''u2029''
            else take (utf8_len (c # s)) (c # s))
           @ json_body (drop (utf8_len (c # s) - 1) s))"

definition json_quote :: "string \<Rightarrow> string" where
  "json_quote s = QUOTE # json_body s @ [QUOTE]"

section \<open>Reading a string\<close>

definition hex4 :: "string \<Rightarrow> nat option" where
  "hex4 s =
     (case s of a # b # c # d # t \<Rightarrow>
        if is_hex a \<and> is_hex b \<and> is_hex c \<and> is_hex d
        then Some (unhex a * 4096 + unhex b * 256 + unhex c * 16 + unhex d) else None
      | _ \<Rightarrow> None)"

text \<open>An escape, after its backslash: the bytes it stands for, and how many bytes it takes.\<close>

definition short_escape :: "char \<Rightarrow> char option" where
  "short_escape e =
     (if e = QUOTE \<or> e = BACKSLASH \<or> e = CHR ''/'' then Some e
      else if e = CHR ''b'' then Some (CHR 0x08)
      else if e = CHR ''f'' then Some (CHR 0x0C)
      else if e = CHR ''n'' then Some (CHR 0x0A)
      else if e = CHR ''r'' then Some (CHR 0x0D)
      else if e = CHR ''t'' then Some (CHR 0x09)
      else None)"

text \<open>\<open>utf16.DecodeRune\<close>: the code point of a surrogate pair.\<close>

definition surrogate_pair :: "nat \<Rightarrow> nat \<Rightarrow> nat option" where
  "surrogate_pair hi lo =
     (if 0xD800 \<le> hi \<and> hi < 0xDC00 \<and> 0xDC00 \<le> lo \<and> lo < 0xE000
      then Some ((hi - 0xD800) * 0x400 + (lo - 0xDC00) + 0x10000) else None)"

definition second_unit :: "string \<Rightarrow> nat option" where
  "second_unit s = (case s of b # u # t \<Rightarrow> if b = BACKSLASH \<and> u = CHR ''u'' then hex4 t else None | _ \<Rightarrow> None)"

definition json_escape :: "string \<Rightarrow> (string \<times> nat) option" where
  "json_escape s =
     (case s of
        [] \<Rightarrow> None
      | e # t \<Rightarrow>
          if e = CHR ''u'' then
            (case hex4 t of
               None \<Rightarrow> None
             | Some r \<Rightarrow>
                 if 0xD800 \<le> r \<and> r < 0xE000 then
                   (case Option.bind (second_unit (drop 4 t)) (surrogate_pair r) of
                      Some p \<Rightarrow> Some (utf8_encode p, 11)
                    | None \<Rightarrow> Some (replacement, 5))
                 else Some (utf8_encode r, 5))
          else map_option (\<lambda>b. ([b], 1)) (short_escape e))"

text \<open>The rest of a string after its opening quote: its value, and what follows the closing quote.\<close>

fun json_str :: "string \<Rightarrow> (string \<times> string) option" where
  "json_str [] = None"
| "json_str (c # s) =
     (if c = QUOTE then Some ([], s)
      else if c = BACKSLASH then
        (case json_escape s of
           None \<Rightarrow> None
         | Some (b, k) \<Rightarrow> map_option (apfst (append b)) (json_str (drop k s)))
      else if of_char c < (32::nat) then None
      else if utf8_len (c # s) = 0 then map_option (apfst (append replacement)) (json_str s)
      else map_option (apfst (append (take (utf8_len (c # s)) (c # s))))
             (json_str (drop (utf8_len (c # s) - 1) s)))"

declare utf8_len.simps [simp del] to_valid.simps(2) [simp del] json_body.simps(2) [simp del] json_str.simps(2) [simp del]

subsection \<open>Reading what was written\<close>

lemma utf8_len_le: "utf8_len s \<le> length s"
  by (cases s rule: utf8_len.cases) (auto simp: utf8_len.simps split: list.split)

lemma utf8_len_prefix:
  assumes "utf8_len s = n" and "n \<noteq> 0"
  shows "utf8_len (take n s @ t) = n"
proof (cases s)
  case (Cons a s1)
  show ?thesis
  proof (cases "byte_between 0 a 0x7F")
    case True
    then show ?thesis using assms Cons by (auto simp: utf8_len.simps)
  next
    case hi: False
    obtain b s2 where s1: "s1 = b # s2" using assms Cons hi by (cases s1) (auto simp: utf8_len.simps)
    show ?thesis
    proof (cases "byte_between 0xC2 a 0xDF")
      case True
      then show ?thesis using assms Cons hi s1 by (auto simp: utf8_len.simps split: if_splits)
    next
      case hi2: False
      obtain c s3 where s2: "s2 = c # s3" using assms Cons hi hi2 s1 by (cases s2) (auto simp: utf8_len.simps)
      show ?thesis
      proof (cases s3)
        case Nil
        then show ?thesis using assms Cons hi hi2 s1 s2 by (auto simp: utf8_len.simps split: if_splits)
      next
        case (Cons d s4)
        then show ?thesis using assms \<open>s = a # s1\<close> hi hi2 s1 s2 by (auto simp: utf8_len.simps split: if_splits)
      qed
    qed
  qed
qed (use assms in \<open>simp add: utf8_len.simps\<close>)

lemma utf8_len_ascii: "utf8_len (c # s) = 1 \<longleftrightarrow> byte_between 0 c 0x7F"
  by (auto simp: utf8_len.simps split: list.split)

lemma utf8_len_multi: "utf8_len (c # s) \<noteq> 0 \<Longrightarrow> utf8_len (c # s) \<noteq> 1 \<Longrightarrow> 128 \<le> (of_char c :: nat)"
  by (auto simp: utf8_len.simps byte_between_def split: if_splits)

lemma hex_lower_digits:
  "n < 16 \<Longrightarrow> is_hex (hex_lower n) \<and> unhex (hex_lower n) = n"
  by (auto simp: hex_lower_def is_hex_def unhex_def is_digit_def byte_between_def)

lemma hex4_low: "hex4 (CHR ''0'' # CHR ''0'' # hex_lower (n div 16) # hex_lower (n mod 16) # t) = Some n"
  if "n < 256"
proof -
  have "n div 16 < 16" using that by simp
  then show ?thesis
    using hex_lower_digits [of "n div 16"] hex_lower_digits [of "n mod 16"]
    by (simp add: hex4_def is_hex_def unhex_def is_digit_def byte_between_def)
qed

lemma json_str_plain:
  assumes "c \<noteq> QUOTE" and "c \<noteq> BACKSLASH" and "32 \<le> (of_char c :: nat)" and "byte_between 0 c 0x7F"
  shows "json_str (c # t) = map_option (apfst (append [c])) (json_str t)"
  using assms by (simp add: json_str.simps(2) utf8_len.simps)

lemma json_str_short:
  assumes "short_escape e = Some c" and "e \<noteq> CHR ''u''"
  shows "json_str (BACKSLASH # e # t) = map_option (apfst (append [c])) (json_str t)"
  using assms by (simp add: json_str.simps(2) json_escape_def QUOTE_def BACKSLASH_def)

lemma json_str_unicode:
  assumes "hex4 (u @ t) = Some r" and "length u = 4" and "\<not> (0xD800 \<le> r \<and> r < 0xE000)"
  shows "json_str (BACKSLASH # CHR ''u'' # u @ t) = map_option (apfst (append (utf8_encode r))) (json_str t)"
proof -
  have "drop 5 (CHR ''u'' # u @ t) = t" using assms(2) by (simp add: numeral_eq_Suc)
  moreover have "json_escape (CHR ''u'' # u @ t) = Some (utf8_encode r, 5)"
    using assms(1) unfolding json_escape_def if_not_P [OF assms(3)] by (simp add: if_not_P [OF assms(3)])
  moreover have "BACKSLASH \<noteq> QUOTE" by (simp add: QUOTE_def BACKSLASH_def)
  ultimately show ?thesis by (simp add: json_str.simps(2))
qed

lemma short_escapes:
  "short_escape QUOTE = Some QUOTE" "short_escape BACKSLASH = Some BACKSLASH"
  "short_escape (CHR ''b'') = Some (CHR 0x08)" "short_escape (CHR ''f'') = Some (CHR 0x0C)"
  "short_escape (CHR ''n'') = Some (CHR 0x0A)" "short_escape (CHR ''r'') = Some (CHR 0x0D)"
  "short_escape (CHR ''t'') = Some (CHR 0x09)"
  by (simp_all add: short_escape_def QUOTE_def BACKSLASH_def)

lemma json_str_fixed:
  "json_str (BACKSLASH # ''ufffd'' @ t) = map_option (apfst (append replacement)) (json_str t)"
  "json_str (BACKSLASH # ''u2028'' @ t) = map_option (apfst (append [CHR 0xE2, CHR 0x80, CHR 0xA8])) (json_str t)"
  "json_str (BACKSLASH # ''u2029'' @ t) = map_option (apfst (append [CHR 0xE2, CHR 0x80, CHR 0xA9])) (json_str t)"
proof -
  have hex: "hex4 (''fffd'' @ t) = Some 65533" "hex4 (''2028'' @ t) = Some 8232" "hex4 (''2029'' @ t) = Some 8233"
    by (simp_all add: hex4_def is_hex_def unhex_def is_digit_def byte_between_def)
  have "utf8_encode 65533 = replacement" "utf8_encode 8232 = [CHR 0xE2, CHR 0x80, CHR 0xA8]"
    "utf8_encode 8233 = [CHR 0xE2, CHR 0x80, CHR 0xA9]"
    by (simp_all add: utf8_encode_def replacement_def char_of_eq_iff take_bit_eq_mod)
  then show
    "json_str (BACKSLASH # ''ufffd'' @ t) = map_option (apfst (append replacement)) (json_str t)"
    "json_str (BACKSLASH # ''u2028'' @ t) = map_option (apfst (append [CHR 0xE2, CHR 0x80, CHR 0xA8])) (json_str t)"
    "json_str (BACKSLASH # ''u2029'' @ t) = map_option (apfst (append [CHR 0xE2, CHR 0x80, CHR 0xA9])) (json_str t)"
    using json_str_unicode [OF hex(1)] json_str_unicode [OF hex(2)] json_str_unicode [OF hex(3)]
    by (simp_all)
qed

lemma json_str_escape_byte:
  assumes "byte_between 0 c 0x7F"
  shows "json_str (escape_byte c @ t) = map_option (apfst (append [c])) (json_str t)"
proof (cases "c \<in> {QUOTE, BACKSLASH, CHR 0x08, CHR 0x09, CHR 0x0A, CHR 0x0C, CHR 0x0D}")
  case True
  have "QUOTE \<noteq> CHR ''u''" "BACKSLASH \<noteq> CHR ''u''" by (simp_all add: QUOTE_def BACKSLASH_def)
  then show ?thesis
    using True by (auto simp: escape_byte_def json_str_short short_escapes)
next
  case special: False
  show ?thesis
  proof (cases "of_char c < (32::nat) \<or> c = CHR ''<'' \<or> c = CHR ''>'' \<or> c = CHR ''&''")
    case True
    let ?u = "[CHR ''0'', CHR ''0'', hex_lower (of_char c div 16), hex_lower (of_char c mod 16)]"
    have n: "of_char c < (128::nat)" using assms by (simp add: byte_between_def)
    have "hex4 (?u @ t) = Some (of_char c)" using hex4_low [of "of_char c" t] n by simp
    from json_str_unicode [OF this] have "json_str (BACKSLASH # CHR ''u'' # ?u @ t)
        = map_option (apfst (append (utf8_encode (of_char c)))) (json_str t)"
      using n by simp
    moreover have "utf8_encode (of_char c) = [c]" using n by (simp add: utf8_encode_def)
    moreover have "escape_byte c @ t = BACKSLASH # CHR ''u'' # ?u @ t"
      using special True by (simp add: escape_byte_def)
    ultimately show ?thesis by (simp only:)
  next
    case False
    then have "escape_byte c = [c]" using special by (simp add: escape_byte_def)
    then show ?thesis
      using json_str_plain [of c t] special False assms by (simp add: not_less)
  qed
qed

lemma json_str_multi:
  assumes "utf8_len (c # s) = n" and "n \<noteq> 0" and "n \<noteq> 1"
  shows "json_str (take n (c # s) @ t) = map_option (apfst (append (take n (c # s)))) (json_str t)"
proof -
  have big: "128 \<le> (of_char c :: nat)" using utf8_len_multi assms by blast
  then have "c \<noteq> QUOTE" "c \<noteq> BACKSLASH" by (auto simp: QUOTE_def BACKSLASH_def)
  obtain k where n: "n = Suc k" using assms(2) by (cases n) auto
  have len: "utf8_len (c # take k s @ t) = n" using utf8_len_prefix [OF assms(1,2), of t] n by simp
  have k: "k \<le> length s" using utf8_len_le [of "c # s"] assms(1) n by simp
  then show ?thesis
    using len n big \<open>c \<noteq> QUOTE\<close> \<open>c \<noteq> BACKSLASH\<close> by (simp add: json_str.simps(2))
qed

lemma json_str_body: "json_str (json_body s @ QUOTE # t) = Some (to_valid s, t)"
proof (induction s rule: json_body.induct)
  case (2 c s)
  let ?n = "utf8_len (c # s)"
  let ?tail = "json_body (drop (?n - 1) s) @ QUOTE # t"
  note defs = json_body.simps(2) to_valid.simps(2)
  consider "?n = 0" | "?n = 1" | (ls) "take ?n (c # s) = [CHR 0xE2, CHR 0x80, CHR 0xA8]" "?n \<noteq> 0" "?n \<noteq> 1"
    | (ps) "take ?n (c # s) = [CHR 0xE2, CHR 0x80, CHR 0xA9]" "?n \<noteq> 0" "?n \<noteq> 1"
    | (multi) "take ?n (c # s) \<noteq> [CHR 0xE2, CHR 0x80, CHR 0xA8]" "take ?n (c # s) \<noteq> [CHR 0xE2, CHR 0x80, CHR 0xA9]"
        "?n \<noteq> 0" "?n \<noteq> 1" by blast
  then show ?case
  proof cases
    case 1
    then show ?thesis
      using "2.IH"(1) json_str_fixed(1) [of "json_body s @ QUOTE # t"] by (simp add: defs)
  next
    case 2
    then show ?thesis
      using "2.IH"(2) json_str_escape_byte [of c "json_body s @ QUOTE # t"]
      utf8_len_ascii [of c s] by (simp add: defs)
  next
    case ls
    then show ?thesis
      using "2.IH"(3) json_str_fixed(2) [of ?tail]
      by (simp add: defs del: take_Cons)
  next
    case ps
    then show ?thesis
      using "2.IH"(3) json_str_fixed(3) [of ?tail]
      by (simp add: defs del: take_Cons)
  next
    case multi
    then show ?thesis
      using "2.IH"(3) json_str_multi [OF refl multi(3,4), of ?tail]
      by (simp add: defs del: take_Cons)
  qed
qed (simp add: json_str.simps(2) QUOTE_def)

section \<open>Values\<close>

datatype json = JNull | JBool bool | JNum string | JStr string | JArr "json list" | JObj "(string \<times> json) list"

definition is_ws :: "char \<Rightarrow> bool" where
  "is_ws c \<longleftrightarrow> c = CHR '' '' \<or> c = CHR 0x09 \<or> c = CHR 0x0D \<or> c = CHR 0x0A"

abbreviation skip_ws :: "string \<Rightarrow> string" where
  "skip_ws \<equiv> dropWhile is_ws"

text \<open>A number: what follows it. One digit at least before and after each separator, no leading zero.\<close>

definition some_digits :: "string \<Rightarrow> string option" where
  "some_digits s = (case s of c # t \<Rightarrow> if is_digit c then Some (dropWhile is_digit t) else None | [] \<Rightarrow> None)"

definition number_int :: "string \<Rightarrow> string option" where
  "number_int s = (case s of c # t \<Rightarrow> if c = CHR ''0'' then Some t else some_digits s | [] \<Rightarrow> None)"

definition number_frac :: "string \<Rightarrow> string option" where
  "number_frac s = (case s of c # t \<Rightarrow> if c = CHR ''.'' then some_digits t else Some s | [] \<Rightarrow> Some s)"

definition number_exp :: "string \<Rightarrow> string option" where
  "number_exp s =
     (case s of c # t \<Rightarrow>
        if c = CHR ''e'' \<or> c = CHR ''E''
        then some_digits (case t of d # u \<Rightarrow> if d = CHR ''+'' \<or> d = CHR ''-'' then u else t | [] \<Rightarrow> t)
        else Some s
      | [] \<Rightarrow> Some s)"

definition json_number :: "string \<Rightarrow> (json \<times> string) option" where
  "json_number s =
     map_option (\<lambda>r. (JNum (take (length s - length r) s), r))
       (Option.bind (Option.bind (number_int (case s of c # t \<Rightarrow> if c = CHR ''-'' then t else s | [] \<Rightarrow> s))
          number_frac) number_exp)"

definition json_literal :: "string \<Rightarrow> (json \<times> string) option" where
  "json_literal s =
     (if has_prefix s ''true'' then Some (JBool True, drop 4 s)
      else if has_prefix s ''false'' then Some (JBool False, drop 5 s)
      else if has_prefix s ''null'' then Some (JNull, drop 4 s)
      else None)"

text \<open>
  A value at the start of a text, and what follows it; \<open>d\<close> more levels of nesting are allowed
  (\<open>maxNestingDepth\<close>). The elements of an array and the members of an object, after the opening
  bracket and white space, up to and with the closing one.
\<close>

fun json_value :: "nat \<Rightarrow> nat \<Rightarrow> string \<Rightarrow> (json \<times> string) option"
  and json_elems :: "nat \<Rightarrow> nat \<Rightarrow> string \<Rightarrow> (json list \<times> string) option"
  and json_members :: "nat \<Rightarrow> nat \<Rightarrow> string \<Rightarrow> ((string \<times> json) list \<times> string) option"
where
  "json_value 0 d s = None"
| "json_value (Suc n) d s =
     (case s of
        [] \<Rightarrow> None
      | c # t \<Rightarrow>
          if c = QUOTE then map_option (apfst JStr) (json_str t)
          else if c = CHR ''['' then
            (if d = 0 then None
             else if has_prefix (skip_ws t) '']'' then Some (JArr [], tl (skip_ws t))
             else map_option (apfst JArr) (json_elems n (d - 1) (skip_ws t)))
          else if c = CHR ''{'' then
            (if d = 0 then None
             else if has_prefix (skip_ws t) ''}'' then Some (JObj [], tl (skip_ws t))
             else map_option (apfst JObj) (json_members n (d - 1) (skip_ws t)))
          else if c = CHR ''-'' \<or> is_digit c then json_number s
          else json_literal s)"
| "json_elems 0 d s = None"
| "json_elems (Suc n) d s =
     (case json_value n d s of
        None \<Rightarrow> None
      | Some (v, t) \<Rightarrow>
          (case skip_ws t of
             [] \<Rightarrow> None
           | c # u \<Rightarrow>
               if c = CHR '']'' then Some ([v], u)
               else if c = CHR '','' then map_option (apfst ((#) v)) (json_elems n d (skip_ws u))
               else None))"
| "json_members 0 d s = None"
| "json_members (Suc n) d s =
     (if has_prefix s [QUOTE] then
        (case json_str (tl s) of
           None \<Rightarrow> None
         | Some (k, t) \<Rightarrow>
             if has_prefix (skip_ws t) '':'' then
               (case json_value n d (skip_ws (tl (skip_ws t))) of
                  None \<Rightarrow> None
                | Some (v, t) \<Rightarrow>
                    (case skip_ws t of
                       [] \<Rightarrow> None
                     | c # u \<Rightarrow>
                         if c = CHR ''}'' then Some ([(k, v)], u)
                         else if c = CHR '','' then map_option (apfst ((#) (k, v))) (json_members n d (skip_ws u))
                         else None))
             else None)
      else None)"

text \<open>\<open>json.Unmarshal\<close> up to the value: one value and white space around it.\<close>

definition maxNestingDepth :: nat where
  "maxNestingDepth = 10000"

definition json_parse_within :: "nat \<Rightarrow> string \<Rightarrow> json option" where
  "json_parse_within n s =
     (case json_value n maxNestingDepth (skip_ws s) of
        Some (v, t) \<Rightarrow> if skip_ws t = [] then Some v else None
      | None \<Rightarrow> None)"

definition json_parse :: "string \<Rightarrow> json option" where
  "json_parse s = json_parse_within (2 * length s + 2) s"

subsection \<open>Enough fuel\<close>

lemma json_escape_consumes: "json_escape s = Some (b, k) \<Longrightarrow> 0 < k"
  by (auto simp: json_escape_def split: list.splits if_splits option.splits)

lemma json_str_shorter: "json_str s = Some (v, t) \<Longrightarrow> length t < length s"
proof (induction s arbitrary: v t rule: json_str.induct)
  case (2 c s)
  from 2(4) show ?case
    using 2(1-3) by (fastforce simp: json_str.simps(2) split: if_splits option.splits prod.splits)
qed simp

lemma skip_ws_length: "length (skip_ws s) \<le> length s"
  by (rule length_dropWhile_le)

lemma some_digits_shorter: "some_digits s = Some t \<Longrightarrow> length t < length s"
  by (auto simp: some_digits_def less_Suc_eq_le length_dropWhile_le split: list.splits if_splits)

lemma json_number_shorter:
  assumes "json_number s = Some (v, t)"
  shows "length t < length s"
proof -
  let ?s = "case s of c # t \<Rightarrow> if c = CHR ''-'' then t else s | [] \<Rightarrow> s"
  obtain a b where a: "number_int ?s = Some a" and b: "number_frac a = Some b" and t: "number_exp b = Some t"
    using assms by (auto simp: json_number_def bind_eq_Some_conv)
  have "length a < length ?s"
    using a some_digits_shorter [of ?s a] by (auto simp: number_int_def split: list.splits if_splits)
  moreover have "length b \<le> length a"
    using b some_digits_shorter by (fastforce simp: number_frac_def split: list.splits if_splits)
  moreover have "length t \<le> length b"
    using t some_digits_shorter by (fastforce simp: number_exp_def split: list.splits if_splits)
  moreover have "length ?s \<le> length s"
    by (simp split: list.split)
  ultimately show ?thesis by linarith
qed

lemma json_literal_shorter: "json_literal s = Some (v, t) \<Longrightarrow> length t < length s"
  by (auto simp: json_literal_def has_prefix_iff split: if_splits)

lemma has_prefix_Cons_tl: "has_prefix s [c] \<Longrightarrow> s = c # tl s"
  by (cases s) auto

lemma skip_ws_le: "length t < n \<Longrightarrow> length (skip_ws t) < n"
  using skip_ws_length le_less_trans by blast

lemma json_shorter:
  "json_value n d s = Some (v, t) \<Longrightarrow> length t < length s"
  "json_elems n d s = Some (vs, t) \<Longrightarrow> length t < length s"
  "json_members n d s = Some (ms, t) \<Longrightarrow> length t < length s"
proof (induction n d s and n d s and n d s arbitrary: v t and vs t and ms t rule: json_value_json_elems_json_members.induct)
  case (2 n d s)
  show ?case
  proof (cases s)
    case (Cons c u)
    have "length (tl (skip_ws u)) \<le> length u"
      using skip_ws_length [of u] by (simp add: le_diff_conv trans_le_add1 length_tl)
    moreover have "length (skip_ws u) \<le> length u" by (rule skip_ws_length)
    ultimately show ?thesis
      using 2 Cons json_str_shorter [of u] json_number_shorter [of s] json_literal_shorter [of s]
      by (fastforce split: if_splits)
  qed (use 2 in simp)
next
  case (4 n d s)
  obtain v u where v: "json_value n d s = Some (v, u)" using 4(3) by (auto split: option.splits)
  then have "length u < length s" by (rule 4(1))
  moreover obtain c w where c: "skip_ws u = c # w" using 4(3) v by (auto split: list.splits)
  moreover have "length (skip_ws u) \<le> length u" "length (skip_ws w) \<le> length w" by (rule skip_ws_length)+
  ultimately show ?case
    using 4(3) v 4(2) [OF v refl c] by (fastforce split: if_splits)
next
  case (6 n d s)
  have q: "has_prefix s [QUOTE]" using 6(3) by (simp split: if_splits)
  then obtain k t1 where k: "json_str (tl s) = Some (k, t1)" and colon: "has_prefix (skip_ws t1) '':''"
    using 6(3) by (auto split: option.splits if_splits)
  then obtain v u where v: "json_value n d (skip_ws (tl (skip_ws t1))) = Some (v, u)"
    using 6(3) q by (auto split: option.splits)
  obtain c w where c: "skip_ws u = c # w" using 6(3) q k colon v by (auto split: list.splits)
  have "length t1 < length s" using json_str_shorter [OF k] by simp
  moreover have "length (skip_ws t1) \<le> length t1" "length (skip_ws (tl (skip_ws t1))) \<le> length (tl (skip_ws t1))"
    "length (skip_ws u) \<le> length u" "length (skip_ws w) \<le> length w" by (rule skip_ws_length)+
  moreover have "length u < length (skip_ws (tl (skip_ws t1)))"
    using 6(1) [OF q k refl colon v] .
  moreover have "length (tl (skip_ws t1)) \<le> length (skip_ws t1)" by simp
  ultimately show ?case
    using 6(3) q k colon v c 6(2) [OF q k refl colon v refl c] by (fastforce split: if_splits)
qed simp_all

lemma json_fuel_step:
  "(2 * length s + 1 \<le> n \<longrightarrow> json_value (Suc n) d s = json_value n d s)
   \<and> (2 * length s + 2 \<le> n \<longrightarrow> json_elems (Suc n) d s = json_elems n d s
        \<and> json_members (Suc n) d s = json_members n d s)"
proof (induction n arbitrary: s d)
  case (Suc n)
  have value_step: "2 * length t + 1 \<le> n \<Longrightarrow> json_value (Suc n) e t = json_value n e t"
    and elems_step: "2 * length t + 2 \<le> n \<Longrightarrow> json_elems (Suc n) e t = json_elems n e t"
    and members_step: "2 * length t + 2 \<le> n \<Longrightarrow> json_members (Suc n) e t = json_members n e t" for e t
    using Suc.IH by blast+
  show ?case
  proof (intro conjI impI)
    assume le: "2 * length s + 1 \<le> Suc n"
    show "json_value (Suc (Suc n)) d s = json_value (Suc n) d s"
    proof (cases s)
      case (Cons c t)
      then have "2 * length (skip_ws t) + 2 \<le> n" using le skip_ws_length [of t] by simp
      then show ?thesis
        using Cons elems_step [of "skip_ws t" "d - 1"] members_step [of "skip_ws t" "d - 1"]
        by (simp only: json_value.simps list.case)
    qed simp
  next
    assume le: "2 * length s + 2 \<le> Suc n"
    then have v: "json_value (Suc n) d s = json_value n d s" by (intro value_step) simp
    have rest: "json_elems (Suc n) d (skip_ws w) = json_elems n d (skip_ws w)"
      if "json_value n d s = Some (x, u)" and "skip_ws u = c # w" for x u c w
    proof (rule elems_step)
      have "length u < length s" by (rule json_shorter(1) [OF that(1)])
      then show "2 * length (skip_ws w) + 2 \<le> n"
        using le skip_ws_length [of u] skip_ws_length [of w] that(2) by simp
    qed
    show "json_elems (Suc (Suc n)) d s = json_elems (Suc n) d s"
      unfolding json_elems.simps v
      by (intro option.case_cong list.case_cong refl prod.case_cong if_cong) (use rest in auto)
  next
    assume le: "2 * length s + 2 \<le> Suc n"
    have v: "json_value (Suc n) d (skip_ws (tl (skip_ws t))) = json_value n d (skip_ws (tl (skip_ws t)))"
      if "json_str (tl s) = Some (k, t)" for k t
    proof (rule value_step)
      have "length t < length (tl s)" by (rule json_str_shorter [OF that])
      then show "2 * length (skip_ws (tl (skip_ws t))) + 1 \<le> n"
        using le skip_ws_length [of t] skip_ws_length [of "tl (skip_ws t)"] by simp
    qed
    have rest: "json_members (Suc n) d (skip_ws w) = json_members n d (skip_ws w)"
      if "json_str (tl s) = Some (k, t)" and "json_value n d (skip_ws (tl (skip_ws t))) = Some (x, u)"
        and "skip_ws u = c # w" for k t x u c w
    proof (rule members_step)
      have "length t < length (tl s)" by (rule json_str_shorter [OF that(1)])
      moreover have "length u < length (skip_ws (tl (skip_ws t)))" by (rule json_shorter(1) [OF that(2)])
      ultimately show "2 * length (skip_ws w) + 2 \<le> n"
        using le skip_ws_length [of t] skip_ws_length [of "tl (skip_ws t)"] skip_ws_length [of u]
          skip_ws_length [of w] that(3) by simp
    qed
    show "json_members (Suc (Suc n)) d s = json_members (Suc n) d s"
      unfolding json_members.simps
      by (intro option.case_cong list.case_cong refl prod.case_cong if_cong) (use v rest in auto)
  qed
qed simp

lemma json_fuel:
  assumes "2 * length s + 1 \<le> n"
  shows "json_value (n + k) d s = json_value n d s"
proof (induction k)
  case (Suc k)
  then show ?case using json_fuel_step [of s "n + k" d] assms by simp
qed simp

lemma json_parse_enough: "2 * length s + 2 \<le> n \<Longrightarrow> json_parse_within n s = json_parse s"
proof -
  assume n: "2 * length s + 2 \<le> n"
  then obtain k where "n = 2 * length s + 2 + k" using le_Suc_ex by blast
  moreover have "2 * length (skip_ws s) + 1 \<le> 2 * length s + 2" using skip_ws_length [of s] by simp
  ultimately show ?thesis by (simp only: json_parse_def json_parse_within_def json_fuel)
qed

end
