(* ===== verification/Cli_Transfer.thy ===== *)
theory Cli_Transfer
  imports Sample_Databases Go_Json
begin

text \<open>
  Whole commands in a row: what \<open>export\<close> wrote, read back by \<open>import\<close> into another database; and
  \<open>publish\<close> from its arguments to what readers are served.
\<close>

section \<open>Export, then import\<close>

text \<open>What the commands rely on: a dump lists what is served.\<close>

definition dump_law :: "'st dbs \<Rightarrow> string \<Rightarrow> bool" where
  "dump_law D path \<longleftrightarrow> (\<forall>s r s'. ar_dump (db_archive D path) s = (r, s') \<longrightarrow> s' = s
     \<and> (\<forall>ps. r = Inr ps \<longrightarrow> distinct (map p_uri ps)
          \<and> (\<forall>u p. served (db_store D path) s u = (p, None) \<longleftrightarrow> p \<in> set ps \<and> p_uri p = u)))"

text \<open>
  \<open>encoding/json\<close> on prompts: lines of objects without a NUL byte, read back one by one. Strings are
  written as valid UTF-8, each byte that is not replaced by U+FFFD.
\<close>

definition seen_prompt :: "prompt \<Rightarrow> prompt" where
  "seen_prompt p = \<lparr>p_uri = to_valid (p_uri p), p_template = to_valid (p_template p),
     p_slots = map to_valid (p_slots p), p_version_hash = to_valid (p_version_hash p)\<rparr>"

definition codec_law :: "(prompt \<Rightarrow> gerr + string) \<Rightarrow> (string \<Rightarrow> (gerr + prompt) list) \<Rightarrow> bool" where
  "codec_law encode decode \<longleftrightarrow> (\<forall>ps t. encode_all encode ps = (t, None) \<longrightarrow>
     decode t = map (\<lambda>p. Inr (seen_prompt p)) ps \<and> (t = '''' \<or> hd t = CHR ''{'') \<and> CHR 0x00 \<notin> set t)"

text \<open>A prompt as an import stores it.\<close>

definition reimported :: "'em lib \<Rightarrow> prompt \<Rightarrow> prompt" where
  "reimported L p =
     (let t = (case normalizeTemplate (p_template p) of Inr t \<Rightarrow> t | Inl _ \<Rightarrow> p_template p)
      in p\<lparr>p_template := t, p_version_hash := store_hash L t (p_slots p)\<rparr>)"

lemma import_check_all:
  "import_check L (map Inr ps) acc = Inr qs \<Longrightarrow>
     \<exists>rs. qs = acc @ rs \<and> map (\<lambda>q. q\<lparr>p_version_hash := store_hash L (p_template q) (p_slots q)\<rparr>) rs
        = map (reimported L) ps"
proof (induction ps arbitrary: acc)
  case (Cons p ps)
  from Cons.prems obtain t where t: "normalizeTemplate (p_template p) = Inr t"
    and rest: "import_check L (map Inr ps) (acc @ [p\<lparr>p_template := t\<rparr>]) = Inr qs"
    by (auto split: sum.splits option.splits)
  from Cons.IH [OF rest] obtain rs where "qs = (acc @ [p\<lparr>p_template := t\<rparr>]) @ rs"
    and "map (\<lambda>q. q\<lparr>p_version_hash := store_hash L (p_template q) (p_slots q)\<rparr>) rs = map (reimported L) ps"
    by blast
  then show ?case
    using t by (intro exI [of _ "p\<lparr>p_template := t\<rparr> # rs"]) (simp add: reimported_def)
qed simp

lemma commitMain_new:
  assumes "reads_pure st" and "fst (st_resolve st u (default_branch L) s) = Inl e"
    and "commitMain L st u t sl g s = (Inr wrote, s')"
  shows "wrote \<and> (\<exists>c. st_commit st u (default_branch L) t sl ''priompt'' g s = (Inr c, s'))"
  using assms(2,3) resolve_pure [OF assms(1), of u "default_branch L" s]
  by (auto simp: commitMain_def Let_def split: option.splits sum.splits prod.splits if_splits)

lemma import_write_serves:
  assumes "reads_pure st" and "resolve_contract L st" and "commit_contract L st"
    and "distinct (map p_uri ps)" and "\<forall>p\<in>set ps. isl (fst (st_resolve st (p_uri p) (default_branch L) s))"
    and "import_write L st ps n k s = ((n', k', None), s')"
  shows "(\<forall>p\<in>set ps. served st s' (p_uri p)
           = (p\<lparr>p_version_hash := store_hash L (p_template p) (p_slots p)\<rparr>, None))
       \<and> (\<forall>u. u \<notin> p_uri ` set ps \<longrightarrow> served st s' u = served st s u) \<and> n' = n + length ps \<and> k' = k"
  using assms(4-6)
proof (induction ps arbitrary: n k s)
  case (Cons p ps)
  obtain wrote s1 where c: "commitMain L st (p_uri p) (p_template p) (p_slots p) ''import'' s = (Inr wrote, s1)"
    and rest: "import_write L st ps (if wrote then n + 1 else n) (if wrote then k else k + 1) s1 = ((n', k', None), s')"
    using Cons.prems(3) by (auto split: prod.splits sum.splits if_splits)
  from Cons.prems(2) obtain e where "fst (st_resolve st (p_uri p) (default_branch L) s) = Inl e"
    by (auto simp: isl_def)
  from commitMain_new [OF assms(1) this c] obtain h where w: "wrote"
    and commit: "st_commit st (p_uri p) (default_branch L) (p_template p) (p_slots p) ''priompt'' ''import'' s = (Inr h, s1)"
    by blast
  have others: "fst (st_resolve st v (default_branch L) s1) = fst (st_resolve st v (default_branch L) s)"
    if "v \<noteq> p_uri p" for v
    using assms(2) commit that unfolding resolve_contract_def by blast
  have absent: "\<forall>q\<in>set ps. isl (fst (st_resolve st (p_uri q) (default_branch L) s1))"
  proof
    fix q assume q: "q \<in> set ps"
    have "p_uri p \<notin> p_uri ` set ps" using Cons.prems(1) by simp
    then have "p_uri q \<noteq> p_uri p" using imageI [OF q, of p_uri] by metis
    with q Cons.prems(2) others show "isl (fst (st_resolve st (p_uri q) (default_branch L) s1))" by simp
  qed
  note IH = Cons.IH [OF _ absent rest]
  note now = commit_contractD [OF assms(3) commit]
  show ?case
    using IH Cons.prems(1) now w by auto
qed auto

lemma transfer_flags:
  "parse_args (stream_flags ''out'') [''-db'', a, ''-out'', f] = give [(''db'', StringFlag a), (''out'', StringFlag f)]"
  "parse_args (stream_flags ''in'') [''-db'', a, ''-in'', f] = give [(''db'', StringFlag a), (''in'', StringFlag f)]"
  by (simp_all add: parse_args_def stream_flags_def parse_flags.simps(2) cut_equals_def assign_def)

lemma export_writes:
  assumes "export_cmd D encode [''-db'', a, ''-out'', f] (h, s) = (Inr (), (h1, s1))" and "f \<noteq> ''-''"
  obtains ps t s0 where "db_open D a s = (None, s0)" and "ar_dump (db_archive D a) s0 = (Inr ps, s1)"
    and "encode_all encode ps = (t, None)" and "h_files h1 f = Inr t"
proof -
  note flags = transfer_flags(1)
  obtain s0 where o: "db_open D a s = (None, s0)"
    using assms unfolding export_cmd_def flags open_db_def
    by (cases "db_open D a s"; cases "fst (db_open D a s)")
       (auto simp: flag_string_def failing_def outside_def seq_def)
  obtain ps s2 where d: "ar_dump (db_archive D a) s0 = (Inr ps, s2)"
    using assms o unfolding export_cmd_def flags open_db_def
    by (cases "ar_dump (db_archive D a) s0"; cases "fst (ar_dump (db_archive D a) s0)")
       (auto simp: flag_string_def failing_def outside_def seq_def)
  obtain t r where e: "encode_all encode ps = (t, r)" by (cases "encode_all encode ps")
  have "s2 = s1" "r = None" "h_files h1 f = Inr t"
    using assms o d e unfolding export_cmd_def flags open_db_def
    by (auto simp: flag_string_def failing_def outside_def seq_def write_stream_def create_write_def die_def
        log_err_def give_def split: option.splits)
  with that o d e show ?thesis by blast
qed

lemma import_reads:
  assumes "import_cmd L D decode [''-db'', b, ''-in'', f] (h, s) = (Inr (), (h1, s1))" and "f \<noteq> ''-''"
    and "h_files h f = Inr t"
  obtains n k s0 where "db_open D b s = (None, s0)"
    and "importPrompts L (db_store D b) decode t s0 = ((n, k, None), s1)"
    and "h_stdout h1 = h_stdout h @ ''imported '' @ nat_digits n @ '' prompts, '' @ nat_digits k @ import_note @ [LF]"
proof -
  note flags = transfer_flags(2)
  obtain s0 where o: "db_open D b s = (None, s0)"
    using assms unfolding import_cmd_def flags open_db_def
    by (cases "db_open D b s"; cases "fst (db_open D b s)")
       (auto simp: flag_string_def failing_def outside_def seq_def open_input_def ask_def give_def)
  obtain n k err s2 where i: "importPrompts L (db_store D b) decode t s0 = ((n, k, err), s2)"
    by (metis prod_cases3 surj_pair)
  have "err = None" "s2 = s1"
    "h_stdout h1 = h_stdout h @ ''imported '' @ nat_digits n @ '' prompts, '' @ nat_digits k @ import_note @ [LF]"
    using assms o i unfolding import_cmd_def flags open_db_def
    by (auto simp: flag_string_def failing_def outside_def seq_def open_input_def ask_def give_def read_all_def
        die_def out_def split: option.splits)
  with that o i show ?thesis by blast
qed

lemma importPrompts_of_export:
  assumes "codec_law encode decode" and "encode_all encode ps = (t, None)"
    and "importPrompts L st decode t s = ((n, k, None), s')"
  obtains qs where "import_write L st qs 0 0 s = ((n, k, None), s')"
    and "map (\<lambda>q. q\<lparr>p_version_hash := store_hash L (p_template q) (p_slots q)\<rparr>) qs = map (reimported L \<circ> seen_prompt) ps"
proof -
  have t: "decode t = map Inr (map seen_prompt ps)" "t = '''' \<or> hd t = CHR ''{''" "CHR 0x00 \<notin> set t"
    using assms(1,2) unfolding codec_law_def by (fastforce simp: comp_def)+
  have "CHR 0x00 \<notin> set (take 3 t)" using t(3) in_set_takeD by fastforce
  then have head: "take 3 t \<noteq> utf8BOM" "\<exists>x. normalizeTemplate (take 3 t) = Inr x"
    using t(2) by (cases t; auto simp: utf8BOM_def normalizeTemplate_def)+
  then have "import_check L (map Inr (map seen_prompt ps)) [] = Inr qs \<Longrightarrow> import_write L st qs 0 0 s = ((n, k, None), s')" for qs
    using assms(3) t(1) by (auto simp: importPrompts_def Let_def)
  moreover obtain qs where "import_check L (map Inr (map seen_prompt ps)) [] = Inr qs"
    using assms(3) t(1) head by (auto simp: importPrompts_def Let_def split: sum.splits)
  ultimately show ?thesis using that import_check_all [of L "map seen_prompt ps" "[]" qs] by (simp only: map_map append_Nil) blast
qed

lemma reimported_plain:
  assumes "valid_utf8 (p_uri p)" and "valid_utf8 (p_template p)" and "\<forall>x \<in> set (p_slots p). valid_utf8 x"
    and "CR \<notin> set (p_template p)" and "\<not> has_prefix (p_template p) utf8BOM"
    and "p_version_hash p = store_hash L (p_template p) (p_slots p)"
  shows "reimported L (seen_prompt p) = p"
proof -
  have "map to_valid (p_slots p) = p_slots p" using assms(3) by (simp add: map_idI to_valid_id)
  then show ?thesis
    using assms by (auto simp: seen_prompt_def to_valid_id reimported_def normalizeTemplate_def Let_def trim_prefix_id crlf_to_lf_no_CR)
qed

text \<open>
  C12. An export carries what is served to another database. When \<open>export\<close> of one database, whose
  addresses are valid UTF-8, and \<open>import\<close> of the file it wrote into another, which has no main branch at
  any of the addresses, both end without an error, every address the first served is served by the
  second, which serves every other address as before. The prompt is the same, with three reservations:
  its version hash is computed again; a byte order mark and CRLF line ends are lost; and bytes of its
  text or slots that are no UTF-8, which JSON cannot carry, come out as U+FFFD.
\<close>

theorem export_import_roundtrip:
  assumes "open_law D" and "dump_law D a" and "reads_pure (db_store D b)"
    and "resolve_contract L (db_store D b)" and "commit_contract L (db_store D b)"
    and "codec_law encode decode" and "f \<noteq> ''-''"
    and "\<forall>u p. served (db_store D a) s u = (p, None) \<longrightarrow>
           valid_utf8 u \<and> isl (fst (st_resolve (db_store D b) u (default_branch L) s))"
    and "export_cmd D encode [''-db'', a, ''-out'', f] (h, s) = (Inr (), (h1, s1))"
    and "import_cmd L D decode [''-db'', b, ''-in'', f] (h1, s1) = (Inr (), (h2, s2))"
  shows "(\<forall>u p. served (db_store D a) s u = (p, None) \<longrightarrow>
            served (db_store D b) s2 u = (reimported L (seen_prompt p), None)
          \<and> (valid_utf8 (p_template p) \<and> (\<forall>x \<in> set (p_slots p). valid_utf8 x)
             \<and> CR \<notin> set (p_template p) \<and> \<not> has_prefix (p_template p) utf8BOM
             \<and> p_version_hash p = store_hash L (p_template p) (p_slots p) \<longrightarrow> reimported L (seen_prompt p) = p))
       \<and> (\<forall>u. (\<nexists>p. served (db_store D a) s u = (p, None)) \<longrightarrow>
            served (db_store D b) s2 u = served (db_store D b) s u)"
proof -
  obtain ps t s0 where e: "db_open D a s = (None, s0)" "ar_dump (db_archive D a) s0 = (Inr ps, s1)"
    "encode_all encode ps = (t, None)" "h_files h1 f = Inr t"
    using export_writes [OF assms(9,7)] by metis
  obtain n k s3 where i: "db_open D b s1 = (None, s3)" "importPrompts L (db_store D b) decode t s3 = ((n, k, None), s2)"
    using import_reads [OF assms(10,7) e(4)] by metis
  have s1: "s1 = s0" and dist: "distinct (map p_uri ps)"
    and dump: "\<And>u p. served (db_store D a) s u = (p, None) \<longleftrightarrow> p \<in> set ps \<and> p_uri p = u"
    using assms(1,2) e(1,2) unfolding dump_law_def open_law_def by metis+
  have keep: "served (db_store D b) s3 u = served (db_store D b) s u"
    "fst (st_resolve (db_store D b) u r s3) = fst (st_resolve (db_store D b) u r s)" for u r
    using assms(1) e(1) i(1) s1 unfolding open_law_def by metis+
  obtain qs where w: "import_write L (db_store D b) qs 0 0 s3 = ((n, k, None), s2)"
    and qs: "map (\<lambda>q. q\<lparr>p_version_hash := store_hash L (p_template q) (p_slots q)\<rparr>) qs = map (reimported L \<circ> seen_prompt) ps"
    by (rule importPrompts_of_export [OF assms(6) e(3) i(2)])
  have valid: "valid_utf8 (p_uri p)" if "p \<in> set ps" for p using that dump assms(8) by blast
  then have kept: "map (p_uri \<circ> seen_prompt) ps = map p_uri ps" by (simp add: seen_prompt_def to_valid_id)
  have uris: "map p_uri qs = map p_uri ps"
    using arg_cong [OF qs, of "map p_uri"] kept by (simp add: reimported_def Let_def comp_def)
  then have names: "p_uri ` set qs = p_uri ` set ps" by (metis list.set_map)
  have "\<forall>q\<in>set qs. isl (fst (st_resolve (db_store D b) (p_uri q) (default_branch L) s3))"
  proof
    fix q assume "q \<in> set qs"
    then have "p_uri q \<in> p_uri ` set ps" using names by blast
    then show "isl (fst (st_resolve (db_store D b) (p_uri q) (default_branch L) s3))"
      using assms(8) dump keep by fastforce
  qed
  note written = import_write_serves [OF assms(3-5) _ this w]
  have now: "served (db_store D b) s2 (p_uri p) = (reimported L (seen_prompt p), None)" if p: "p \<in> set ps" for p
  proof -
    have "reimported L (seen_prompt p) \<in> (\<lambda>q. q\<lparr>p_version_hash := store_hash L (p_template q) (p_slots q)\<rparr>) ` set qs"
      using arg_cong [OF qs, of set] p by (simp add: image_iff) blast
    then obtain q where q: "q \<in> set qs"
      "reimported L (seen_prompt p) = q\<lparr>p_version_hash := store_hash L (p_template q) (p_slots q)\<rparr>" by blast
    have "p_uri q = p_uri p" using arg_cong [OF q(2), of p_uri] to_valid_id [OF valid [OF p]]
      by (simp add: reimported_def seen_prompt_def Let_def)
    then show ?thesis using written q dist uris by metis
  qed
  have other: "served (db_store D b) s2 u = served (db_store D b) s u"
    if "\<nexists>p. served (db_store D a) s u = (p, None)" for u
  proof -
    have "u \<notin> p_uri ` set qs" using that dump unfolding names by blast
    then show ?thesis using written dist uris keep by simp
  qed
  show ?thesis
  proof (intro conjI allI impI)
    fix u p assume "served (db_store D a) s u = (p, None)"
    then have p: "p \<in> set ps" "p_uri p = u" using dump by blast+
    then show "served (db_store D b) s2 u = (reimported L (seen_prompt p), None)" using now by blast
    show "reimported L (seen_prompt p) = p" if "valid_utf8 (p_template p) \<and> (\<forall>x \<in> set (p_slots p). valid_utf8 x)
       \<and> CR \<notin> set (p_template p) \<and> \<not> has_prefix (p_template p) utf8BOM
       \<and> p_version_hash p = store_hash L (p_template p) (p_slots p)"
      using reimported_plain [OF valid [OF p(1)]] that by blast
  qed (rule other)
qed

lemma sample_open_law: "open_law sample_dbs"
  by (simp add: open_law_def)

lemma sample_dump_law: "dump_law sample_dbs path"
proof -
  have "served sample_ops x u = (p, None) \<longleftrightarrow> p \<in> set (dump_heads x) \<and> p_uri p = u" for x u p
  proof (cases "find_head u x")
    case None
    then have "p \<in> set (dump_heads x) \<Longrightarrow> p_uri p \<noteq> u" by (auto simp: in_dump_heads)
    with None show ?thesis by (auto simp: served_sample)
  next
    case (Some q)
    with find_head_uri [OF Some] show ?thesis by (auto simp: served_sample in_dump_heads)
  qed
  then show ?thesis by (simp add: dump_law_def dump_heads_uris)
qed

text \<open>A codec of one prompt, and a file server for two databases.\<close>

definition acme_prompt :: prompt where
  "acme_prompt = \<lparr>p_uri = acme_uri, p_template = ''v1'', p_slots = [], p_version_hash = sample_hash ''v1'' []\<rparr>"

definition one_encode :: "prompt \<Rightarrow> gerr + string" where
  "one_encode p = (if p = acme_prompt then Inr ''{}'' else Inl (Gerr [] ''json''))"

definition one_decode :: "string \<Rightarrow> (gerr + prompt) list" where
  "one_decode t = replicate (length t div 2) (Inr acme_prompt)"

lemma acme_prompt_valid: "valid_utf8 acme_uri" "seen_prompt acme_prompt = acme_prompt"
  by (simp_all add: seen_prompt_def acme_prompt_def acme_uri_def sample_hash_def to_valid_id utf8_len.simps byte_between_def)

lemma one_codec_law: "codec_law one_encode one_decode"
proof -
  have "length t = 2 * length ps \<and> replicate (length ps) (Inr acme_prompt :: gerr + prompt) = map (\<lambda>p. Inr (seen_prompt p)) ps
      \<and> CHR 0x00 \<notin> set t \<and> (t = '''' \<or> hd t = CHR ''{'')"
    if "encode_all one_encode ps = (t, None)" for ps t
    using that
  proof (induction ps arbitrary: t)
    case (Cons p ps)
    obtain r ts where e: "encode_all one_encode ps = (ts, r)" by (metis surj_pair)
    have p: "p = acme_prompt" using Cons.prems by (cases "p = acme_prompt") (simp_all add: one_encode_def)
    then have "one_encode p = Inr ''{}''" by (simp add: one_encode_def)
    then have ts: "encode_all one_encode ps = (ts, None)" "t = ''{}'' @ ts" "p = acme_prompt"
      using Cons.prems e p by simp_all
    from Cons.IH [OF ts(1)] show ?case by (simp add: ts(2,3) acme_prompt_valid)
  qed simp
  then show ?thesis unfolding codec_law_def one_decode_def by simp
qed

abbreviation two_databases :: "string \<Rightarrow> sample_store" where
  "two_databases \<equiv> (\<lambda>_. sample_empty)(''a'' := \<lparr>s_heads = [acme_prompt], s_refs = [], s_commits = []\<rparr>)"

theorem export_import_roundtrip_witness:
  "\<exists>w1 w2. export_cmd sample_dbs one_encode [''-db'', ''a'', ''-out'', ''f''] (sample_host, two_databases) = (Inr (), w1)
     \<and> import_cmd sample_lib sample_dbs one_decode [''-db'', ''b'', ''-in'', ''f''] w1 = (Inr (), w2)
     \<and> served (db_store sample_dbs ''b'') (snd w2) acme_uri = (acme_prompt, None)"
proof -
  let ?h1 = "sample_host\<lparr>h_files := (h_files sample_host)(''f'' := Inr ''{}''), h_stderr := [(export_note, [''1''])]\<rparr>"
  have dump: "dump_heads (two_databases ''a'') = [acme_prompt]"
    by (simp add: dump_heads_def find_head_def)
  have exp: "export_cmd sample_dbs one_encode [''-db'', ''a'', ''-out'', ''f''] (sample_host, two_databases)
      = (Inr (), (?h1, two_databases))"
    unfolding export_cmd_def transfer_flags
    using dump by (simp add: Let_def open_db_def flag_string_def failing_def outside_def seq_def write_stream_def create_write_def
        give_def log_err_def one_encode_def sample_host_def nat_digits.simps)
  have check: "import_check sample_lib (one_decode ''{}'') [] = Inr [acme_prompt]"
    by (simp add: one_decode_def acme_prompt_def normalizeTemplate_def trim_prefix_def utf8BOM_def)
  have none: "find_ref u b sample_empty = None" "find_commit h sample_empty = None" for u b h
    by (simp_all add: find_ref_def find_commit_def sample_empty_def)
  have imported: "\<exists>s2. importPrompts sample_lib (store_at ''b'' sample_ops) one_decode ''{}'' two_databases = ((1, 0, None), s2)"
    using check none
    by (simp add: importPrompts_def Let_def normalizeTemplate_def trim_prefix_def utf8BOM_def commitMain_def store_at_def
        at_path_def sample_resolve_def find_tip_def not_found_def sample_commit_def acme_prompt_def)
  then obtain s2 where s2: "importPrompts sample_lib (store_at ''b'' sample_ops) one_decode ''{}'' two_databases
      = ((1, 0, None), s2)" by blast
  have imp: "\<exists>h2. import_cmd sample_lib sample_dbs one_decode [''-db'', ''b'', ''-in'', ''f''] (?h1, two_databases)
      = (Inr (), (h2, s2))"
    unfolding import_cmd_def transfer_flags
    using s2 by (simp add: Let_def open_db_def flag_string_def failing_def outside_def seq_def open_input_def ask_def give_def
        read_all_def out_def)
  then obtain h2 where imp: "import_cmd sample_lib sample_dbs one_decode [''-db'', ''b'', ''-in'', ''f''] (?h1, two_databases)
      = (Inr (), (h2, s2))" by blast
  have laws: "reads_pure (db_store sample_dbs ''b'')" "commit_contract sample_lib (db_store sample_dbs ''b'')"
    "resolve_contract sample_lib (db_store sample_dbs ''b'')"
    using store_contractD [OF sample_store_contract] sample_resolve_contract
    by (simp_all add: reads_pure_store_at commit_contract_store_at resolve_contract_store_at)
  have "find_head u (two_databases ''a'') = Some p \<Longrightarrow> u = acme_uri" for u p
    by (simp add: find_head_def acme_prompt_def split: if_splits)
  then have absent: "\<forall>u p. served (db_store sample_dbs ''a'') two_databases u = (p, None)
      \<longrightarrow> valid_utf8 u \<and> isl (fst (st_resolve (db_store sample_dbs ''b'') u (default_branch sample_lib) two_databases))"
    using none acme_prompt_valid(1) by (auto simp: sample_resolve_def find_tip_def served_sample split: option.splits)
  have "served (db_store sample_dbs ''a'') two_databases acme_uri = (acme_prompt, None)"
    by (simp add: served_sample find_head_def acme_prompt_def)
  with export_import_roundtrip [OF sample_open_law sample_dump_law laws(1,3,2) one_codec_law _ absent exp imp]
  have "served (db_store sample_dbs ''b'') s2 acme_uri = (reimported sample_lib (seen_prompt acme_prompt), None)" by blast
  moreover have "reimported sample_lib acme_prompt = acme_prompt"
    by (simp add: Let_def reimported_def acme_prompt_def normalizeTemplate_def trim_prefix_def utf8BOM_def)
  ultimately show ?thesis using exp imp acme_prompt_valid(2) by (metis snd_conv)
qed

section \<open>publish, from its arguments to its readers\<close>

definition publish_args :: "string \<Rightarrow> string \<Rightarrow> string \<Rightarrow> string list \<Rightarrow> string list" where
  "publish_args addr uri file slots =
     [''-addr'', addr, ''-uri'', uri, ''-file'', file] @ concat (map (\<lambda>v. [''-slot'', v]) slots)"

lemma parse_publish_args:
  obtains fs where "parse_flags (publish_flags addr0) (publish_args addr uri file slots) = Inr (fs, [])"
    and "flag_string fs ''addr'' = addr" "flag_string fs ''uri'' = uri" "flag_string fs ''file'' = file"
    and "flag_list fs ''slot'' = slots" "\<not> flag_bool fs ''tls''"
proof -
  let ?fs = "\<lambda>sl. [(''addr'', StringFlag addr), (''tls'', BoolFlag False), (''ca-cert'', StringFlag ''''),
      (''cert'', StringFlag ''''), (''key'', StringFlag ''''), (''uri'', StringFlag uri), (''file'', StringFlag file),
      (''slot'', ListFlag sl)]"
  have first: "parse_flags (publish_flags addr0) (publish_args addr uri file slots)
      = parse_flags (?fs []) (concat (map (\<lambda>v. [''-slot'', v]) slots))"
    by (simp add: publish_flags_def conn_flags_def publish_args_def parse_flags.simps(2) cut_equals_def assign_def)
  have "parse_flags (?fs []) (concat (map (\<lambda>v. [CHR ''-'' # ''slot'', v]) slots) @ []) = Inr (?fs slots, [])"
  proof (cases "slots = []")
    case False
    have ok: "flag_name_ok ''slot''" "map_of (?fs []) ''slot'' = Some (ListFlag [])" by (simp_all add: flag_name_ok_def)
    show ?thesis unfolding parse_list_flag [OF ok False] by (simp add: assign_def)
  qed simp
  with first have "parse_flags (publish_flags addr0) (publish_args addr uri file slots) = Inr (?fs slots, [])"
    by simp
  then show ?thesis
    by (rule that) (simp_all add: flag_string_def flag_list_def flag_bool_def)
qed

text \<open>
  What the command does of any arguments that parse: the file it reads, the connection it opens and
  the call it makes.
\<close>

abbreviation flags_creds :: "('crt, 'pool, 'w) net \<Rightarrow> host \<Rightarrow> flag_set \<Rightarrow> gerr + ('crt, 'pool) tls_config option" where
  "flags_creds N h fs \<equiv> dial_creds (net_pem N) h (flag_bool fs ''tls'')
     (flag_string fs ''ca-cert'') (flag_string fs ''cert'') (flag_string fs ''key'')"

abbreviation flags_publish :: "flag_set \<Rightarrow> string \<Rightarrow> publish_req" where
  "flags_publish fs t \<equiv> \<lparr>pq_uri = flag_string fs ''uri'', pq_template = t, pq_slots = flag_list fs ''slot'',
     pq_message = '''', pq_branch = ''''\<rparr>"

lemma publish_cmd_runs:
  fixes N :: "('crt, 'pool, 'w) net"
  assumes "envHost (getenv (h_environ h) ''PRIOMPT_URL'') = Inr addr0"
    and "parse_flags (publish_flags addr0) args = Inr (fs, rest)"
    and "publish_cmd N args (h, w) = (Inr (), (h', w'))"
  obtains b t creds conn auth line where "read_all h (flag_string fs ''file'') = Inr b" and "normalizeTemplate b = Inr t"
    and "flags_creds N h fs = Inr creds" and "net_dial N (flag_string fs ''addr'') creds = Inr conn"
    and "authCtx (getenv (h_environ h) ''PRIOMPT_TOKEN'') (getenv (h_environ h) ''PRIOMPT_URL'') = Inr auth"
    and "publishPrompt (prompt_client.truncate (conn auth)) (flags_publish fs t) w = (Some (Inr line), w')"
    and "h_stdout h' = h_stdout h @ line @ [LF]"
proof -
  have parsed: "parse_args (publish_flags addr0) args = (give fs :: (flag_set, 'w) cmd)"
    by (simp add: parse_args_Inr [OF assms(2)])
  have uri: "flag_string fs ''uri'' \<noteq> ''''"
    using assms(1,3) parsed by (auto simp: publish_cmd_def env_host_def os_env_def seq_assoc die_def)
  then have run: "seq (readTemplate (flag_string fs ''file'')) (\<lambda>template.
       seq (connect_cmd N fs) (\<lambda>cl.
       seq (outside (\<lambda>w. case publishPrompt (prompt_client.truncate cl) (flags_publish fs template) w of
              (None, w') \<Rightarrow> (Inl (Fatal ''panic: slice bounds out of range'' []), w')
            | (Some (Inl e), w') \<Rightarrow> (Inl (rpc_fatal e), w')
            | (Some (Inr line), w') \<Rightarrow> (Inr line, w'))) (\<lambda>line. out (line @ [LF])))) (h, w) = (Inr (), (h', w'))"
    using assms(1,3) parsed by (simp add: publish_cmd_def env_host_def os_env_def seq_assoc)
  obtain b t where b: "read_all h (flag_string fs ''file'') = Inr b" "normalizeTemplate b = Inr t"
    using run by (cases "read_all h (flag_string fs ''file'')"; cases "normalizeTemplate (projr (read_all h (flag_string fs ''file'')))")
      (auto simp: readTemplate_def seq_assoc die_def seq_def ask_def give_def)
  obtain creds where creds: "flags_creds N h fs = Inr creds"
    using run b by (cases "flags_creds N h fs")
      (auto simp: readTemplate_def connect_cmd_def dial_def seq_assoc seq_def ask_def give_def die_def)
  obtain conn where conn: "net_dial N (flag_string fs ''addr'') creds = Inr conn"
    using run b creds by (cases "net_dial N (flag_string fs ''addr'') creds")
      (auto simp: readTemplate_def connect_cmd_def dial_def seq_assoc seq_def ask_def give_def die_def)
  obtain auth where auth: "authCtx (getenv (h_environ h) ''PRIOMPT_TOKEN'') (getenv (h_environ h) ''PRIOMPT_URL'') = Inr auth"
    using run b creds conn by (cases "authCtx (getenv (h_environ h) ''PRIOMPT_TOKEN'') (getenv (h_environ h) ''PRIOMPT_URL'')")
      (auto simp: readTemplate_def connect_cmd_def dial_def auth_ctx_def os_env_def seq_assoc seq_def ask_def give_def die_def)
  show ?thesis
    using run that [OF b creds conn auth] b creds conn auth
    by (auto simp: readTemplate_def connect_cmd_def dial_def auth_ctx_def os_env_def seq_assoc seq_def ask_def give_def die_def
        outside_def out_def split: prod.splits option.splits sum.splits)
qed

text \<open>A line that was printed is one of two, by whether the read before the publish had its version.\<close>

lemma publishPrompt_server:
  assumes "publishPrompt (server_client L S ctx) q w = (Some (Inr line), w')"
  obtains cur w1 v where "GetPrompt L S ctx \<lparr>gq_uri = pq_uri q, gq_ref = ''''\<rparr> w = (cur, w1)"
    and "PublishPrompt L S ctx q w1 = (Inr v, w')"
    and "line = (if \<exists>r. cur = Inr r \<and> g_version_hash r = v then unchanged_line else published_line) (pq_uri q) (take 12 v)"
  using assms
  by (auto simp: publishPrompt_def server_client_def Let_def slice_to_def split: prod.splits sum.splits if_splits)

lemma lines_differ: "unchanged_line u x \<noteq> published_line u' y"
  by (simp add: unchanged_line_def published_line_def)

lemma published_may_write:
  assumes "PublishPrompt L S ctx q w = (Inr v, w')"
  shows "may_write L ctx (pq_uri q)" and "validate_prompt L (pq_uri q) (pq_template q) (pq_slots q) = None"
  using assms by (auto simp: PublishPrompt_def may_write_def split: option.splits)

text \<open>
  C19. \<open>priompt publish\<close> publishes the file it is given. Take any arguments of the command, and a server
  at the address they name that takes whoever connects with the credentials \<open>creds\<close> and the token
  \<open>a\<close> for the caller \<open>who creds a\<close>. When the command ends without an error, it has connected with the
  transport credentials its flags ask for and the token of the environment, read the served version,
  and as that caller published the content of the file in its normal form with the slots given, so that
  every reader of the prompt's org is answered exactly that; and the one line printed says
  \<open>unchanged\<close> if that read had the published version and \<open>published\<close> otherwise. If the server's cache
  was coherent then, and the prompt could be read or is new, the line is true: the server has sent no
  event in the one case, and in the other one event, of that version and its verdict.
\<close>

theorem publish_command_publishes_the_file:
  assumes "l2_cache K view" and "sv_cache S = Some K" and "store_contract L (sv_store S)" and "sv_notifier S = Some n"
    and "envHost (getenv (h_environ h) ''PRIOMPT_URL'') = Inr addr0"
    and "parse_flags (publish_flags addr0) args = Inr (fs, rest)"
    and "\<forall>creds conn a. net_dial N (flag_string fs ''addr'') creds = Inr conn
           \<longrightarrow> prompt_client.truncate (conn a) = server_client L S (who creds a)"
    and "\<forall>t p. map_sum id normalizeTemplate (read_all h (flag_string fs ''file'')) = Inr (Inr t)
           \<and> served (sv_store S) (w_store w) (flag_string fs ''uri'') = (p, None)
           \<and> p_version_hash p = store_hash L t (flag_list fs ''slot'')
         \<longrightarrow> p_uri p = flag_string fs ''uri'' \<and> p_template p = t \<and> p_slots p = flag_list fs ''slot''"
    and "publish_cmd N args (h, w) = (Inr (), (h', w'))"
  shows "\<exists>b t creds a cur w1 v. read_all h (flag_string fs ''file'') = Inr b \<and> normalizeTemplate b = Inr t
    \<and> flags_creds N h fs = Inr creds
    \<and> authCtx (getenv (h_environ h) ''PRIOMPT_TOKEN'') (getenv (h_environ h) ''PRIOMPT_URL'') = Inr a
    \<and> GetPrompt L S (who creds a) \<lparr>gq_uri = flag_string fs ''uri'', gq_ref = ''''\<rparr> w = (cur, w1)
    \<and> PublishPrompt L S (who creds a) (flags_publish fs t) w1 = (Inr v, w')
    \<and> (\<forall>reader. InScope L reader (flag_string fs ''uri'') \<longrightarrow>
         fst (GetPrompt L S reader \<lparr>gq_uri = flag_string fs ''uri'', gq_ref = ''''\<rparr> w')
         = Inr \<lparr>g_uri = flag_string fs ''uri'', g_template = t, g_slots = flag_list fs ''slot'', g_version_hash = v,
                g_commit_hash = ''''\<rparr>)
    \<and> (let known = \<exists>r. cur = Inr r \<and> g_version_hash r = v;
           uri = flag_string fs ''uri'';
           now = served (sv_store S) (w_store w) uri
       in h_stdout h' = h_stdout h @ (if known then unchanged_line else published_line) uri (take 12 v) @ [LF]
        \<and> (coherent L (sv_store S) view w \<and> ((\<exists>r. cur = Inr r) \<or> snd now \<noteq> None) \<longrightarrow>
             w_notif w' = (if known then w_notif w else snd (n_publish n uri v (publish_class L S now t) (w_notif w)))))"
proof -
  obtain b t creds conn a line where b: "read_all h (flag_string fs ''file'') = Inr b" "normalizeTemplate b = Inr t"
    and creds: "flags_creds N h fs = Inr creds" "net_dial N (flag_string fs ''addr'') creds = Inr conn"
    and a: "authCtx (getenv (h_environ h) ''PRIOMPT_TOKEN'') (getenv (h_environ h) ''PRIOMPT_URL'') = Inr a"
    and run: "publishPrompt (prompt_client.truncate (conn a)) (flags_publish fs t) w = (Some (Inr line), w')"
    and printed: "h_stdout h' = h_stdout h @ line @ [LF]"
    using publish_cmd_runs [OF assms(5,6,9)] .
  let ?q = "flags_publish fs t" let ?u = "flag_string fs ''uri''" let ?ctx = "who creds a"
  have "publishPrompt (server_client L S ?ctx) ?q w = (Some (Inr line), w')"
    using run assms(7) creds(2) by simp
  note run = this
  obtain cur w1 v where get: "GetPrompt L S ?ctx \<lparr>gq_uri = ?u, gq_ref = ''''\<rparr> w = (cur, w1)"
    and pub: "PublishPrompt L S ?ctx ?q w1 = (Inr v, w')"
    and line: "line = (if \<exists>r. cur = Inr r \<and> g_version_hash r = v then unchanged_line else published_line) ?u (take 12 v)"
    by (rule publishPrompt_server [OF run]) simp
  note pure = store_contractD(1) [OF assms(3)]
  have w1: "w_store w1 = w_store w"
    using get_frame(2) [OF pure, of L ?ctx "\<lparr>gq_uri = ?u, gq_ref = ''''\<rparr>" w] get by simp
  have branch: "branchOr L (pq_branch ?q) = default_branch L" by (simp add: branchOr_def)
  have "\<forall>p. served (sv_store S) (w_store w1) (pq_uri ?q) = (p, None)
      \<and> p_version_hash p = store_hash L (pq_template ?q) (pq_slots ?q)
      \<longrightarrow> p_uri p = pq_uri ?q \<and> p_template p = pq_template ?q \<and> p_slots p = pq_slots ?q"
    using assms(8) b w1 by simp
  note read = publish_then_read [OF assms(1-3) branch this pub]
  have event: "w_notif w' = (if \<exists>r. cur = Inr r \<and> g_version_hash r = v then w_notif w
      else snd (n_publish n ?u v (publish_class L S (served (sv_store S) (w_store w) ?u) t) (w_notif w)))"
    if coh: "coherent L (sv_store S) view w" "(\<exists>r. cur = Inr r) \<or> snd (served (sv_store S) (w_store w) ?u) \<noteq> None"
  proof -
    have v: "v = store_hash L t (flag_list fs ''slot'')"
      using publish_success_event(1) [OF pure assms(4) published_may_write [OF pub] branch pub] by simp
    have "v \<noteq> ''''" using run get pub
      by (auto simp: publishPrompt_def server_client_def Let_def slice_to_def split: if_splits)
    then show ?thesis
      using publish_line_is_true [OF assms(1,2) pure assms(4) coh(1) published_may_write [OF pub] branch _ _ run] coh(2) get v
        line lines_differ lines_differ [THEN not_sym]
      by (auto split: if_splits)
  qed
  show ?thesis
    using b creds a get pub read printed line event
    by (intro exI [of _ b] exI [of _ t] exI [of _ creds] exI [of _ a] exI [of _ cur] exI [of _ w1] exI [of _ v]) (simp add: Let_def)
qed

text \<open>A network whose one server takes everyone for the same caller, and a host with a template and a token.\<close>

definition sample_net ::
  "('w prompt_client) \<Rightarrow> (unit, unit, 'w) net" where
  "sample_net cl = \<lparr>net_pem = \<lparr>x509_pair = \<lambda>c k. Inr (), x509_pool = \<lambda>t. Some ()\<rparr>,
     net_dial = \<lambda>addr creds. Inr (\<lambda>auth. \<lparr>cl_get = cl_get cl, cl_publish = cl_publish cl,
       cl_list = \<lambda>p w. (Inr [], w), cl_diff = \<lambda>q w. (Inr [], w)\<rparr>)\<rparr>"

definition template_host :: "string \<Rightarrow> host" where
  "template_host t = sample_host\<lparr>h_files := (h_files sample_host)(''p.txt'' := Inr t), h_environ := [''PRIOMPT_TOKEN=t1'']\<rparr>"

lemma template_host_simps [simp]:
  "h_environ (template_host t) = [''PRIOMPT_TOKEN=t1'']" "read_all (template_host t) ''p.txt'' = Inr t"
  "cut_equals ''PRIOMPT_TOKEN=t1'' = (''PRIOMPT_TOKEN'', Some ''t1'')"
  by (simp_all add: template_host_def read_all_def cut_equals_def)

theorem publish_command_publishes_the_file_witness:
  "\<exists>h' w' r. publish_cmd (sample_net (server_client sample_lib (sample_server (Some mem_cache)) acme_writer))
       (publish_args ''localhost:8443'' acme_uri ''p.txt'' []) (template_host (''v1.0'' @ [CR, LF]), sample_world sample_cache)
       = (Inr (), (h', w'))
     \<and> fst (GetPrompt sample_lib (sample_server (Some mem_cache)) acme_writer \<lparr>gq_uri = acme_uri, gq_ref = ''''\<rparr> w') = Inr r
     \<and> g_template r = ''v1.0'' @ [LF] \<and> g_slots r = []"
proof -
  let ?S = "sample_server (Some mem_cache)" let ?c = "server_client sample_lib ?S acme_writer"
  let ?h = "template_host (''v1.0'' @ [CR, LF])" let ?w = "sample_world sample_cache"
  let ?t = "''v1.0'' @ [LF]"
  let ?q = "\<lparr>pq_uri = acme_uri, pq_template = ?t, pq_slots = [], pq_message = '''', pq_branch = ''''\<rparr>"
  have "fst (publishPrompt ?c ?q ?w) = Some (Inr (published_line acme_uri ''version:v1.0''))"
    by (simp add: publishPrompt_def server_client_def handler_eval sample_eval sample_hash_def slice_to_def)
  then obtain w' where run: "publishPrompt ?c ?q ?w = (Some (Inr (published_line acme_uri ''version:v1.0'')), w')"
    by (metis prod.collapse)
  have content: "normalizeTemplate [CHR ''v'', CHR ''1'', CHR ''.'', CHR ''0'', CR, LF] = Inr ?t"
    by (simp add: normalizeTemplate_def trim_prefix_def utf8BOM_def)

  have auth: "authCtx (getenv (h_environ ?h) ''PRIOMPT_TOKEN'') (getenv (h_environ ?h) ''PRIOMPT_URL'') = Inr (Some ''Bearer t1'')"
    by (simp add: authCtx_def)
  have flags: "parse_flags (publish_flags ''localhost:8443'') (publish_args ''localhost:8443'' acme_uri ''p.txt'' [])
      = Inr (conn_flags ''localhost:8443'' @ [(''uri'', StringFlag acme_uri), (''file'', StringFlag ''p.txt''), (''slot'', ListFlag [])], [])"
    by (simp add: publish_flags_def conn_flags_def publish_args_def parse_flags.simps(2) cut_equals_def assign_def)
  have "acme_uri \<noteq> ''''" by (simp add: acme_uri_def)
  then have "\<exists>h'. publish_cmd (sample_net ?c) (publish_args ''localhost:8443'' acme_uri ''p.txt'' []) (?h, ?w) = (Inr (), (h', w'))"
    using run content
    by (simp add: publish_cmd_def env_host_def os_env_def envHost_def connURL_def parse_args_Inr [OF flags] seq_assoc
        conn_flags_def flag_string_def flag_bool_def flag_list_def readTemplate_def connect_cmd_def dial_def dial_creds_def
        sample_net_def auth_ctx_def authCtx_def prompt_client.truncate_def server_client_def)
       (simp add: seq_def ask_def give_def outside_def out_def)
  then obtain h' where cmd: "publish_cmd (sample_net ?c) (publish_args ''localhost:8443'' acme_uri ''p.txt'' []) (?h, ?w)
      = (Inr (), (h', w'))" by blast
  let ?fs = "conn_flags ''localhost:8443'' @ [(''uri'', StringFlag acme_uri), (''file'', StringFlag ''p.txt''), (''slot'', ListFlag [])]"
  have host: "envHost (getenv (h_environ ?h) ''PRIOMPT_URL'') = Inr ''localhost:8443''"
    by (simp add: envHost_def connURL_def)
  have fs: "flag_string ?fs ''addr'' = ''localhost:8443''" "flag_string ?fs ''uri'' = acme_uri" "flag_string ?fs ''file'' = ''p.txt''"
    "flag_list ?fs ''slot'' = []"
    by (simp_all add: conn_flags_def flag_string_def flag_list_def)
  have server: "\<forall>creds conn a. net_dial (sample_net ?c) (flag_string ?fs ''addr'') creds = Inr conn
      \<longrightarrow> prompt_client.truncate (conn a) = server_client sample_lib ?S ((\<lambda>_ _. acme_writer) creds a)"
    by (auto simp: sample_net_def server_client_def prompt_client.truncate_def)
  have scope: "InScope sample_lib acme_writer acme_uri" by simp
  have S: "sv_cache ?S = Some mem_cache" "store_contract sample_lib (sv_store ?S)" "sv_notifier ?S = Some rec_notifier"
    by (simp_all add: sample_store_contract)
  have "\<forall>t p. map_sum id normalizeTemplate (read_all ?h (flag_string ?fs ''file'')) = Inr (Inr t)
           \<and> served (sv_store ?S) (w_store ?w) (flag_string ?fs ''uri'') = (p, None)
           \<and> p_version_hash p = store_hash sample_lib t (flag_list ?fs ''slot'')
         \<longrightarrow> p_uri p = flag_string ?fs ''uri'' \<and> p_template p = t \<and> p_slots p = flag_list ?fs ''slot''"
    by (simp add: fs served_sample sample_empty_def find_head_def)
  from publish_command_publishes_the_file [OF mem.l2_cache_axioms S host flags server this cmd]
  obtain b t v where t: "read_all ?h ''p.txt'' = Inr b" "normalizeTemplate b = Inr t"
    and reads: "\<forall>reader. InScope sample_lib reader acme_uri \<longrightarrow> fst (GetPrompt sample_lib ?S reader \<lparr>gq_uri = acme_uri, gq_ref = ''''\<rparr> w')
      = Inr \<lparr>g_uri = acme_uri, g_template = t, g_slots = [], g_version_hash = v, g_commit_hash = ''''\<rparr>"
    unfolding fs by (elim exE conjE) (rule that)
  have "fst (GetPrompt sample_lib ?S acme_writer \<lparr>gq_uri = acme_uri, gq_ref = ''''\<rparr> w')
      = Inr \<lparr>g_uri = acme_uri, g_template = t, g_slots = [], g_version_hash = v, g_commit_hash = ''''\<rparr>"
    using reads scope by blast
  with t(1,2) have "normalizeTemplate (''v1.0'' @ [CR, LF]) = Inr t" "fst (GetPrompt sample_lib ?S acme_writer \<lparr>gq_uri = acme_uri, gq_ref = ''''\<rparr> w')
      = Inr \<lparr>g_uri = acme_uri, g_template = t, g_slots = [], g_version_hash = v, g_commit_hash = ''''\<rparr>"
    by simp_all
  then show ?thesis using cmd content by auto
qed

end
