(* ===== verification/Nats_Events.thy ===== *)
theory Nats_Events
  imports Go_Json Nats_Broker Server_Coherence
begin

text \<open>
  The change events themselves, \<open>internal/pubsub/pubsub.go\<close>: their payload, how \<open>Publish\<close> sends and
  \<open>Subscribe\<close> receives them, and how they connect the handlers to the agents that watch a prompt.
  The connection to NATS is a parameter.
\<close>

section \<open>Payload\<close>

text \<open>The struct \<open>Event\<close>.\<close>

record event =
  ev_version :: string
  ev_classification :: string

text \<open>\<open>json.Marshal\<close> of an event; \<open>classification\<close> is \<open>omitempty\<close>.\<close>

definition marshal_event :: "event \<Rightarrow> string" where
  "marshal_event e =
     ''{'' @ json_quote ''version'' @ '':'' @ json_quote (ev_version e)
     @ (if ev_classification e = '''' then ''''
        else '','' @ json_quote ''classification'' @ '':'' @ json_quote (ev_classification e))
     @ ''}''"

text \<open>
  \<open>json.Unmarshal\<close> into an event. A key names a field if it equals it up to Unicode case folding;
  of the bytes beyond ASCII only the long s and the Kelvin sign fold to ASCII letters. A string sets
  the field, null leaves it, any other value is an error that is reported at the end.
\<close>

definition upper_byte :: "char \<Rightarrow> char" where
  "upper_byte c = (if byte_between 97 c 122 then char_of (of_char c - 32 :: nat) else c)"

fun fold_name :: "string \<Rightarrow> string" where
  "fold_name [] = []"
| "fold_name (c # s) =
     (if has_prefix (c # s) [CHR 0xC5, CHR 0xBF] then CHR ''S'' # fold_name (drop 1 s)
      else if has_prefix (c # s) [CHR 0xE2, CHR 0x84, CHR 0xAA] then CHR ''K'' # fold_name (drop 2 s)
      else upper_byte c # fold_name s)"

fun set_fields :: "(string \<times> json) list \<Rightarrow> event \<times> bool \<Rightarrow> event \<times> bool" where
  "set_fields [] x = x"
| "set_fields ((k, v) # ms) (e, err) =
     set_fields ms
       (if fold_name k = ''VERSION'' then
          (case v of JStr s \<Rightarrow> (e\<lparr>ev_version := s\<rparr>, err) | JNull \<Rightarrow> (e, err) | _ \<Rightarrow> (e, True))
        else if fold_name k = ''CLASSIFICATION'' then
          (case v of JStr s \<Rightarrow> (e\<lparr>ev_classification := s\<rparr>, err) | JNull \<Rightarrow> (e, err) | _ \<Rightarrow> (e, True))
        else (e, err))"

definition zero_event :: event where
  "zero_event = \<lparr>ev_version = '''', ev_classification = ''''\<rparr>"

definition unmarshal_json :: "json option \<Rightarrow> event \<times> bool" where
  "unmarshal_json j =
     (case j of
        None \<Rightarrow> (zero_event, True)
      | Some (JObj ms) \<Rightarrow> set_fields ms (zero_event, False)
      | Some JNull \<Rightarrow> (zero_event, False)
      | Some _ \<Rightarrow> (zero_event, True))"

definition unmarshal_event :: "string \<Rightarrow> event \<times> bool" where
  "unmarshal_event b = unmarshal_json (json_parse b)"

definition parseEvent :: "string \<Rightarrow> event" where
  "parseEvent b =
     (case unmarshal_event b of (e, err) \<Rightarrow>
        if err \<or> ev_version e = '''' then \<lparr>ev_version = b, ev_classification = ''''\<rparr> else e)"

section \<open>Bus and subscriber\<close>

text \<open>\<open>Publish\<close> over the connection's own: subject and payload.\<close>

definition bus_publish ::
  "'em lib \<Rightarrow> (string \<Rightarrow> string \<Rightarrow> 'nc \<Rightarrow> gerr option \<times> 'nc) \<Rightarrow> string \<Rightarrow> string \<Rightarrow> string \<Rightarrow> 'nc
   \<Rightarrow> gerr option \<times> 'nc" where
  "bus_publish L nc uri versionHash classification =
     nc (Subject L uri) (marshal_event \<lparr>ev_version = versionHash, ev_classification = classification\<rparr>)"

definition bus_notifier ::
  "'em lib \<Rightarrow> (string \<Rightarrow> string \<Rightarrow> 'nc \<Rightarrow> gerr option \<times> 'nc) \<Rightarrow> 'nc notifier" where
  "bus_notifier L nc = \<lparr>n_publish = bus_publish L nc\<rparr>"

text \<open>\<open>Subscribe\<close>: what the callback is given of a message, if the subscription receives it.\<close>

definition subscription ::
  "'em lib \<Rightarrow> (string \<Rightarrow> string \<Rightarrow> bool) \<Rightarrow> string \<Rightarrow> string \<times> string \<Rightarrow> event option" where
  "subscription L covers uri msg =
     (if covers (Subject L uri) (fst msg) then Some (parseEvent (snd msg)) else None)"

section \<open>Reading what was sent\<close>

text \<open>What a reader makes of an event: invalid UTF-8 in its texts is replaced.\<close>

definition seen_event :: "event \<Rightarrow> event" where
  "seen_event e = \<lparr>ev_version = to_valid (ev_version e), ev_classification = to_valid (ev_classification e)\<rparr>"

lemma to_valid_Nil [simp]: "to_valid s = [] \<longleftrightarrow> s = []"
  by (cases s) (auto simp: to_valid.simps replacement_def)

lemma seen_event_id:
  "valid_utf8 (ev_version e) \<Longrightarrow> valid_utf8 (ev_classification e) \<Longrightarrow> seen_event e = e"
  by (simp add: seen_event_def to_valid_id)

lemma json_str_quote: "json_str (json_body s @ [QUOTE] @ t) = Some (to_valid s, t)"
  using json_str_body by simp

lemma plain_names: "to_valid ''version'' = ''version''" "to_valid ''classification'' = ''classification''"
  by (simp_all add: to_valid_id utf8_len.simps byte_between_def)

lemma not_ws [simp]: "\<not> is_ws QUOTE" "\<not> is_ws (CHR '':'')" "\<not> is_ws (CHR '','')" "\<not> is_ws (CHR ''}'')" "\<not> is_ws (CHR ''{'')"
  by (simp_all add: is_ws_def QUOTE_def)

lemma json_quote_shape: "json_quote s @ t = QUOTE # json_body s @ QUOTE # t"
  by (simp add: json_quote_def)

lemma json_value_quote: "json_value (Suc n) d (json_quote s @ t) = Some (JStr (to_valid s), t)"
  by (simp add: json_quote_shape json_str_body)

lemma json_members_last:
  "json_members (Suc (Suc n)) d (json_quote k @ '':'' @ json_quote v @ ''}'' @ t)
     = Some ([(to_valid k, JStr (to_valid v))], t)"
  using json_value_quote [of n d v "''}'' @ t"]
  by (simp add: json_quote_shape json_str_body del: json_value.simps)

lemma json_members_more:
  "json_members (Suc (Suc n)) d (json_quote k @ '':'' @ json_quote v @ '','' @ json_quote u @ t)
     = map_option (apfst ((#) (to_valid k, JStr (to_valid v)))) (json_members (Suc n) d (json_quote u @ t))"
  using json_value_quote [of n d v "'','' @ json_quote u @ t"]
  by (simp add: json_quote_shape json_str_body del: json_value.simps)

lemma json_object:
  "json_value (Suc n) (Suc d) (''{'' @ json_quote k @ t) = map_option (apfst JObj) (json_members n d (json_quote k @ t))"
  by (simp add: json_quote_shape is_digit_def byte_between_def) (simp add: QUOTE_def)

definition event_members :: "event \<Rightarrow> (string \<times> json) list" where
  "event_members e =
     (''version'', JStr (to_valid (ev_version e)))
     # (if ev_classification e = '''' then []
        else [(''classification'', JStr (to_valid (ev_classification e)))])"

lemma value_event:
  "json_value (Suc (Suc (Suc (Suc n)))) (Suc d) (marshal_event e) = Some (JObj (event_members e), '''')"
proof (cases "ev_classification e = ''''")
  case True
  then have "marshal_event e = ''{'' @ json_quote ''version'' @ ('':'' @ json_quote (ev_version e) @ ''}'' @ '''')"
    by (simp add: marshal_event_def)
  then have "json_value (Suc (Suc (Suc (Suc n)))) (Suc d) (marshal_event e)
      = map_option (apfst JObj) (json_members (Suc (Suc (Suc n))) d
          (json_quote ''version'' @ '':'' @ json_quote (ev_version e) @ ''}'' @ ''''))"
    by (simp only: json_object)
  also have "\<dots> = Some (JObj (event_members e), '''')"
    unfolding json_members_last by (simp add: event_members_def True plain_names)
  finally show ?thesis .
next
  case False
  then have "marshal_event e = ''{'' @ json_quote ''version'' @ ('':'' @ json_quote (ev_version e) @ '',''
      @ json_quote ''classification'' @ '':'' @ json_quote (ev_classification e) @ ''}'' @ '''')"
    by (simp add: marshal_event_def)
  then have "json_value (Suc (Suc (Suc (Suc n)))) (Suc d) (marshal_event e)
      = map_option (apfst JObj) (json_members (Suc (Suc (Suc n))) d (json_quote ''version'' @ '':''
          @ json_quote (ev_version e) @ '','' @ json_quote ''classification'' @ '':''
          @ json_quote (ev_classification e) @ ''}'' @ ''''))"
    by (simp only: json_object)
  also have "\<dots> = Some (JObj (event_members e), '''')"
    unfolding json_members_more json_members_last by (simp add: event_members_def False plain_names)
  finally show ?thesis .
qed

lemma parse_event: "json_parse (marshal_event e) = Some (JObj (event_members e))"
proof -
  have nest: "maxNestingDepth = Suc 9999" by (simp add: maxNestingDepth_def)
  have "6 \<le> 2 * length (marshal_event e) + 2" by (simp add: marshal_event_def json_quote_def)
  then obtain n where N: "2 * length (marshal_event e) + 2 = Suc (Suc (Suc (Suc n)))"
    using that [of "2 * length (marshal_event e) - 2"] by linarith
  have "skip_ws (marshal_event e) = marshal_event e" by (simp add: marshal_event_def)
  then show ?thesis
    unfolding json_parse_def json_parse_within_def nest N by (simp only: value_event) simp
qed

lemma set_event_members:
  "set_fields (event_members e) (zero_event, False) = (seen_event e, False)"
proof -
  have "fold_name ''version'' = ''VERSION''" "fold_name ''classification'' = ''CLASSIFICATION''"
    by code_simp+
  then show ?thesis
    by (simp add: event_members_def zero_event_def seen_event_def to_valid.simps(1))
qed

lemma parse_marshal:
  "ev_version e \<noteq> '''' \<Longrightarrow> parseEvent (marshal_event e) = seen_event e"
  by (simp add: parseEvent_def unmarshal_event_def unmarshal_json_def parse_event set_event_members) (simp add: seen_event_def)

section \<open>The channel\<close>

text \<open>
  What agents rely on: subjects that can be told apart and payloads that read back as they were
  sent. A message then determines the address and the event it was made of.
\<close>

locale event_channel = token_codec enc dec for enc :: "string \<Rightarrow> string" and dec +
  fixes show_event :: "'e \<Rightarrow> string" and read_event :: "string \<Rightarrow> 'f" and sent :: "'e \<Rightarrow> bool" and seen :: "'e \<Rightarrow> 'f"
  assumes read_write: "sent e \<Longrightarrow> read_event (show_event e) = seen e"
begin

definition message :: "string list \<Rightarrow> 'e \<Rightarrow> string \<times> string" where
  "message segs e = (join ''.'' (map enc segs), show_event e)"

lemma message_determines:
  assumes "message xs e = message ys e'" and "xs \<noteq> []" and "ys \<noteq> []" and "sent e" and "sent e'"
  shows "xs = ys \<and> seen e = seen e'"
proof -
  from assms(1) have "join ''.'' (map enc xs) = join ''.'' (map enc ys)" and w: "show_event e = show_event e'"
    by (simp_all add: message_def)
  moreover have "seen e = seen e'"
    using read_write [OF assms(4)] read_write [OF assms(5)] w by simp
  ultimately show ?thesis
    using join_enc_inject [OF assms(2,3)] by blast
qed

end

interpretation bus: event_channel subjectToken subject_untoken marshal_event parseEvent "\<lambda>e. ev_version e \<noteq> ''''" seen_event
  by unfold_locales (rule parse_marshal)

lemma bus_publish_message:
  "bus_publish L nc (scheme L @ x) h c st =
     nc (''priompt.'' @ fst (bus.message (split_on (CHR ''/'') x) \<lparr>ev_version = h, ev_classification = c\<rparr>))
        (snd (bus.message (split_on (CHR ''/'') x) \<lparr>ev_version = h, ev_classification = c\<rparr>)) st"
  by (simp add: bus_publish_def Subject_def bus.message_def)

lemma covers_Subject:
  "nats_match_laws covers \<Longrightarrow> covers (Subject L u) s \<longleftrightarrow> Subject L u = s"
  using wildcard_free_Subject unfolding nats_match_laws_def by blast

lemma Subject_inject: "Subject L (scheme L @ x) = Subject L (scheme L @ y) \<longleftrightarrow> x = y"
  unfolding Subject_def by (simp add: subj.join_enc_inject split_on_inject)

lemma json_value_object:
  assumes "json_value n d s = Some (JObj ms, t)"
  shows "has_prefix s ''{''"
proof (cases n)
  case (Suc k)
  then show ?thesis
    using assms by (cases s) (auto simp: json_number_def json_literal_def split: if_splits)
qed (use assms in simp)

lemma json_parse_object: "json_parse s = Some (JObj ms) \<Longrightarrow> has_prefix (skip_ws s) ''{''"
  using json_value_object by (auto simp: json_parse_def json_parse_within_def split: option.splits if_splits simp del: json_value.simps)

section \<open>Properties\<close>



lemma subscription_message:
  assumes "nats_match_laws covers" and "h \<noteq> ''''"
  shows "subscription L covers (scheme L @ x)
      (Subject L (scheme L @ y), marshal_event \<lparr>ev_version = h, ev_classification = c\<rparr>)
    = (if x = y then Some (seen_event \<lparr>ev_version = h, ev_classification = c\<rparr>) else None)"
  using parse_marshal [of "\<lparr>ev_version = h, ev_classification = c\<rparr>"] assms(2)
  by (simp add: subscription_def covers_Subject [OF assms(1)] Subject_inject)

text \<open>
  A published event reaches the watchers of its prompt and no others: of the message sent for the
  prompt \<open>y\<close>, a subscription to \<open>x\<close> gets the event if \<open>x\<close> is \<open>y\<close> and nothing otherwise.
\<close>

theorem event_reaches_its_watchers_only:
  assumes "nats_match_laws covers" and "h \<noteq> ''''"
    and "nc = (\<lambda>s b msgs. (None, msgs @ [(s, b)]))"
    and "bus_publish L nc (scheme L @ y) h c msgs = (err, msgs')"
  shows "err = None \<and> (\<exists>msg. msgs' = msgs @ [msg]
    \<and> subscription L covers (scheme L @ x) msg
        = (if x = y then Some (seen_event \<lparr>ev_version = h, ev_classification = c\<rparr>) else None))"
  using assms(3,4) subscription_message [OF assms(1,2), of L x y c] by (auto simp: bus_publish_def)

theorem event_reaches_its_watchers_only_witness:
  "\<exists>msg. bus_publish sample_lib (\<lambda>s b msgs. (None, msgs @ [(s, b)])) acme_uri ''v2'' ''structural'' [] = (None, [msg])
     \<and> subscription sample_lib tail_match acme_uri msg = Some (seen_event \<lparr>ev_version = ''v2'', ev_classification = ''structural''\<rparr>)
     \<and> subscription sample_lib tail_match (scheme sample_lib @ ''acme/other'') msg = None"
proof -
  have uri: "acme_uri = scheme sample_lib @ ''acme/r/p''" by (simp add: acme_uri_def sample_lib_def)
  obtain err msgs' where run: "bus_publish sample_lib (\<lambda>s b msgs. (None, msgs @ [(s, b)])) (scheme sample_lib @ ''acme/r/p'')
      ''v2'' ''structural'' [] = (err, msgs')" by fastforce
  note rule = event_reaches_its_watchers_only [OF tail_match_laws _ refl run]
  show ?thesis
    using rule [of "''acme/r/p''"] rule [of "''acme/other''"] run by (auto simp: uri)
qed

lemma precheck_keeps_notif:
  assumes "reads_pure (sv_store S)" and "publish_precheck L S q h b w = (Commit_as c, w')"
  shows "w_notif w' = w_notif w"
  using assms
  by (auto simp: publish_precheck_def reads_pure_simps dest!: invalidate_eq
      split: prod.splits sum.splits option.splits if_splits)

lemma publish_sends_one_message:
  assumes "store_contract L (sv_store S)" and "sv_notifier S = Some (bus_notifier L (\<lambda>s b msgs. (None, msgs @ [(s, b)])))"
    and "pq_uri q = scheme L @ y" and "branchOr L (pq_branch q) = default_branch L" and "h \<noteq> ''''"
    and "\<not> (\<exists>p. served (sv_store S) (w_store w) (pq_uri q) = (p, None) \<and> p_version_hash p = h)"
    and "PublishPrompt L S ctx q w = (Inr h, w')"
  obtains c where "h = store_hash L (pq_template q) (pq_slots q)"
    and "w_notif w' = w_notif w @ [(Subject L (scheme L @ y), marshal_event \<lparr>ev_version = h, ev_classification = c\<rparr>)]"
proof -
  let ?nc = "\<lambda>s b msgs. (None, msgs @ [(s, b)])"
  note pure = store_contractD(1) [OF assms(1)]
  have hash: "h = store_hash L (pq_template q) (pq_slots q)
      \<and> (\<exists>c. w_notif w' = snd (bus_publish L ?nc (pq_uri q) h c (w_notif w)))"
    using assms(7)
  proof (cases rule: PublishPrompt_cases)
    case finished
    then show ?thesis
      using pure assms(4,6)
      by (auto simp: publish_precheck_def reads_pure_simps reads_pure_get split: prod.splits option.splits if_splits)
  next
    case (committed c w1)
    note keep = precheck_keeps_notif [OF pure committed(1)]
    show ?thesis
      using committed(2) keep assms(2,4)
      by (auto simp: publish_commit_def on_store_eq fail_with_def Let_def bus_notifier_def dest!: invalidate_eq
          split: prod.splits sum.splits option.splits if_splits)
  qed simp
  then obtain c where sent: "w_notif w' = w_notif w @ [(Subject L (scheme L @ y),
      marshal_event \<lparr>ev_version = h, ev_classification = c\<rparr>)]"
    by (auto simp: bus_publish_def assms(3))
  with hash that show ?thesis by blast
qed

text \<open>
  C18. A publish is learned of and can be acted on. When a publish changes what main serves, over a bus
  that takes the message, one message more is on the bus: a watcher of that prompt gets the announced
  version from it, a watcher of another prompt gets nothing, and a reader who fetches the prompt after
  the event gets the announced version and not the one before.
\<close>

theorem watchers_learn_and_refetch:
  assumes "l2_cache K view" and "sv_cache S = Some K" and "store_contract L (sv_store S)"
    and "nats_match_laws covers" and "nc = (\<lambda>s b msgs. (None, msgs @ [(s, b)]))"
    and "sv_notifier S = Some (bus_notifier L nc)" and "pq_uri q = scheme L @ y"
    and "branchOr L (pq_branch q) = default_branch L" and "h \<noteq> ''''" and "valid_utf8 h"
    and "\<not> (\<exists>p. served (sv_store S) (w_store w) (pq_uri q) = (p, None) \<and> p_version_hash p = h)"
    and "PublishPrompt L S ctx q w = (Inr h, w')" and "InScope L reader (pq_uri q)"
  shows "\<exists>msg. w_notif w' = w_notif w @ [msg]
    \<and> (\<forall>x. map_option ev_version (subscription L covers (scheme L @ x) msg) = (if x = y then Some h else None))
    \<and> map_sum id g_version_hash (fst (GetPrompt L S reader \<lparr>gq_uri = pq_uri q, gq_ref = ''''\<rparr> w')) = Inr h"
proof -
  obtain c where hash: "h = store_hash L (pq_template q) (pq_slots q)"
    and sent: "w_notif w' = w_notif w @ [(Subject L (scheme L @ y),
      marshal_event \<lparr>ev_version = h, ev_classification = c\<rparr>)]"
    by (rule publish_sends_one_message [OF assms(3) assms(6) [unfolded assms(5)] assms(7-9,11,12)])
  have "\<forall>p. served (sv_store S) (w_store w) (pq_uri q) = (p, None)
           \<and> p_version_hash p = store_hash L (pq_template q) (pq_slots q)
         \<longrightarrow> p_uri p = pq_uri q \<and> p_template p = pq_template q \<and> p_slots p = pq_slots q"
    using assms(11) hash by blast
  note fetch = publish_then_read [OF assms(1-3,8) this assms(12,13)]
  show ?thesis
    using sent subscription_message [OF assms(4,9), of L _ y c] fetch
    by (simp add: seen_event_def to_valid_id [OF assms(10)])
qed

abbreviation bus_server ::
  "(sample_store, ttl_cache, (string \<times> string) list, unit) server" where
  "bus_server \<equiv> NewServer sample_ops (Some mem_cache) (Some ())
     (Some (bus_notifier sample_lib (\<lambda>s b msgs. (None, msgs @ [(s, b)]))))"

theorem watchers_learn_and_refetch_witness:
  "\<exists>w' msg. PublishPrompt sample_lib bus_server acme_writer (publish_of ''v1'' '''')
        \<lparr>w_store = sample_empty, w_cache = sample_cache, w_notif = [], w_log = []\<rparr> = (Inr (sample_hash ''v1'' []), w')
    \<and> w_notif w' = [msg]
    \<and> map_option ev_version (subscription sample_lib tail_match acme_uri msg) = Some (sample_hash ''v1'' [])"
proof -
  let ?w = "\<lparr>w_store = sample_empty, w_cache = sample_cache, w_notif = [], w_log = []\<rparr>"
  have uri: "acme_uri = scheme sample_lib @ ''acme/r/p''" by (simp add: acme_uri_def sample_lib_def)
  obtain w' where run: "PublishPrompt sample_lib bus_server acme_writer (publish_of ''v1'' '''') ?w
      = (Inr (sample_hash ''v1'' []), w')"
    by (simp add: handler_eval sample_eval NewServer_def)
  have sv: "sv_cache bus_server = Some mem_cache" "store_contract sample_lib (sv_store bus_server)"
    "sv_notifier bus_server = Some (bus_notifier sample_lib (\<lambda>s b msgs. (None, msgs @ [(s, b)])))"
    using sample_store_contract by (simp_all add: NewServer_def)
  have q: "pq_uri (publish_of ''v1'' '''') = scheme sample_lib @ ''acme/r/p''"
    "branchOr sample_lib (pq_branch (publish_of ''v1'' '''')) = default_branch sample_lib"
    by (simp_all only: uri publish_of_simps branchOr_def simp_thms if_True)
  have h: "sample_hash ''v1'' [] \<noteq> ''''" "valid_utf8 (sample_hash ''v1'' [])"
    by (simp_all add: sample_hash_def utf8_len.simps byte_between_def)
  have new: "\<not> (\<exists>p. served (sv_store bus_server) (w_store ?w) (pq_uri (publish_of ''v1'' '''')) = (p, None)
      \<and> p_version_hash p = sample_hash ''v1'' [])"
    by (simp add: NewServer_def served_sample find_head_def sample_empty_def)
  have reader: "InScope sample_lib acme_writer (pq_uri (publish_of ''v1'' ''''))" by simp
  obtain msg where msg: "w_notif w' = w_notif ?w @ [msg]"
    and "\<forall>x. map_option ev_version (subscription sample_lib tail_match (scheme sample_lib @ x) msg)
      = (if x = ''acme/r/p'' then Some (sample_hash ''v1'' []) else None)"
    using watchers_learn_and_refetch [OF mem.l2_cache_axioms sv(1,2) tail_match_laws refl sv(3) q h new run reader]
    by (elim exE conjE)
  from spec [OF this(2), of "''acme/r/p''"]
  have seen: "map_option ev_version (subscription sample_lib tail_match acme_uri msg) = Some (sample_hash ''v1'' [])"
    unfolding uri by (simp only: if_True simp_thms)
  have "w_notif w' = [msg]" using msg by (simp only: world.select_convs append_Nil)
  with run seen show ?thesis by (intro exI conjI)
qed

end
