(* ===== verification/Cli_Watch.thy ===== *)
theory Cli_Watch
  imports Sample_Databases Nats_Events
begin

text \<open>
  \<open>priompt watch\<close> (\<open>cmd/priompt/main.go\<close>): the subscription, the line printed for each event, and
  the \<open>-exec\<close> hook with the environment it is run in, as \<open>os/exec\<close> hands it over.
\<close>

section \<open>The environment of a child process\<close>

text \<open>The name of an entry, as \<open>dedupEnv\<close> of \<open>os/exec\<close> cuts it: a leading equals sign belongs to it.\<close>

definition env_key :: "string \<Rightarrow> string option" where
  "env_key kv = (case index_of kv ''='' of
     None \<Rightarrow> None
   | Some 0 \<Rightarrow> Some (take (case index_of (drop 1 kv) ''='' of None \<Rightarrow> 0 | Some j \<Rightarrow> j + 1) kv)
   | Some i \<Rightarrow> Some (take i kv))"

text \<open>From the last entry to the first, each name once; \<open>f\<close> folds case on Windows.\<close>

fun dedup_from :: "(string \<Rightarrow> string) \<Rightarrow> string list \<Rightarrow> string list \<Rightarrow> string list" where
  "dedup_from f [] saw = []"
| "dedup_from f (kv # kvs) saw =
     (case env_key kv of
        None \<Rightarrow> if kv \<noteq> '''' then kv # dedup_from f kvs saw else dedup_from f kvs saw
      | Some k \<Rightarrow> if f k \<in> set saw then dedup_from f kvs saw else kv # dedup_from f kvs (f k # saw))"

definition case_fold :: "string \<Rightarrow> string \<Rightarrow> string" where
  "case_fold goos = (if goos = ''windows'' then to_lower else id)"

text \<open>
  An entry with a NUL byte is an error; Windows is given \<open>SYSTEMROOT\<close> when it is missing, from the
  parent's own environment.
\<close>

definition child_env :: "string \<Rightarrow> string list \<Rightarrow> string list \<Rightarrow> string list option" where
  "child_env goos parent env =
     (if list_ex (\<lambda>kv. CHR 0x00 \<in> set kv) env then None
      else let es = rev (dedup_from (case_fold goos) (rev env) []) in
        Some (if goos = ''windows'' \<and> \<not> list_ex (\<lambda>e. map_option to_lower (env_key e) = Some ''systemroot'') es
              then es @ [''SYSTEMROOT='' @ getenv parent ''SYSTEMROOT''] else es))"

section \<open>watch\<close>

text \<open>The processes that were started: their arguments and environment.\<close>

type_synonym processes = "(string list \<times> string list) list"

definition hook_argv :: "string \<Rightarrow> string \<Rightarrow> string list" where
  "hook_argv goos command = (if goos = ''windows'' then [''cmd'', ''/c'', command] else [''sh'', ''-c'', command])"

definition hook_vars :: "string \<Rightarrow> string \<Rightarrow> string \<Rightarrow> string list" where
  "hook_vars uri hash verdict = [''PRIOMPT_URI='' @ uri, ''PRIOMPT_VERSION='' @ hash, ''PRIOMPT_CLASS='' @ verdict]"

text \<open>\<open>run\<close> is what the started process comes to.\<close>

definition runHook ::
  "(string list \<Rightarrow> string list \<Rightarrow> gerr option) \<Rightarrow> string \<Rightarrow> string \<Rightarrow> string \<Rightarrow> string \<Rightarrow> (unit, processes) cmd" where
  "runHook run command uri hash verdict =
     seq (ask id) (\<lambda>h.
     case child_env (h_goos h) (h_environ h) (h_environ h @ hook_vars uri hash verdict) of
       None \<Rightarrow> log_err (''exec hook failed: %v'', [''exec: environment variable contains NUL''])
     | Some e \<Rightarrow>
         seq (outside (\<lambda>ps. (Inr (), ps @ [(hook_argv (h_goos h) command, e)]))) (\<lambda>_.
         case run (hook_argv (h_goos h) command) e of
           Some err \<Rightarrow> log_err (''exec hook failed: %v'', [err_text err])
         | None \<Rightarrow> give ()))"

text \<open>The callback of the subscription.\<close>

definition watch_event ::
  "(string list \<Rightarrow> string list \<Rightarrow> gerr option) \<Rightarrow> string \<Rightarrow> string \<Rightarrow> event \<Rightarrow> (unit, processes) cmd" where
  "watch_event run uri hook ev =
     seq (log_err (''%s updated -> %s [%s]'',
            [uri, ev_version ev, if ev_classification ev = '''' then ''unknown'' else ev_classification ev])) (\<lambda>_.
     if hook \<noteq> '''' then runHook run hook uri (ev_version ev) (ev_classification ev) else give ())"

definition watch_flags :: "string list \<Rightarrow> flag_set" where
  "watch_flags E =
     [(''uri'', StringFlag ''''),
      (''nats-url'', StringFlag (envOr (getenv E ''PRIOMPT_NATS_URL'') ''nats://127.0.0.1:4222'')),
      (''exec'', StringFlag '''')]"

text \<open>
  The command up to the point where it blocks: \<open>connect\<close> and \<open>subscribe\<close> give the error of the NATS
  client, if any. It returns the address and the hook that the callback works with.
\<close>

definition watch_cmd ::
  "(string \<Rightarrow> gerr option) \<Rightarrow> (string \<Rightarrow> gerr option) \<Rightarrow> string list \<Rightarrow> (string \<times> string, 's) cmd" where
  "watch_cmd connect subscribe args =
     seq (ask h_environ) (\<lambda>E.
     seq (parse_args (watch_flags E) args) (\<lambda>fs.
     let uri = flag_string fs ''uri''; url = flag_string fs ''nats-url'' in
     if uri = '''' then die (Fatal ''usage: priompt watch -uri priompt://... [-nats-url nats://host:4222] [-exec CMD]'' [])
     else case connect url of
       Some e \<Rightarrow> die (Fatal (redactURL (err_text e)) [])
     | None \<Rightarrow>
         (case subscribe uri of
            Some e \<Rightarrow> die (Fatal (err_text e) [])
          | None \<Rightarrow> seq (log_err (''watching %s on %s'', [uri, redactURL url])) (\<lambda>_.
                    give (uri, flag_string fs ''exec'')))))"

text \<open>The messages that arrive afterwards, one callback at a time.\<close>

fun watch_messages ::
  "'em lib \<Rightarrow> (string \<Rightarrow> string \<Rightarrow> bool) \<Rightarrow> (string list \<Rightarrow> string list \<Rightarrow> gerr option) \<Rightarrow> string \<Rightarrow> string
   \<Rightarrow> (string \<times> string) list \<Rightarrow> (unit, processes) cmd" where
  "watch_messages L covers run uri hook [] = give ()"
| "watch_messages L covers run uri hook (msg # msgs) = (case subscription L covers uri msg of
     None \<Rightarrow> watch_messages L covers run uri hook msgs
   | Some ev \<Rightarrow> seq (watch_event run uri hook ev) (\<lambda>_. watch_messages L covers run uri hook msgs))"

section \<open>What the hook sees\<close>

lemma cut_equals_key: "cut_equals e = (n, Some v) \<Longrightarrow> n \<noteq> '''' \<Longrightarrow> env_key e = Some n"
  by (auto simp: cut_equals_def env_key_def split: option.splits nat.splits)

lemma dedup_from_drops:
  "e \<in> set (dedup_from f kvs saw) \<Longrightarrow> env_key e = Some k \<Longrightarrow> f k \<notin> set saw"
  by (induction f kvs saw rule: dedup_from.induct) (auto split: option.splits if_splits)

lemma dedup_from_subset: "set (dedup_from f kvs saw) \<subseteq> set kvs"
  by (induction f kvs saw rule: dedup_from.induct) (auto split: option.splits if_splits)

lemma getenv_skip:
  "\<forall>e\<in>set es. env_key e \<noteq> Some k \<Longrightarrow> k \<noteq> '''' \<Longrightarrow> getenv (es @ fs) k = getenv fs k"
  using cut_equals_key by (induction es) (fastforce split: prod.splits option.splits)+

lemma hook_vars_keys:
  "map env_key (hook_vars uri hash verdict) = map Some [''PRIOMPT_URI'', ''PRIOMPT_VERSION'', ''PRIOMPT_CLASS'']"
  "cut_equals (''PRIOMPT_URI='' @ uri) = (''PRIOMPT_URI'', Some uri)"
  "cut_equals (''PRIOMPT_VERSION='' @ hash) = (''PRIOMPT_VERSION'', Some hash)"
  "cut_equals (''PRIOMPT_CLASS='' @ verdict) = (''PRIOMPT_CLASS'', Some verdict)"
  by (simp_all add: hook_vars_def env_key_def cut_equals_def)

lemma case_fold_simps:
  "case_fold goos ''PRIOMPT_URI'' \<noteq> case_fold goos ''PRIOMPT_VERSION''"
  "case_fold goos ''PRIOMPT_URI'' \<noteq> case_fold goos ''PRIOMPT_CLASS''"
  "case_fold goos ''PRIOMPT_VERSION'' \<noteq> case_fold goos ''PRIOMPT_CLASS''"
  by (simp_all add: case_fold_def lower_byte_def)

text \<open>The three variables come last, after what is left of the parent's environment.\<close>

lemma child_env_hook:
  assumes "\<not> list_ex (\<lambda>kv. CHR 0x00 \<in> set kv) (E @ hook_vars uri hash verdict)"
  obtains es sysroot where "child_env goos E (E @ hook_vars uri hash verdict) = Some (es @ hook_vars uri hash verdict @ sysroot)"
    and "set es \<subseteq> set E"
    and "\<forall>e\<in>set es. env_key e \<notin> Some ` set [''PRIOMPT_URI'', ''PRIOMPT_VERSION'', ''PRIOMPT_CLASS'']"
    and "goos \<noteq> ''windows'' \<Longrightarrow> sysroot = []"
proof -
  let ?f = "case_fold goos"
  let ?saw = "[?f ''PRIOMPT_URI'', ?f ''PRIOMPT_VERSION'', ?f ''PRIOMPT_CLASS'']"
  let ?es = "dedup_from ?f (rev E) ?saw"
  have dedup: "dedup_from ?f (rev (E @ hook_vars uri hash verdict)) []
      = [''PRIOMPT_CLASS='' @ verdict, ''PRIOMPT_VERSION='' @ hash, ''PRIOMPT_URI='' @ uri] @ ?es"
    using hook_vars_keys(1) [of uri hash verdict] case_fold_simps [of goos]
    by (simp add: hook_vars_def)
  then have "\<exists>sysroot. child_env goos E (E @ hook_vars uri hash verdict) = Some (rev ?es @ hook_vars uri hash verdict @ sysroot)
      \<and> (goos \<noteq> ''windows'' \<longrightarrow> sysroot = [])"
    using assms by (auto simp: child_env_def Let_def hook_vars_def simp del: dedup_from.simps)
  moreover have "set (rev ?es) \<subseteq> set E" using dedup_from_subset [of ?f "rev E" ?saw] by simp
  moreover have "\<forall>e\<in>set (rev ?es). env_key e \<notin> Some ` set [''PRIOMPT_URI'', ''PRIOMPT_VERSION'', ''PRIOMPT_CLASS'']"
    using dedup_from_drops [of _ ?f "rev E" ?saw] by fastforce
  ultimately show ?thesis using that by blast
qed

lemma getenv_hook_vars:
  assumes "\<forall>e\<in>set es. env_key e \<notin> Some ` set [''PRIOMPT_URI'', ''PRIOMPT_VERSION'', ''PRIOMPT_CLASS'']"
  shows "getenv (es @ hook_vars uri hash verdict @ sysroot) ''PRIOMPT_URI'' = uri"
    and "getenv (es @ hook_vars uri hash verdict @ sysroot) ''PRIOMPT_VERSION'' = hash"
    and "getenv (es @ hook_vars uri hash verdict @ sysroot) ''PRIOMPT_CLASS'' = verdict"
proof -
  have skip: "getenv (es @ fs) k = getenv fs k" if "k \<in> set [''PRIOMPT_URI'', ''PRIOMPT_VERSION'', ''PRIOMPT_CLASS'']" for k fs
    by (rule getenv_skip) (use assms that in auto)
  note cut = hook_vars_keys(2-) [simplified]
  show "getenv (es @ hook_vars uri hash verdict @ sysroot) ''PRIOMPT_URI'' = uri"
    "getenv (es @ hook_vars uri hash verdict @ sysroot) ''PRIOMPT_VERSION'' = hash"
    "getenv (es @ hook_vars uri hash verdict @ sysroot) ''PRIOMPT_CLASS'' = verdict"
    by (simp_all add: skip hook_vars_def cut)
qed

definition no_nul :: "string \<Rightarrow> bool" where
  "no_nul s \<longleftrightarrow> CHR 0x00 \<notin> set s"

text \<open>
  What a watcher whose hook runs in the environment \<open>e\<close> logs of an event: the line of the event, then
  the failure of the hook, if it fails.
\<close>

definition watched_lines :: "(string list \<Rightarrow> string list \<Rightarrow> gerr option) \<Rightarrow> string list \<Rightarrow> string list \<Rightarrow> string \<Rightarrow> event \<Rightarrow> log_line list" where
  "watched_lines run argv e uri ev =
     (''%s updated -> %s [%s]'', [uri, ev_version ev, if ev_classification ev = '''' then ''unknown'' else ev_classification ev])
     # (case run argv e of Some err \<Rightarrow> [(''exec hook failed: %v'', [err_text err])] | None \<Rightarrow> [])"

text \<open>One event, its line and one process, with the event in its environment.\<close>

lemma watch_event_starts_hook:
  assumes "hook \<noteq> ''''" and "list_all no_nul (h_environ h)"
    and "no_nul uri" and "no_nul (ev_version ev)" and "no_nul (ev_classification ev)"
  shows "\<exists>e. watch_event run uri hook ev (h, ps)
      = (Inr (), (h\<lparr>h_stderr := h_stderr h @ watched_lines run (hook_argv (h_goos h) hook) e uri ev\<rparr>,
                  ps @ [(hook_argv (h_goos h) hook, e)]))
    \<and> getenv e ''PRIOMPT_URI'' = uri \<and> getenv e ''PRIOMPT_VERSION'' = ev_version ev
    \<and> getenv e ''PRIOMPT_CLASS'' = ev_classification ev"
proof -
  let ?vars = "hook_vars uri (ev_version ev) (ev_classification ev)"
  have "\<not> list_ex (\<lambda>kv. CHR 0x00 \<in> set kv) (h_environ h @ ?vars)"
    using assms(2-5) by (auto simp: no_nul_def hook_vars_def list_ex_iff list_all_iff)
  then obtain es sysroot where env: "child_env (h_goos h) (h_environ h) (h_environ h @ ?vars) = Some (es @ ?vars @ sysroot)"
    and es: "\<forall>e\<in>set es. env_key e \<notin> Some ` set [''PRIOMPT_URI'', ''PRIOMPT_VERSION'', ''PRIOMPT_CLASS'']"
    by (rule child_env_hook)
  let ?e = "es @ ?vars @ sysroot"
  have "watch_event run uri hook ev (h, ps)
      = (Inr (), (h\<lparr>h_stderr := h_stderr h @ watched_lines run (hook_argv (h_goos h) hook) ?e uri ev\<rparr>,
                  ps @ [(hook_argv (h_goos h) hook, ?e)]))"
    using assms(1) env
    by (simp add: watch_event_def seq_log_err runHook_def watched_lines_def)
       (auto simp: seq_def outside_def log_err_def give_def split: option.splits)
  then show ?thesis using getenv_hook_vars [OF es] by blast
qed

text \<open>
  C13. A published change runs the hook, once, with the truth in its environment. When a publish changes
  what main serves, the one message on the bus makes a watcher of that prompt with \<open>-exec\<close> log the line
  of the event, with the address, the new version and the verdict (\<open>unknown\<close> if it has none), and start
  the hook exactly once, with the address, the version and the verdict as the values of the three
  variables, whatever the watcher's own environment sets them to. A hook that fails adds one line and
  nothing else; and a watcher of any other prompt starts and prints nothing. The version hash is valid
  UTF-8, and neither it, the address, the verdict nor the environment contains a NUL byte, with which
  no process can be started.
\<close>

theorem published_change_runs_the_hook:
  assumes "store_contract L (sv_store S)" and "sv_notifier S = Some (bus_notifier L (\<lambda>s b msgs. (None, msgs @ [(s, b)])))"
    and "nats_match_laws covers" and "pq_uri q = scheme L @ y" and "branchOr L (pq_branch q) = default_branch L"
    and "h \<noteq> ''''" and "valid_utf8 h" and "no_nul h" and "no_nul (scheme L @ y)" and "hook \<noteq> ''''"
    and "\<not> (\<exists>p. served (sv_store S) (w_store w) (pq_uri q) = (p, None) \<and> p_version_hash p = h)"
    and "PublishPrompt L S ctx q w = (Inr h, w')"
  shows "\<exists>msg ev. w_notif w' = w_notif w @ [msg] \<and> subscription L covers (scheme L @ y) msg = Some ev
    \<and> (\<forall>x host ps. x \<noteq> y \<longrightarrow>
         watch_messages L covers run (scheme L @ x) hook [msg] (host, ps) = (Inr (), (host, ps)))
    \<and> (\<forall>host ps. no_nul (ev_classification ev) \<and> list_all no_nul (h_environ host) \<longrightarrow>
         (\<exists>e. watch_messages L covers run (scheme L @ y) hook [msg] (host, ps)
              = (Inr (), (host\<lparr>h_stderr := h_stderr host
                    @ [(''%s updated -> %s [%s]'', [scheme L @ y, h, if ev_classification ev = '''' then ''unknown''
                         else ev_classification ev])]
                    @ (case run (hook_argv (h_goos host) hook) e of
                         Some err \<Rightarrow> [(''exec hook failed: %v'', [err_text err])] | None \<Rightarrow> [])\<rparr>,
                  ps @ [(hook_argv (h_goos host) hook, e)]))
            \<and> getenv e ''PRIOMPT_URI'' = scheme L @ y \<and> getenv e ''PRIOMPT_VERSION'' = h
            \<and> getenv e ''PRIOMPT_CLASS'' = ev_classification ev))"
proof -
  obtain c where sent: "w_notif w' = w_notif w @ [(Subject L (scheme L @ y),
      marshal_event \<lparr>ev_version = h, ev_classification = c\<rparr>)]"
    by (rule publish_sends_one_message [OF assms(1,2,4-6,11,12)])
  let ?msg = "(Subject L (scheme L @ y), marshal_event \<lparr>ev_version = h, ev_classification = c\<rparr>)"
  let ?ev = "\<lparr>ev_version = h, ev_classification = to_valid c\<rparr>"
  have seen: "subscription L covers (scheme L @ x) ?msg = (if x = y then Some ?ev else None)" for x
    unfolding subscription_message [OF assms(3,6)] by (simp add: seen_event_def to_valid_id [OF assms(7)])
  have mine: "watch_messages L covers run (scheme L @ y) hook [?msg] = watch_event run (scheme L @ y) hook ?ev"
    by (simp add: seen fun_eq_iff) (auto simp: seq_def give_def split: prod.splits sum.splits)
  show ?thesis
  proof (rule exI [of _ ?msg], rule exI [of _ ?ev], intro conjI allI impI)
    show "w_notif w' = w_notif w @ [?msg]" by (rule sent)
    show "subscription L covers (scheme L @ y) ?msg = Some ?ev" by (simp add: seen)
  next
    fix x and host :: host and ps :: processes assume "x \<noteq> y"
    then show "watch_messages L covers run (scheme L @ x) hook [?msg] (host, ps) = (Inr (), (host, ps))"
      by (simp add: seen give_def)
  next
    fix host :: host and ps :: processes assume "no_nul (ev_classification ?ev) \<and> list_all no_nul (h_environ host)"
    then show "\<exists>e. watch_messages L covers run (scheme L @ y) hook [?msg] (host, ps)
              = (Inr (), (host\<lparr>h_stderr := h_stderr host
                    @ [(''%s updated -> %s [%s]'', [scheme L @ y, h, if ev_classification ?ev = '''' then ''unknown''
                         else ev_classification ?ev])]
                    @ (case run (hook_argv (h_goos host) hook) e of
                         Some err \<Rightarrow> [(''exec hook failed: %v'', [err_text err])] | None \<Rightarrow> [])\<rparr>,
                  ps @ [(hook_argv (h_goos host) hook, e)]))
            \<and> getenv e ''PRIOMPT_URI'' = scheme L @ y \<and> getenv e ''PRIOMPT_VERSION'' = h
            \<and> getenv e ''PRIOMPT_CLASS'' = ev_classification ?ev"
      unfolding mine using watch_event_starts_hook [of hook host "scheme L @ y" ?ev run ps] assms(8-10)
      by (simp add: watched_lines_def)
  qed
qed

theorem published_change_runs_the_hook_witness:
  "\<exists>w' msg e. PublishPrompt sample_lib bus_server acme_writer (publish_of ''v1'' '''')
        \<lparr>w_store = sample_empty, w_cache = sample_cache, w_notif = [], w_log = []\<rparr> = (Inr (sample_hash ''v1'' []), w')
     \<and> w_notif w' = [msg]
     \<and> watch_messages sample_lib tail_match (\<lambda>_ _. None) acme_uri ''reload'' [msg] (sample_host, [])
         = (Inr (), (sample_host\<lparr>h_stderr := h_stderr sample_host
                @ [(''%s updated -> %s [%s]'', [acme_uri, sample_hash ''v1'' [], ''new''])]\<rparr>,
              [([''sh'', ''-c'', ''reload''], e)]))
     \<and> getenv e ''PRIOMPT_VERSION'' = sample_hash ''v1'' [] \<and> getenv e ''PRIOMPT_CLASS'' = ''new''"
proof -
  let ?w = "\<lparr>w_store = sample_empty, w_cache = sample_cache, w_notif = [], w_log = []\<rparr>"
  have uri: "acme_uri = scheme sample_lib @ ''acme/r/p''" by (simp add: acme_uri_def sample_lib_def)
  obtain w' where run: "PublishPrompt sample_lib bus_server acme_writer (publish_of ''v1'' '''') ?w
      = (Inr (sample_hash ''v1'' []), w')"
    by (simp add: handler_eval sample_eval NewServer_def)
  have sv: "store_contract sample_lib (sv_store bus_server)"
    "sv_notifier bus_server = Some (bus_notifier sample_lib (\<lambda>s b msgs. (None, msgs @ [(s, b)])))"
    using sample_store_contract by (simp_all add: NewServer_def)
  have q: "pq_uri (publish_of ''v1'' '''') = scheme sample_lib @ ''acme/r/p''"
    "branchOr sample_lib (pq_branch (publish_of ''v1'' '''')) = default_branch sample_lib"
    by (simp_all only: uri publish_of_simps branchOr_def simp_thms if_True)
  have h: "sample_hash ''v1'' [] \<noteq> ''''" "valid_utf8 (sample_hash ''v1'' [])" "no_nul (sample_hash ''v1'' [])"
    "no_nul (scheme sample_lib @ ''acme/r/p'')"
    by (simp_all add: sample_hash_def utf8_len.simps byte_between_def no_nul_def)
  have new: "\<not> (\<exists>p. served (sv_store bus_server) (w_store ?w) (pq_uri (publish_of ''v1'' '''')) = (p, None)
      \<and> p_version_hash p = sample_hash ''v1'' [])"
    by (simp add: NewServer_def served_sample find_head_def sample_empty_def)
  have reload: "''reload'' \<noteq> ''''" by simp
  obtain msg ev where msg: "w_notif w' = w_notif ?w @ [msg]"
    and ev: "subscription sample_lib tail_match (scheme sample_lib @ ''acme/r/p'') msg = Some ev"
    and "\<forall>x host ps. x \<noteq> ''acme/r/p'' \<longrightarrow>
         watch_messages sample_lib tail_match (\<lambda>_ _. None) (scheme sample_lib @ x) ''reload'' [msg] (host, ps) = (Inr (), (host, ps))"
    and mine: "\<forall>host ps. no_nul (ev_classification ev) \<and> list_all no_nul (h_environ host) \<longrightarrow>
         (\<exists>e. watch_messages sample_lib tail_match (\<lambda>_ _. None) (scheme sample_lib @ ''acme/r/p'') ''reload'' [msg] (host, ps)
              = (Inr (), (host\<lparr>h_stderr := h_stderr host
                    @ [(''%s updated -> %s [%s]'', [scheme sample_lib @ ''acme/r/p'', sample_hash ''v1'' [],
                         if ev_classification ev = '''' then ''unknown'' else ev_classification ev])]
                    @ (case None of Some err \<Rightarrow> [(''exec hook failed: %v'', [err_text err])] | None \<Rightarrow> [])\<rparr>,
                  ps @ [(hook_argv (h_goos host) ''reload'', e)]))
            \<and> getenv e ''PRIOMPT_URI'' = scheme sample_lib @ ''acme/r/p'' \<and> getenv e ''PRIOMPT_VERSION'' = sample_hash ''v1'' []
            \<and> getenv e ''PRIOMPT_CLASS'' = ev_classification ev)"
    using published_change_runs_the_hook [OF sv tail_match_laws q h reload new run, of "\<lambda>_ _. None"]
    by (elim exE conjE)
  have "w_notif (snd (PublishPrompt sample_lib bus_server acme_writer (publish_of ''v1'' '''') ?w))
      = [(Subject sample_lib acme_uri, marshal_event \<lparr>ev_version = sample_hash ''v1'' [], ev_classification = ''new''\<rparr>)]"
    by (simp add: handler_eval sample_eval NewServer_def bus_notifier_def bus_publish_def)
  then have "msg = (Subject sample_lib (scheme sample_lib @ ''acme/r/p''),
      marshal_event \<lparr>ev_version = sample_hash ''v1'' [], ev_classification = ''new''\<rparr>)"
    using msg run uri by simp
  then have "ev = seen_event \<lparr>ev_version = sample_hash ''v1'' [], ev_classification = ''new''\<rparr>"
    using ev subscription_message [OF tail_match_laws h(1), of sample_lib "''acme/r/p''" "''acme/r/p''" "''new''"]
    by (simp only: if_True simp_thms option.inject)
  moreover have "to_valid ''new'' = ''new''"
    by (rule to_valid_id) (simp add: utf8_len.simps byte_between_def)
  ultimately have "ev_classification ev = ''new''" by (simp add: seen_event_def)
  moreover have "h_environ sample_host = []" "h_goos sample_host = ''linux''" by (simp_all add: sample_host_def)
  ultimately obtain e where started: "watch_messages sample_lib tail_match (\<lambda>_ _. None) acme_uri ''reload'' [msg] (sample_host, [])
      = (Inr (), (sample_host\<lparr>h_stderr := h_stderr sample_host
                @ [(''%s updated -> %s [%s]'', [acme_uri, sample_hash ''v1'' [], ''new''])]\<rparr>,
              [([''sh'', ''-c'', ''reload''], e)]))" "getenv e ''PRIOMPT_VERSION'' = sample_hash ''v1'' []"
      "getenv e ''PRIOMPT_CLASS'' = ''new''"
    using mine [rule_format, of sample_host "[]"] unfolding uri by (auto simp: no_nul_def hook_argv_def)
  have "w_notif w' = [msg]" using msg by (simp only: world.select_convs append_Nil)
  with run started show ?thesis by blast
qed

end
