(* ===== verification/Rpc_Observe.thy ===== *)
theory Rpc_Observe
  imports Complex_Main Server_Access
begin

text \<open>
  The interceptors around the service, \<open>internal/server/observability.go\<close>, and the chain that
  \<open>serve\<close> installs (\<open>cmd/priompt/main.go\<close>): metrics outermost, then authentication (the
  \<open>authn\<close> package, a parameter), audit, and the per-org rate limit. The token bucket of
  \<open>golang.org/x/time/rate\<close> is a parameter as well.
\<close>

section \<open>The node\<close>

text \<open>A value of a structured log attribute.\<close>

datatype attr = AStr string | AInt int

text \<open>
  What the interceptors touch besides the server's world \<open>'w\<close>: a monotonic clock in nanoseconds,
  the counter \<open>priompt_requests_total\<close> by method and code, the observations of
  \<open>priompt_request_duration_seconds\<close> (as durations in nanoseconds), the audit log, and the
  limiters of \<open>RateLimitInterceptor\<close> by org scope.
\<close>

record ('w, 'lim) node =
  nd_world :: 'w
  nd_now :: int
  nd_requests :: "string \<times> string \<Rightarrow> nat"
  nd_durations :: "string \<Rightarrow> int list"
  nd_audit :: "(string \<times> attr) list list"
  nd_limiters :: "string \<Rightarrow> 'lim option"

text \<open>\<open>grpc.UnaryHandler\<close> and \<open>grpc.UnaryServerInterceptor\<close>; \<open>info\<close> is the method's full name.\<close>

type_synonym ('c, 'w, 'lim) handler =
  "'c \<Rightarrow> rpc \<Rightarrow> ('w, 'lim) node \<Rightarrow> (status + rpc_resp) \<times> ('w, 'lim) node"

type_synonym ('c, 'd, 'w, 'lim) interceptor =
  "'c \<Rightarrow> rpc \<Rightarrow> string \<Rightarrow> ('d, 'w, 'lim) handler \<Rightarrow> ('w, 'lim) node \<Rightarrow> (status + rpc_resp) \<times> ('w, 'lim) node"

text \<open>\<open>codes.Code.String\<close>.\<close>

fun code_string :: "code \<Rightarrow> string" where
  "code_string OK = ''OK''"
| "code_string Canceled = ''Canceled''"
| "code_string Unknown = ''Unknown''"
| "code_string InvalidArgument = ''InvalidArgument''"
| "code_string DeadlineExceeded = ''DeadlineExceeded''"
| "code_string NotFound = ''NotFound''"
| "code_string AlreadyExists = ''AlreadyExists''"
| "code_string PermissionDenied = ''PermissionDenied''"
| "code_string ResourceExhausted = ''ResourceExhausted''"
| "code_string FailedPrecondition = ''FailedPrecondition''"
| "code_string Aborted = ''Aborted''"
| "code_string OutOfRange = ''OutOfRange''"
| "code_string Unimplemented = ''Unimplemented''"
| "code_string Internal = ''Internal''"
| "code_string Unavailable = ''Unavailable''"
| "code_string DataLoss = ''DataLoss''"
| "code_string Unauthenticated = ''Unauthenticated''"

section \<open>The interceptors\<close>

definition MetricsInterceptor :: "('c, 'c, 'w, 'lim) interceptor" where
  "MetricsInterceptor ctx req info handler n =
     (let start = nd_now n in
      case handler ctx req n of (r, n1) \<Rightarrow>
        (let key = (info, code_string (status_code r));
             n2 = n1\<lparr>nd_requests := (nd_requests n1)(key := nd_requests n1 key + 1)\<rparr>
         in (r, n2\<lparr>nd_durations := (nd_durations n2)(info :=
                     nd_durations n2 info @ [nd_now n2 - start])\<rparr>)))"

text \<open>\<open>time.Duration.Milliseconds\<close> divides and truncates towards zero.\<close>

definition milliseconds :: "int \<Rightarrow> int" where
  "milliseconds d = (if 0 \<le> d then d div 1000000 else - (- d div 1000000))"

text \<open>Every request carries an address except \<open>ListPrompts\<close>, which has no \<open>GetUri\<close>.\<close>

definition uriOf :: "rpc \<Rightarrow> string" where
  "uriOf req = (case rpc_uri req of Some u \<Rightarrow> u | None \<Rightarrow> '''')"

definition AuditInterceptor :: "(ctx, ctx, 'w, 'lim) interceptor" where
  "AuditInterceptor ctx req info handler n =
     (let start = nd_now n in
      case handler ctx req n of (r, n1) \<Rightarrow>
        (let attrs = [(''method'', AStr info), (''org'', AStr (Scope ctx))];
             sub = auth_subject ctx;
             attrs = (if sub \<noteq> '''' then attrs @ [(''sub'', AStr sub)] else attrs);
             attrs = attrs @ [(''uri'', AStr (uriOf req)),
                              (''code'', AStr (code_string (status_code r))),
                              (''ms'', AInt (milliseconds (nd_now n1 - start)))]
         in (r, n1\<lparr>nd_audit := nd_audit n1 @ [attrs]\<rparr>)))"

text \<open>
  \<open>rate.NewLimiter\<close> and \<open>(*Limiter).Allow\<close> at a time. The rate is a finite \<open>float64\<close>, a rational.
\<close>

record 'lim limiter_ops =
  rl_new :: "rat \<Rightarrow> int \<Rightarrow> 'lim"
  rl_allow :: "int \<Rightarrow> 'lim \<Rightarrow> bool \<times> 'lim"

text \<open>The burst the limiters are built with: \<open>int(rps)\<close> when none is given, and at least one.\<close>

definition rate_burst :: "rat \<Rightarrow> int \<Rightarrow> int" where
  "rate_burst rps burst =
     (if burst \<le> 0 then (let b = \<lfloor>rps\<rfloor> in if b < 1 then 1 else b) else burst)"

text \<open>The decision on one call: find or create the scope's limiter, and ask it.\<close>

definition rate_decide ::
  "'lim limiter_ops \<Rightarrow> rat \<Rightarrow> int \<Rightarrow> string \<Rightarrow> int \<Rightarrow> (string \<Rightarrow> 'lim option)
   \<Rightarrow> bool \<times> (string \<Rightarrow> 'lim option)" where
  "rate_decide R rps burst scope now limiters =
     (let lim = (case limiters scope of None \<Rightarrow> rl_new R rps burst | Some l \<Rightarrow> l)
      in case rl_allow R now lim of (ok, lim') \<Rightarrow> (ok, limiters(scope \<mapsto> lim')))"

definition RateLimitInterceptor ::
  "'lim limiter_ops \<Rightarrow> rat \<Rightarrow> int \<Rightarrow> (ctx, ctx, 'w, 'lim) interceptor" where
  "RateLimitInterceptor R rps burst =
     (if rps \<le> 0 then (\<lambda>ctx req info h n. h ctx req n)
      else (let burst = rate_burst rps burst in
        (\<lambda>ctx req info h n.
           let scope = Scope ctx in
           case rate_decide R rps burst scope (nd_now n) (nd_limiters n) of (ok, ls) \<Rightarrow>
             (let n1 = n\<lparr>nd_limiters := ls\<rparr> in
              if \<not> ok
              then (Inl (status_errorf ResourceExhausted ''rate limit exceeded for org %q'' [scope]), n1)
              else h ctx req n1))))"

section \<open>The chain\<close>

text \<open>\<open>grpc.ChainUnaryInterceptor\<close> makes its first argument the outermost.\<close>

definition serve_chain ::
  "('m, ctx, 'w, 'lim) interceptor \<Rightarrow> 'lim limiter_ops \<Rightarrow> rat \<Rightarrow> int
   \<Rightarrow> (ctx, 'w, 'lim) handler \<Rightarrow> 'm \<Rightarrow> rpc \<Rightarrow> string \<Rightarrow> ('w, 'lim) node
   \<Rightarrow> (status + rpc_resp) \<times> ('w, 'lim) node" where
  "serve_chain authn R rateLimit rateBurst handler md req info =
     MetricsInterceptor md req info (\<lambda>md req. authn md req info
       (\<lambda>ctx req. AuditInterceptor ctx req info
         (\<lambda>ctx req. RateLimitInterceptor R rateLimit rateBurst ctx req info handler)))"

text \<open>The service as the innermost handler; a call takes the time \<open>d\<close>.\<close>

definition service ::
  "'em lib \<Rightarrow> ('st, 'ca, 'nt, 'em) server \<Rightarrow> (rpc \<Rightarrow> nat) \<Rightarrow> (ctx, ('st, 'ca, 'nt) world, 'lim) handler" where
  "service L S d ctx req n =
     (case handle L S ctx req (nd_world n) of
        (r, w) \<Rightarrow> (r, n\<lparr>nd_world := w, nd_now := nd_now n + int (d req)\<rparr>))"

text \<open>
  What the program relies on in \<open>authn.Interceptor\<close>: the credentials a call carries are either
  refused with a status or resolved to the identity the handler sees, and nothing else happens.
\<close>

definition authn_law ::
  "('m, ctx, 'w, 'lim) interceptor \<Rightarrow> ('m \<Rightarrow> status + ctx) \<Rightarrow> bool" where
  "authn_law authn verify \<longleftrightarrow> (\<forall>md req info h n. authn md req info h n =
     (case verify md of Inl e \<Rightarrow> (Inl e, n) | Inr ctx \<Rightarrow> h ctx req n))"

section \<open>Rate limiting\<close>

lemma rate_burst_pos: "0 < rps \<Longrightarrow> 1 \<le> rate_burst rps burst"
  by (simp add: rate_burst_def Let_def)

text \<open>
  The decisions on a sequence of calls, each with its scope and time, oldest first.
\<close>

fun rate_run ::
  "'lim limiter_ops \<Rightarrow> rat \<Rightarrow> int \<Rightarrow> (string \<times> int) list \<Rightarrow> (string \<Rightarrow> 'lim option) \<Rightarrow> (string \<times> bool) list" where
  "rate_run R rps burst [] ls = []"
| "rate_run R rps burst ((scope, now) # cs) ls =
     (case rate_decide R rps burst scope now ls of
        (ok, ls') \<Rightarrow> (scope, ok) # rate_run R rps burst cs ls')"

lemma rate_decide_local:
  assumes "rate_decide R rps burst scope now ls = (ok, ls')"
  shows "s \<noteq> scope \<Longrightarrow> ls' s = ls s"
    and "ls2 scope = ls scope \<Longrightarrow> \<exists>ls2'. rate_decide R rps burst scope now ls2 = (ok, ls2')
           \<and> ls2' scope = ls' scope"
  using assms by (auto simp: rate_decide_def Let_def split: prod.splits)

lemma rate_run_filter:
  assumes "ls2 s = ls s"
  shows "filter (\<lambda>(x, ok). x = s) (rate_run R rps burst cs ls)
       = rate_run R rps burst (filter (\<lambda>(x, t). x = s) cs) ls2"
  using assms
proof (induction cs arbitrary: ls ls2)
  case (Cons c cs)
  obtain scope now where c: "c = (scope, now)" by fastforce
  obtain ok ls' where d: "rate_decide R rps burst scope now ls = (ok, ls')" by fastforce
  show ?case
  proof (cases "scope = s")
    case True
    then obtain ls2' where "rate_decide R rps burst scope now ls2 = (ok, ls2')" "ls2' scope = ls' scope"
      using rate_decide_local(2) [OF d, of ls2] Cons.prems by blast
    then show ?thesis using Cons.IH [of ls2' ls'] True c d by simp
  next
    case False
    then have "ls2 s = ls' s" using rate_decide_local(1) [OF d, of s] Cons.prems by simp
    then show ?thesis using Cons.IH [of ls2 ls'] False c d by simp
  qed
qed simp

text \<open>
  C31. One org cannot spend another's budget: whatever other orgs do in between, the calls of an org
  are admitted and refused exactly as if it were alone on the server.
\<close>

theorem rate_limit_isolates_orgs:
  "filter (\<lambda>(x, ok). x = s) (rate_run R rps burst cs Map.empty)
   = rate_run R rps burst (filter (\<lambda>(x, t). x = s) cs) Map.empty"
  by (rule rate_run_filter) (rule refl)

text \<open>
  The limiter refuses with \<open>ResourceExhausted\<close> and without running the call, admits the first
  call of every org when a limiter of burst at least one starts with a token (so that a rate below
  one per second still serves), and is not there at all when the rate is zero or negative.
\<close>

theorem rate_limit_outcome:
  assumes "\<forall>rps b now. 1 \<le> b \<longrightarrow> fst (rl_allow R now (rl_new R rps b))"
    and "RateLimitInterceptor R rps burst ctx q info h n = (r, n')"
  shows "(rps \<le> 0 \<longrightarrow> h ctx q n = (r, n'))
       \<and> (0 < rps \<longrightarrow> (\<exists>ls. if fst (rate_decide R rps (rate_burst rps burst) (Scope ctx) (nd_now n) (nd_limiters n))
            then h ctx q (n\<lparr>nd_limiters := ls\<rparr>) = (r, n')
            else n' = n\<lparr>nd_limiters := ls\<rparr> \<and> status_code r = ResourceExhausted
                 \<and> nd_limiters n (Scope ctx) \<noteq> None))"
proof -
  obtain ok ls where d: "rate_decide R rps (rate_burst rps burst) (Scope ctx) (nd_now n) (nd_limiters n)
      = (ok, ls)" by fastforce
  have first: "nd_limiters n (Scope ctx) \<noteq> None" if "0 < rps" "\<not> ok"
    using that d assms(1) [rule_format, OF rate_burst_pos [OF that(1), of burst], where rps = rps and now = "nd_now n"]
    by (auto simp: rate_decide_def Let_def split: prod.splits option.splits)
  show ?thesis
    using assms(2) first d unfolding RateLimitInterceptor_def Let_def
    by (cases ok; cases "rps \<le> 0") (auto intro!: exI [of _ ls])
qed

section \<open>Metrics and audit\<close>

lemma service_frame:
  assumes "service L S d ctx q n = (r, n')"
  shows "nd_requests n' = nd_requests n" "nd_durations n' = nd_durations n"
    "nd_audit n' = nd_audit n" "nd_limiters n' = nd_limiters n"
    "nd_now n' = nd_now n + int (d q)"
  using assms by (auto simp: service_def split: prod.splits)

lemma rate_limit_frame:
  assumes "RateLimitInterceptor R rps burst ctx q info (service L S d) n = (r, n')"
  shows "nd_requests n' = nd_requests n" "nd_durations n' = nd_durations n"
    "nd_audit n' = nd_audit n" "nd_now n \<le> nd_now n'"
  using assms
  by (auto simp: RateLimitInterceptor_def Let_def dest: service_frame split: if_splits prod.splits)

text \<open>The line the audit log gets for a call.\<close>

definition audit_line :: "ctx \<Rightarrow> string \<Rightarrow> rpc \<Rightarrow> code \<Rightarrow> int \<Rightarrow> (string \<times> attr) list" where
  "audit_line ctx info q c ms =
     [(''method'', AStr info), (''org'', AStr (Scope ctx))]
     @ (if auth_subject ctx \<noteq> '''' then [(''sub'', AStr (auth_subject ctx))] else [])
     @ [(''uri'', AStr (uriOf q)), (''code'', AStr (code_string c)), (''ms'', AInt ms)]"

lemma audit_spec:
  assumes "AuditInterceptor ctx q info (\<lambda>ctx req. RateLimitInterceptor R rps burst ctx req info (service L S d)) n
    = (r, n')"
  obtains ms where "nd_requests n' = nd_requests n" and "nd_durations n' = nd_durations n"
    and "nd_audit n' = nd_audit n @ [audit_line ctx info q (status_code r) ms]"
    and "0 \<le> ms" and "nd_now n \<le> nd_now n'"
proof -
  obtain r1 n1 where h: "RateLimitInterceptor R rps burst ctx q info (service L S d) n = (r1, n1)"
    by fastforce
  note frame = rate_limit_frame [OF h]
  have "0 \<le> milliseconds (nd_now n1 - nd_now n)" using frame(4) by (simp add: milliseconds_def)
  then show ?thesis
    using that [of "milliseconds (nd_now n1 - nd_now n)"] assms h frame
    by (auto simp: AuditInterceptor_def Let_def audit_line_def)
qed

text \<open>
  C17. Every call leaves its trace, whatever its outcome: it is counted once, under its method and
  the code of its answer, with one latency observation that is not negative, refusals by
  authentication and by the rate limit included; and every call that authenticates, rate-limited
  ones included, adds exactly one audit line naming the caller's org, the subject if there is one,
  the address and the code.
\<close>

theorem every_call_is_counted_and_audited:
  assumes "authn_law authn verify"
    and "serve_chain authn R rps burst (service L S d) md q info n = (r, n')"
  shows "nd_requests n' = (nd_requests n)((info, code_string (status_code r)) :=
            Suc (nd_requests n (info, code_string (status_code r))))
       \<and> (\<exists>t\<ge>0. nd_durations n' = (nd_durations n)(info := nd_durations n info @ [t]))
       \<and> (case verify md of
            Inl e \<Rightarrow> r = Inl e \<and> nd_audit n' = nd_audit n \<and> nd_world n' = nd_world n
          | Inr ctx \<Rightarrow> \<exists>ms\<ge>0. nd_audit n' = nd_audit n @ [audit_line ctx info q (status_code r) ms])"
proof (cases "verify md")
  case (Inl e)
  with assms show ?thesis
    by (auto simp: serve_chain_def MetricsInterceptor_def authn_law_def Let_def fun_eq_iff)
next
  case (Inr ctx)
  obtain r1 n1 where h: "AuditInterceptor ctx q info
      (\<lambda>ctx req. RateLimitInterceptor R rps burst ctx req info (service L S d)) n = (r1, n1)" by fastforce
  obtain ms where ms: "nd_requests n1 = nd_requests n" "nd_durations n1 = nd_durations n"
    "nd_audit n1 = nd_audit n @ [audit_line ctx info q (status_code r1) ms]" "0 \<le> ms"
    "nd_now n \<le> nd_now n1"
    using audit_spec [OF h] .
  have run: "r = r1" "n' = n1\<lparr>nd_requests := (nd_requests n1)((info, code_string (status_code r1)) :=
        nd_requests n1 (info, code_string (status_code r1)) + 1),
      nd_durations := (nd_durations n1)(info := nd_durations n1 info @ [nd_now n1 - nd_now n])\<rparr>"
    using assms Inr h by (auto simp: serve_chain_def MetricsInterceptor_def authn_law_def Let_def)
  have "\<exists>t\<ge>0. nd_durations n' = (nd_durations n)(info := nd_durations n info @ [t])"
    using ms(2,5) run by (intro exI [of _ "nd_now n1 - nd_now n"]) simp
  with Inr ms run show ?thesis by auto
qed

section \<open>Witnesses\<close>

text \<open>A limiter that never refills, and a check of credentials that are the org's name.\<close>

definition count_limiter :: "nat limiter_ops" where
  "count_limiter = \<lparr>rl_new = (\<lambda>rps b. nat b), rl_allow = (\<lambda>now k. (0 < k, k - 1))\<rparr>"

definition name_verify :: "string \<Rightarrow> status + ctx" where
  "name_verify o' = (if o' = '''' then Inl (status_error Unauthenticated ''missing'') else Inr (caller o' False))"

definition name_authn :: "(string, ctx, 'w, nat) interceptor" where
  "name_authn md req info h n = (case name_verify md of Inl e \<Rightarrow> (Inl e, n) | Inr ctx \<Rightarrow> h ctx req n)"

definition fresh_node :: "'w \<Rightarrow> ('w, nat) node" where
  "fresh_node w = \<lparr>nd_world = w, nd_now = 0, nd_requests = (\<lambda>_. 0), nd_durations = (\<lambda>_. []),
                   nd_audit = [], nd_limiters = Map.empty\<rparr>"

lemma count_limiter_law: "\<forall>rps b now. 1 \<le> b \<longrightarrow> fst (rl_allow count_limiter now (rl_new count_limiter rps b))"
  by (simp add: count_limiter_def)

text \<open>Half a call per second: the first call of an org is served.\<close>

theorem rate_limit_outcome_witness:
  "\<forall>h. \<exists>ls. RateLimitInterceptor count_limiter (1/2) 0 (caller ''acme'' False) (RpcList '''') ''List'' h (fresh_node ())
     = h (caller ''acme'' False) (RpcList '''') (fresh_node ()\<lparr>nd_limiters := ls\<rparr>)"
proof
  fix h :: "(ctx, unit, nat) handler"
  obtain r n' where run: "RateLimitInterceptor count_limiter (1/2) 0 (caller ''acme'' False) (RpcList '''')
      ''List'' h (fresh_node ()) = (r, n')" by fastforce
  show "\<exists>ls. RateLimitInterceptor count_limiter (1/2) 0 (caller ''acme'' False) (RpcList '''') ''List'' h (fresh_node ())
     = h (caller ''acme'' False) (RpcList '''') (fresh_node ()\<lparr>nd_limiters := ls\<rparr>)"
    unfolding run using rate_limit_outcome [OF count_limiter_law run]
    by (simp add: fresh_node_def split: if_splits) metis
qed

theorem every_call_is_counted_and_audited_witness:
  "\<exists>r n'. serve_chain name_authn count_limiter 0 0
       (service sample_lib (sample_server (Some mem_cache)) (\<lambda>_. 7)) ''acme'' (RpcListCommits acme_uri)
       ''ListCommits'' (fresh_node (sample_world sample_cache)) = (r, n')
     \<and> nd_requests n' (''ListCommits'', code_string (status_code r)) = 1
     \<and> (\<exists>ms. nd_audit n' = [audit_line (caller ''acme'' False) ''ListCommits'' (RpcListCommits acme_uri)
                              (status_code r) ms])"
proof -
  obtain r n' where run: "serve_chain name_authn count_limiter 0 0
       (service sample_lib (sample_server (Some mem_cache)) (\<lambda>_. 7)) ''acme'' (RpcListCommits acme_uri)
       ''ListCommits'' (fresh_node (sample_world sample_cache)) = (r, n')" by fastforce
  have "authn_law name_authn name_verify" by (simp add: authn_law_def name_authn_def)
  from every_call_is_counted_and_audited [OF this run] show ?thesis
    using run by (auto simp: name_verify_def fresh_node_def)
qed

end
