(* ===== verification/Serve_Run.thy ===== *)
theory Serve_Run
  imports Sample_Databases Rpc_Observe
begin

text \<open>
  \<open>priompt serve\<close> (\<open>cmd/priompt/main.go\<close>) from its parsed flags to the point where it serves: every
  step in its order, each of which may end the process, and the server that results. The steps'
  own decisions are in \<open>Serve_Startup\<close>, the credentials in \<open>Cli_Host\<close>.
\<close>

section \<open>Flags, platform and the running server\<close>

record serve_opts =
  so_addr :: string
  so_db :: string
  so_cert :: string
  so_key :: string
  so_clientCA :: string
  so_cacheTTL :: int
  so_redisURL :: string
  so_embedURL :: string
  so_embedModel :: string
  so_broker :: broker_flags
  so_tokensFile :: string
  so_metricsAddr :: string
  so_rateLimit :: go_float
  so_rateBurst :: int
  so_seed :: bool
  so_jwksURL :: string

text \<open>
  What \<open>serve\<close> calls in other modules: \<open>authn.LoadTokens\<close>, \<open>NewStatic\<close> and \<open>NewJWKS\<close>, the storage
  engine, \<open>store.NewSealer\<close>, the Redis client, \<open>pubsub.NewEmbedded\<close> and \<open>net.Listen\<close>; the text of
  a rate under \<open>%g\<close>; and the build stamp.
\<close>

record ('tok, 'st, 'rd, 'crt, 'pool) platform =
  pf_tokens :: "string \<Rightarrow> gerr + 'tok list"
  pf_static :: "'tok list \<Rightarrow> provider"
  pf_jwks :: "string \<Rightarrow> provider"
  pf_dbs :: "'st dbs"
  pf_sealer :: "gerr + resp_codec"
  pf_redis :: "string \<Rightarrow> gerr + 'rd redis_client"
  pf_embedded :: "config \<Rightarrow> gerr option"
  pf_pem :: "('crt, 'pool) pem"
  pf_listen :: "string \<Rightarrow> gerr option"
  pf_rate_text :: "go_float \<Rightarrow> string"
  pf_version :: string
  pf_commit :: string

record ('rd, 'crt, 'pool) running =
  rn_creds :: "('crt, 'pool) tls_config option"
  rn_providers :: "provider list"
  rn_embedder :: embedder
  rn_cache :: "'rd server_cache"
  rn_broker :: "config option"
  rn_limit :: "go_float \<times> int"
  rn_db :: string
  rn_metrics :: "(string \<times> string \<times> string) option"

text \<open>
  \<open>rn_metrics\<close> is the metrics listener, if any: the build it was stamped with and the address its
  goroutine was started for. What that goroutine logs, at any time from then on, is in
  \<open>Metrics_Page\<close>; \<open>h_stderr\<close> below has the lines of the command itself.
\<close>

section \<open>The steps\<close>

text \<open>No provider means that authentication is disabled.\<close>

definition serve_providers ::
  "('tok, 'st, 'rd, 'crt, 'pool) platform \<Rightarrow> serve_opts \<Rightarrow> 'tok list \<Rightarrow> provider list" where
  "serve_providers PF F tokens =
     (if length tokens > 0 then [pf_static PF tokens] else [])
     @ (if so_jwksURL F \<noteq> '''' then [pf_jwks PF (so_jwksURL F)] else [])"

fun log_all :: "log_line list \<Rightarrow> (unit, 's) cmd" where
  "log_all [] = give ()"
| "log_all (l # ls) = seq (log_err l) (\<lambda>_. log_all ls)"

definition check_key :: "'st dbs \<Rightarrow> string \<Rightarrow> (unit, 'st) cmd" where
  "check_key D path =
     seq (outside (\<lambda>s. map_prod Inr id (ar_dump (db_archive D path) s))) (\<lambda>dump.
     seq (os_env ''PRIOMPT_ENCRYPTION_KEY'') (\<lambda>key.
     case checkEncryptionKey dump key of (err, ls) \<Rightarrow>
       seq (log_all ls) (\<lambda>_. case err of Some e \<Rightarrow> die (Fatal e []) | None \<Rightarrow> give ())))"

definition seed_step :: "'st dbs \<Rightarrow> string \<Rightarrow> (unit, 'st) cmd" where
  "seed_step D path =
     seq (outside (\<lambda>s. case seedDemo (db_store D path) s of (s', ls) \<Rightarrow> (Inr ls, s'))) log_all"

definition broker_step ::
  "(config \<Rightarrow> gerr option) \<Rightarrow> broker_flags \<Rightarrow> provider list \<Rightarrow> (config option, 's) cmd" where
  "broker_step embedded B providers =
     (case serve_broker B providers of
        Inl f \<Rightarrow> die f
      | Inr None \<Rightarrow> give None
      | Inr (Some cfg) \<Rightarrow> (case embedded cfg of Some e \<Rightarrow> die (Fatal (err_text e) []) | None \<Rightarrow> give (Some cfg)))"

definition creds_step ::
  "('crt, 'pool) pem \<Rightarrow> serve_opts \<Rightarrow> (('crt, 'pool) tls_config option, 's) cmd" where
  "creds_step X F =
     (if so_cert F \<noteq> '''' then
        seq (ask (\<lambda>h. serverCreds X h (so_cert F) (so_key F) (so_clientCA F))) (\<lambda>r.
        seq (or_die r) (\<lambda>c. give (Some c)))
      else give None)"

text \<open>\<open>%v\<close> of a truth value.\<close>

definition bool_text :: "bool \<Rightarrow> string" where
  "bool_text b = (if b then ''true'' else ''false'')"

definition startup_line ::
  "('tok, 'st, 'rd, 'crt, 'pool) platform \<Rightarrow> serve_opts \<Rightarrow> nat \<Rightarrow> log_line" where
  "startup_line PF F tokens =
     (''priompt %s (%s) serving on %s (tls=%v mtls=%v auth=%d-token cache=%s embed=%s nats=%s metrics=%s ratelimit=%g/s)'',
      [pf_version PF, pf_commit PF, so_addr F, bool_text (so_cert F \<noteq> ''''), bool_text (so_clientCA F \<noteq> ''''),
       nat_digits tokens, cacheName (so_redisURL F) (so_cacheTTL F), embedName (so_embedURL F) (so_embedModel F),
       natsAddr (so_broker F), so_metricsAddr F, pf_rate_text PF (so_rateLimit F)])"

definition start_metrics :: "('tok, 'st, 'rd, 'crt, 'pool) platform \<Rightarrow> serve_opts \<Rightarrow> (string \<times> string \<times> string) option" where
  "start_metrics PF F =
     (if so_metricsAddr F \<noteq> '''' then Some (pf_version PF, pf_commit PF, so_metricsAddr F) else None)"

definition serve_cmd ::
  "('tok, 'st, 'rd, 'crt, 'pool) platform \<Rightarrow> serve_opts \<Rightarrow> (('rd, 'crt, 'pool) running, 'st) cmd" where
  "serve_cmd PF F =
     (case checkTLSFlags (so_cert F) (so_key F) (so_clientCA F) of
        Some msg \<Rightarrow> die (Fatal msg [])
      | None \<Rightarrow>
          seq (or_die (pf_tokens PF (so_tokensFile F))) (\<lambda>tokens.
          seq (os_env ''PRIOMPT_EMBED_KEY'') (\<lambda>embedKey.
          seq (open_db (pf_dbs PF) (so_db F)) (\<lambda>_.
          seq (check_key (pf_dbs PF) (so_db F)) (\<lambda>_.
          seq (if so_seed F then seed_step (pf_dbs PF) (so_db F) else give ()) (\<lambda>_.
          seq (ask h_now) (\<lambda>now.
          seq (case buildCache (pf_redis PF) (pf_sealer PF) now (so_redisURL F) (so_cacheTTL F) of
                 Inl f \<Rightarrow> die f | Inr c \<Rightarrow> give c) (\<lambda>cache.
          seq (broker_step (pf_embedded PF) (so_broker F) (serve_providers PF F tokens)) (\<lambda>broker.
          seq (creds_step (pf_pem PF) F) (\<lambda>creds.
          case pf_listen PF (so_addr F) of
            Some e \<Rightarrow> die (Fatal (err_text e) [])
          | None \<Rightarrow>
              seq (log_err (startup_line PF F (length tokens))) (\<lambda>_.
              give \<lparr>rn_creds = creds, rn_providers = serve_providers PF F tokens,
                    rn_embedder = buildEmbedder (so_embedURL F) (so_embedModel F) embedKey,
                    rn_cache = cache, rn_broker = broker, rn_limit = (so_rateLimit F, so_rateBurst F),
                    rn_db = so_db F, rn_metrics = start_metrics PF F\<rparr>)))))))))))"

section \<open>What a start may change\<close>

text \<open>
  A relation between the states before and after that every step of a command keeps: a contract
  shared by the steps, from which that of the whole follows.
\<close>

locale cmd_frame =
  fixes R :: "host \<times> 's \<Rightarrow> host \<times> 's \<Rightarrow> bool"
  assumes R_refl: "R w w" and R_trans: "R w w1 \<Longrightarrow> R w1 w2 \<Longrightarrow> R w w2"
begin

definition framed :: "('a, 's) cmd \<Rightarrow> bool" where
  "framed c \<longleftrightarrow> (\<forall>w. R w (snd (c w)))"

lemma framed_plain: "framed (give x)" "framed (die f)" "framed (exit_with n)" "framed (ask g)"
  by (simp_all add: framed_def give_def die_def exit_with_def ask_def R_refl)

lemma framed_or_die: "framed (or_die r)"
  by (cases r) (simp_all add: framed_plain)

lemma framed_seq:
  assumes "framed c" and "\<And>x. framed (f x)"
  shows "framed (seq c f)"
  unfolding framed_def
proof
  fix w
  obtain r w1 where c: "c w = (r, w1)" by (cases "c w")
  have first: "R w w1" using assms(1) c unfolding framed_def by (metis snd_conv)
  show "R w (snd (seq c f w))"
  proof (cases r)
    case (Inl e)
    then show ?thesis using c first by (simp add: seq_def)
  next
    case (Inr x)
    have "R w1 (snd (f x w1))" using assms(2) unfolding framed_def by blast
    then show ?thesis using c Inr R_trans [OF first] by (simp add: seq_def)
  qed
qed

lemma framedD: "framed c \<Longrightarrow> c w = (r, w') \<Longrightarrow> R w w'"
  unfolding framed_def by (metis snd_conv)

lemmas framed_intros = framed_plain framed_or_die framed_seq

end

text \<open>
  What a start leaves of the host and of the data: nothing but log lines is written; a served prompt
  stays served as it is, and no address but the demo prompt's is touched.
\<close>

definition start_frame :: "'st store \<Rightarrow> host \<times> 'st \<Rightarrow> host \<times> 'st \<Rightarrow> bool" where
  "start_frame st w w' \<longleftrightarrow>
     (\<exists>ls. fst w' = (fst w)\<lparr>h_stderr := h_stderr (fst w) @ ls\<rparr>)
   \<and> (\<forall>u p. served st (snd w) u = (p, None) \<longrightarrow> served st (snd w') u = (p, None))
   \<and> (\<forall>u. u \<noteq> demo_uri \<longrightarrow> served st (snd w') u = served st (snd w) u)"

interpretation start: cmd_frame "start_frame st" for st
proof
  show "start_frame st w w" for w
    by (auto simp: start_frame_def intro: exI [of _ "[]"])
  show "start_frame st w w2" if a: "start_frame st w w1" and b: "start_frame st w1 w2" for w w1 w2
  proof -
    obtain ls where "fst w1 = (fst w)\<lparr>h_stderr := h_stderr (fst w) @ ls\<rparr>"
      using a unfolding start_frame_def by blast
    moreover obtain ls' where "fst w2 = (fst w1)\<lparr>h_stderr := h_stderr (fst w1) @ ls'\<rparr>"
      using b unfolding start_frame_def by blast
    ultimately have "fst w2 = (fst w)\<lparr>h_stderr := h_stderr (fst w) @ ls @ ls'\<rparr>" by simp
    moreover have "served st (snd w2) u = (p, None)" if "served st (snd w) u = (p, None)" for u p
      using that a b unfolding start_frame_def by blast
    moreover have "served st (snd w2) u = served st (snd w) u" if "u \<noteq> demo_uri" for u
      using that a b unfolding start_frame_def by simp
    ultimately show ?thesis unfolding start_frame_def by blast
  qed
qed

text \<open>\<open>Dump\<close> reads.\<close>

definition dump_pure :: "'st dbs \<Rightarrow> string \<Rightarrow> bool" where
  "dump_pure D path \<longleftrightarrow> (\<forall>s. snd (ar_dump (db_archive D path) s) = s)"

lemma start_frame_world:
  assumes "\<And>s. start_frame st (h, s) (h, snd (f s))"
  shows "start_frame st (h, s) (snd (outside f (h, s)))"
  using assms [of s] by (cases "f s"; cases "fst (f s)") (simp_all add: outside_def)

lemma framed_log: "start.framed st (log_err l)"
  by (auto simp: start.framed_def log_err_def start_frame_def)

lemma framed_log_all: "start.framed st (log_all ls)"
  by (induction ls) (simp_all add: start.framed_intros framed_log)

lemma framed_open:
  assumes "open_law D"
  shows "start.framed (db_store D path) (open_db D path)"
  using assms
  by (auto simp: start.framed_def open_db_def failing_def outside_def start_frame_def open_law_def
      split: prod.splits option.splits intro: exI [of _ "[]"])

lemma framed_check:
  assumes "dump_pure D path"
  shows "start.framed st (check_key D path)"
proof -
  have "start.framed st (outside (\<lambda>s. map_prod Inr id (ar_dump (db_archive D path) s)))"
    using assms by (simp add: start.framed_def dump_pure_def start_frame_world start.R_refl)
  then show ?thesis
    unfolding check_key_def os_env_def
    by (intro start.framed_intros) (auto intro!: start.framed_intros framed_log_all split: prod.split option.split)
qed

lemma framed_seed:
  assumes "reads_pure st" and "commit_contract L st" and "default_branch L = ''main''"
  shows "start_frame st (h, s) (h, fst (seedDemo st s))"
proof (cases "served st s demo_uri")
  case (Pair p err)
  show ?thesis
  proof (cases "case err of None \<Rightarrow> False | Some e \<Rightarrow> errors_is e Err_NotFound")
    case False
    then show ?thesis using Pair reads_pure_get [OF assms(1)] by (simp add: seedDemo_def start.R_refl)
  next
    case True
    then obtain e where e: "err = Some e" by (auto split: option.splits)
    obtain r s2 where c: "st_commit st demo_uri ''main'' (''Hi {name}, welcome to {org}!'' @ [LF]) [''name'', ''org'']
        ''priompt'' ''seed: demo prompt'' s = (r, s2)" by fastforce
    have "fst (seedDemo st s) = s2"
      using Pair True c reads_pure_get [OF assms(1)] by (cases r) (simp_all add: seedDemo_def)
    moreover have "\<forall>u. u \<noteq> demo_uri \<longrightarrow> served st s2 u = served st s u"
      using commit_contractD(1) [OF assms(2) c] by blast
    moreover have "u \<noteq> demo_uri" if "served st s u = (x, None)" for u x using that Pair e by auto
    ultimately show ?thesis by (auto simp: start_frame_def intro: exI [of _ "[]"])
  qed
qed

text \<open>
  C10. Starting the server never harms the data. However \<open>serve\<close> ends, serving or stopped at any of its
  steps: every prompt that was served is served unchanged, no address but the demo prompt's is
  touched, and on the host nothing but log lines is written.
\<close>

theorem start_keeps_the_data:
  assumes "open_law (pf_dbs PF)" and "dump_pure (pf_dbs PF) (so_db F)"
    and "reads_pure (db_store (pf_dbs PF) (so_db F))"
    and "commit_contract L (db_store (pf_dbs PF) (so_db F))" and "default_branch L = ''main''"
    and "serve_cmd PF F (h, s) = (outcome, (h', s'))"
  shows "(\<forall>u p. served (db_store (pf_dbs PF) (so_db F)) s u = (p, None)
            \<longrightarrow> served (db_store (pf_dbs PF) (so_db F)) s' u = (p, None))
       \<and> (\<forall>u. u \<noteq> demo_uri
            \<longrightarrow> served (db_store (pf_dbs PF) (so_db F)) s' u = served (db_store (pf_dbs PF) (so_db F)) s u)
       \<and> (\<exists>ls. h' = h\<lparr>h_stderr := h_stderr h @ ls\<rparr>)"
proof -
  let ?st = "db_store (pf_dbs PF) (so_db F)"
  have "start.framed ?st (seed_step (pf_dbs PF) (so_db F))"
  proof -
    have seeded: "start_frame ?st (a, b) (a, snd (case seedDemo ?st b of (s', ls) \<Rightarrow> (Inr ls, s')))" for a b
      using framed_seed [OF assms(3-5), of a b] by (cases "seedDemo ?st b") simp
    have "start.framed ?st (outside (\<lambda>s. case seedDemo ?st s of (s', ls) \<Rightarrow> (Inr ls, s')))"
      by (simp only: start.framed_def split_paired_All) (intro allI start_frame_world seeded)
    then show ?thesis unfolding seed_step_def by (rule start.framed_seq) (rule framed_log_all)
  qed
  then have "start.framed ?st (serve_cmd PF F)"
    unfolding serve_cmd_def os_env_def broker_step_def creds_step_def
    by (auto simp del: seq_ask seq_give seq_die intro!: start.framed_intros framed_open framed_check assms framed_log
        split: option.split sum.split)
  then have "start_frame ?st (h, s) (h', s')" using assms(6) by (rule start.framedD)
  then show ?thesis by (simp add: start_frame_def)
qed

section \<open>What a server that started is\<close>

lemma serverCreds_files:
  assumes "h_files h1 = h_files h2"
  shows "serverCreds X h1 = serverCreds X h2"
  by (intro ext) (simp only: serverCreds_def load_pair_def certPool_def assms)

interpretation files: cmd_frame "\<lambda>w w'. h_files (fst w') = h_files (fst w)"
  by unfold_locales simp_all

lemma files_outside: "files.framed (outside f)"
  by (simp add: files.framed_def outside_def split: prod.split sum.split)

lemma files_log: "files.framed (log_err l)" "files.framed (log_all ls)"
proof -
  show l: "files.framed (log_err l)" for l by (simp add: files.framed_def log_err_def)
  show "files.framed (log_all ls)" by (induction ls) (simp_all add: files.framed_intros l)
qed

lemma files_steps:
  "files.framed (open_db D path)" "files.framed (check_key D path)" "files.framed (seed_step D path)"
  "files.framed (broker_step embedded B ps)"
proof -
  show "files.framed (open_db D path)" by (simp add: open_db_def failing_def files_outside)
  show "files.framed (check_key D path)"
    unfolding check_key_def os_env_def
    by (intro files.framed_intros files_outside) (auto intro!: files.framed_intros files_log split: prod.split option.split)
  show "files.framed (seed_step D path)"
    unfolding seed_step_def by (rule files.framed_seq) (rule files_outside, rule files_log)
  show "files.framed (broker_step embedded B ps)"
    unfolding broker_step_def by (auto intro!: files.framed_intros split: sum.split option.split)
qed

lemma seq_Inr_iff: "seq c f w = (Inr y, w') \<longleftrightarrow> (\<exists>x w1. c w = (Inr x, w1) \<and> f x w1 = (Inr y, w'))"
  by (auto simp: seq_def split: prod.splits sum.splits)

text \<open>A server that started has passed every step.\<close>

lemma serve_started:
  assumes "serve_cmd PF F (h, s) = (Inr rn, (h', s'))"
  obtains tokens now where "checkTLSFlags (so_cert F) (so_key F) (so_clientCA F) = None"
    and "pf_tokens PF (so_tokensFile F) = Inr tokens" and "rn_providers rn = serve_providers PF F tokens"
    and "buildCache (pf_redis PF) (pf_sealer PF) now (so_redisURL F) (so_cacheTTL F) = Inr (rn_cache rn)"
    and "serve_broker (so_broker F) (rn_providers rn) = Inr (rn_broker rn)"
    and "if so_cert F = '''' then rn_creds rn = None
         else map_sum id Some (serverCreds (pf_pem PF) h (so_cert F) (so_key F) (so_clientCA F)) = Inr (rn_creds rn)"
    and "rn_embedder rn = buildEmbedder (so_embedURL F) (so_embedModel F) (getenv (h_environ h) ''PRIOMPT_EMBED_KEY'')"
    and "\<exists>ls. h_stderr h' = ls @ [startup_line PF F (length tokens)]"
proof -
  have flags: "checkTLSFlags (so_cert F) (so_key F) (so_clientCA F) = None"
    using assms by (auto simp: serve_cmd_def die_def split: option.splits)
  obtain tokens where tokens: "pf_tokens PF (so_tokensFile F) = Inr tokens"
    using assms by (cases "pf_tokens PF (so_tokensFile F)") (auto simp: serve_cmd_def die_def split: option.splits)
  let ?key = "getenv (h_environ (fst (h, s))) ''PRIOMPT_EMBED_KEY''"
  obtain w1 w2 w3 cache w4 broker w5 creds w7 where
    w1: "open_db (pf_dbs PF) (so_db F) (h, s) = (Inr (), w1)"
    and w2: "check_key (pf_dbs PF) (so_db F) w1 = (Inr (), w2)"
    and w3: "(if so_seed F then seed_step (pf_dbs PF) (so_db F) else give ()) w2 = (Inr (), w3)"
    and w4: "(case buildCache (pf_redis PF) (pf_sealer PF) (h_now (fst w3)) (so_redisURL F) (so_cacheTTL F) of
                 Inl f \<Rightarrow> die f | Inr c \<Rightarrow> give c) w3 = (Inr cache, w4)"
    and w5: "broker_step (pf_embedded PF) (so_broker F) (serve_providers PF F tokens) w4 = (Inr broker, w5)"
    and w7: "creds_step (pf_pem PF) F w5 = (Inr creds, w7)"
    and rest: "(case pf_listen PF (so_addr F) of Some e \<Rightarrow> die (Fatal (err_text e) []) | None \<Rightarrow>
              seq (log_err (startup_line PF F (length tokens))) (\<lambda>_.
              give \<lparr>rn_creds = creds, rn_providers = serve_providers PF F tokens,
                    rn_embedder = buildEmbedder (so_embedURL F) (so_embedModel F) ?key,
                    rn_cache = cache, rn_broker = broker, rn_limit = (so_rateLimit F, so_rateBurst F),
                    rn_db = so_db F, rn_metrics = start_metrics PF F\<rparr>)) w7 = (Inr rn, (h', s'))"
    using assms flags tokens unfolding serve_cmd_def os_env_def
    by (simp only: option.case or_die_simps seq_give seq_ask seq_Inr_iff) (elim exE conjE, rule that; simp)
  have rn: "rn = \<lparr>rn_creds = creds, rn_providers = serve_providers PF F tokens,
                    rn_embedder = buildEmbedder (so_embedURL F) (so_embedModel F) ?key,
                    rn_cache = cache, rn_broker = broker, rn_limit = (so_rateLimit F, so_rateBurst F), rn_db = so_db F,
                    rn_metrics = start_metrics PF F\<rparr>"
    and line: "\<exists>ls. h_stderr h' = ls @ [startup_line PF F (length tokens)]"
    using rest by (auto simp: seq_log_err give_def die_def split: option.splits)
  have "files.framed (if so_seed F then seed_step (pf_dbs PF) (so_db F) else give ())"
    "files.framed (case buildCache (pf_redis PF) (pf_sealer PF) (h_now (fst w3)) (so_redisURL F) (so_cacheTTL F) of
                 Inl f \<Rightarrow> die f | Inr c \<Rightarrow> give c)"
    by (auto intro!: files_steps files_log files.framed_intros split: sum.split)
  from files_steps(1) [THEN files.framedD, OF w1] files_steps(2) [THEN files.framedD, OF w2] files.framedD [OF this(1) w3]
    files.framedD [OF this(2) w4] files_steps(4) [THEN files.framedD, OF w5]
  have same: "h_files (fst w5) = h_files h" by simp
  have "if so_cert F = '''' then creds = None
      else map_sum id Some (serverCreds (pf_pem PF) h (so_cert F) (so_key F) (so_clientCA F)) = Inr creds"
    using w7 serverCreds_files [OF same, of "pf_pem PF"]
    by (cases "serverCreds (pf_pem PF) h (so_cert F) (so_key F) (so_clientCA F)")
       (auto simp: creds_step_def give_def die_def split: if_splits)
  moreover have "serve_broker (so_broker F) (serve_providers PF F tokens) = Inr broker"
    using w5 by (auto simp: broker_step_def die_def give_def split: sum.splits option.splits)
  moreover have "buildCache (pf_redis PF) (pf_sealer PF) (h_now (fst w3)) (so_redisURL F) (so_cacheTTL F) = Inr cache"
    using w4 by (auto simp: die_def give_def split: sum.splits)
  ultimately show ?thesis using that flags tokens rn line by simp
qed

text \<open>What a broker's options demand of every client, on whichever of its ports it comes.\<close>

definition demands_token :: "nats_options \<Rightarrow> authenticate option \<Rightarrow> string \<Rightarrow> bool" where
  "demands_token opts check token \<longleftrightarrow> (case o_custom opts of
      Some a \<Rightarrow> check = Some (ca_check a) \<and> client_check a '''' = None
        \<and> (\<forall>tok. client_check a tok \<noteq> None \<longrightarrow> tok = token \<or> snd (snd (ca_check a tok)))
    | None \<Rightarrow> check = None \<and> o_authorization opts = token)"

definition demands_nothing :: "nats_options \<Rightarrow> bool" where
  "demands_nothing opts \<longleftrightarrow> o_users opts = [] \<and> o_custom opts = None \<and> o_authorization opts = ''''"

text \<open>
  C9. A server that is serving is guarded as its flags say. It serves in plaintext only when no TLS
  flag was given at all; with a certificate it presents that very key pair, and with a client CA it
  accepts only clients with a certificate of that CA. It runs a broker unless the address was empty.
  A broker with a token demands of every client that token or one that a provider of the API accepts,
  and admits nobody anonymous; one without a token demands nothing of any client, and then its client
  address is loopback. A cluster port that can be reached from outside has a secret, which its peers
  must know; that port also admits clients, on the same terms as the other, so that without a token
  it is open to them.
\<close>

theorem serve_starts_guarded:
  assumes "serve_cmd PF F (h, s) = (Inr rn, (h', s'))"
  shows "(case rn_creds rn of
            None \<Rightarrow> so_cert F = '''' \<and> so_key F = '''' \<and> so_clientCA F = ''''
          | Some cfg \<Rightarrow> (\<exists>c. load_pair (pf_pem PF) h (so_cert F) (so_key F) = Inr c \<and> t_certificates cfg = [c])
              \<and> (so_clientCA F \<noteq> '''' \<longrightarrow> t_client_auth cfg = RequireAndVerifyClientCert
                   \<and> (\<exists>p. certPool (pf_pem PF) h (so_clientCA F) = Inr p \<and> t_client_cas cfg = Some p)))
       \<and> (case rn_broker rn of
            None \<Rightarrow> natsAddr (so_broker F) = ''''
          | Some cfg \<Rightarrow> cfg_authenticate cfg = natsAuth (rn_providers rn)
              \<and> (if natsToken (so_broker F) \<noteq> '''' then demands_token (options cfg) (natsAuth (rn_providers rn)) (natsToken (so_broker F))
                 else demands_nothing (options cfg) \<and> isLoopback (cfg_host cfg))
              \<and> (natsCluster (so_broker F) \<noteq> '''' \<and> \<not> isLoopback (cfg_cluster_host cfg) \<longrightarrow> cfg_route_secret cfg \<noteq> ''''))"
proof -
  obtain tokens now where f: "checkTLSFlags (so_cert F) (so_key F) (so_clientCA F) = None"
    and b: "serve_broker (so_broker F) (rn_providers rn) = Inr (rn_broker rn)"
    and c: "if so_cert F = '''' then rn_creds rn = None
         else map_sum id Some (serverCreds (pf_pem PF) h (so_cert F) (so_key F) (so_clientCA F)) = Inr (rn_creds rn)"
    using serve_started [OF assms] by metis
  have tls: "case rn_creds rn of
            None \<Rightarrow> so_cert F = '''' \<and> so_key F = '''' \<and> so_clientCA F = ''''
          | Some cfg \<Rightarrow> (\<exists>c. load_pair (pf_pem PF) h (so_cert F) (so_key F) = Inr c \<and> t_certificates cfg = [c])
              \<and> (so_clientCA F \<noteq> '''' \<longrightarrow> t_client_auth cfg = RequireAndVerifyClientCert
                   \<and> (\<exists>p. certPool (pf_pem PF) h (so_clientCA F) = Inr p \<and> t_client_cas cfg = Some p))"
  proof (cases "so_cert F = ''''")
    case True
    then show ?thesis using c f by (auto simp: checkTLSFlags_def split: if_splits)
  next
    case False
    then obtain cfg where cfg: "serverCreds (pf_pem PF) h (so_cert F) (so_key F) (so_clientCA F) = Inr cfg" "rn_creds rn = Some cfg"
      using c by (cases "serverCreds (pf_pem PF) h (so_cert F) (so_key F) (so_clientCA F)") auto
    from serverCreds_Inr [OF cfg(1)] show ?thesis unfolding cfg(2) option.case by metis
  qed
  have broker: "case rn_broker rn of
            None \<Rightarrow> natsAddr (so_broker F) = ''''
          | Some cfg \<Rightarrow> cfg_authenticate cfg = natsAuth (rn_providers rn)
              \<and> (if natsToken (so_broker F) \<noteq> '''' then demands_token (options cfg) (natsAuth (rn_providers rn)) (natsToken (so_broker F))
                 else demands_nothing (options cfg) \<and> isLoopback (cfg_host cfg))
              \<and> (natsCluster (so_broker F) \<noteq> '''' \<and> \<not> isLoopback (cfg_cluster_host cfg) \<longrightarrow> cfg_route_secret cfg \<noteq> '''')"
  proof (cases "rn_broker rn")
    case None
    then show ?thesis using b by (auto simp: serve_broker_def Let_def split: if_splits sum.splits prod.splits)
  next
    case (Some cfg)
    have run: "serve_broker (so_broker F) (rn_providers rn) = Inr (Some cfg)" using b Some by simp
    note started = serve_broker_Some [OF run]
    have cfg: "cfg_token cfg = natsToken (so_broker F)" "cfg_authenticate cfg = natsAuth (rn_providers rn)"
      "natsCluster (so_broker F) \<noteq> '''' \<and> \<not> isLoopback (cfg_cluster_host cfg) \<longrightarrow> cfg_route_secret cfg \<noteq> ''''"
      "cfg_users cfg = []" "natsToken (so_broker F) \<noteq> '''' \<or> isLoopback (cfg_host cfg)"
      by (rule started, auto split: if_splits)+
    have "if natsToken (so_broker F) \<noteq> '''' then demands_token (options cfg) (natsAuth (rn_providers rn)) (natsToken (so_broker F))
      else demands_nothing (options cfg)"
      using cfg(1,2,4) by (cases "cfg_authenticate cfg")
        (auto simp: demands_token_def demands_nothing_def options_auth client_check_def Let_def split: prod.splits if_splits)
    then show ?thesis using cfg Some by (simp split: if_splits)
  qed
  show ?thesis using tls broker by blast
qed

text \<open>
  C39. The start-up line is true of the server that prints it: the truth values after \<open>tls\<close> and \<open>mtls\<close>
  say whether it has credentials and whether it demands a client's, \<open>cache\<close> names the cache it
  has, \<open>embed\<close> says whether a model is asked over the network, and \<open>auth\<close> counts its static tokens.
\<close>

theorem startup_line_is_true:
  assumes "serve_cmd PF F (h, s) = (Inr rn, (h', s'))"
  shows "\<exists>ls v c a tls mtls auth k embed nats metrics rate tokens. h_stderr h' = ls @
      [(''priompt %s (%s) serving on %s (tls=%v mtls=%v auth=%d-token cache=%s embed=%s nats=%s metrics=%s ratelimit=%g/s)'',
        [v, c, a, tls, mtls, auth, k, embed, nats, metrics, rate])]
    \<and> (tls = ''true'' \<longleftrightarrow> rn_creds rn \<noteq> None)
    \<and> (mtls = ''true'' \<longleftrightarrow> (\<exists>cfg. rn_creds rn = Some cfg \<and> t_client_auth cfg = RequireAndVerifyClientCert))
    \<and> (case rn_cache rn of Shared K \<Rightarrow> k = ''redis'' | In_process ca \<Rightarrow> k = ''mem'' \<and> ttl ca > 0 | Uncached \<Rightarrow> k = ''off'')
    \<and> (embed = ''lexical(offline)'' \<longleftrightarrow> rn_embedder rn = LexicalEmbedder)
    \<and> pf_tokens PF (so_tokensFile F) = Inr tokens \<and> auth = nat_digits (length tokens)
    \<and> (nats = '''' \<longleftrightarrow> rn_broker rn = None)"
proof -
  obtain tokens now where f: "checkTLSFlags (so_cert F) (so_key F) (so_clientCA F) = None"
    and t: "pf_tokens PF (so_tokensFile F) = Inr tokens"
    and k: "buildCache (pf_redis PF) (pf_sealer PF) now (so_redisURL F) (so_cacheTTL F) = Inr (rn_cache rn)"
    and b: "serve_broker (so_broker F) (rn_providers rn) = Inr (rn_broker rn)"
    and c: "if so_cert F = '''' then rn_creds rn = None
         else map_sum id Some (serverCreds (pf_pem PF) h (so_cert F) (so_key F) (so_clientCA F)) = Inr (rn_creds rn)"
    and e: "rn_embedder rn = buildEmbedder (so_embedURL F) (so_embedModel F) (getenv (h_environ h) ''PRIOMPT_EMBED_KEY'')"
    and l: "\<exists>ls. h_stderr h' = ls @ [startup_line PF F (length tokens)]"
    by (rule serve_started [OF assms])
  have tls: "so_cert F \<noteq> '''' \<longleftrightarrow> rn_creds rn \<noteq> None"
    using c by (cases "serverCreds (pf_pem PF) h (so_cert F) (so_key F) (so_clientCA F)")
      (auto split: if_splits dest: sym)
  have mtls: "so_clientCA F \<noteq> '''' \<longleftrightarrow> (\<exists>cfg. rn_creds rn = Some cfg \<and> t_client_auth cfg = RequireAndVerifyClientCert)"
  proof (cases "so_cert F = ''''")
    case True
    then show ?thesis using c f by (auto simp: checkTLSFlags_def split: if_splits)
  next
    case False
    then obtain cfg where cfg: "serverCreds (pf_pem PF) h (so_cert F) (so_key F) (so_clientCA F) = Inr cfg" "rn_creds rn = Some cfg"
      using c by (cases "serverCreds (pf_pem PF) h (so_cert F) (so_key F) (so_clientCA F)") auto
    have "if so_clientCA F = '''' then t_client_auth cfg = NoClientCert else t_client_auth cfg = RequireAndVerifyClientCert"
      by (rule serverCreds_Inr [OF cfg(1)]) (simp split: if_splits)
    then show ?thesis using cfg(2) by (auto split: if_splits)
  qed
  have cache: "case rn_cache rn of Shared K \<Rightarrow> cacheName (so_redisURL F) (so_cacheTTL F) = ''redis''
      | In_process ca \<Rightarrow> cacheName (so_redisURL F) (so_cacheTTL F) = ''mem'' \<and> ttl ca > 0
      | Uncached \<Rightarrow> cacheName (so_redisURL F) (so_cacheTTL F) = ''off''"
    using cache_built_as_named [where connect = "pf_redis PF" and newSealer = "pf_sealer PF" and now = now
        and redisURL = "so_redisURL F" and t = "so_cacheTTL F"]
    unfolding k by (cases "rn_cache rn") auto
  have nats: "natsAddr (so_broker F) = '''' \<longleftrightarrow> rn_broker rn = None"
    using b by (cases "rn_broker rn")
      (auto simp: serve_broker_def Let_def split: if_splits sum.splits prod.splits)
  have "CHR ''@'' \<in> set (so_embedModel F @ ''@'' @ so_embedURL F)" "CHR ''@'' \<notin> set ''lexical(offline)''" by simp_all
  then have "so_embedModel F @ ''@'' @ so_embedURL F \<noteq> ''lexical(offline)''" by metis
  then have embed: "embedName (so_embedURL F) (so_embedModel F) = ''lexical(offline)'' \<longleftrightarrow> rn_embedder rn = LexicalEmbedder"
    unfolding e by (simp add: embedName_def buildEmbedder_def)
  have bools: "bool_text x = ''true'' \<longleftrightarrow> x" for x by (simp add: bool_text_def)
  obtain ls where "h_stderr h' = ls @ [startup_line PF F (length tokens)]" using l by blast
  then show ?thesis
    unfolding startup_line_def using t tls mtls cache nats embed bools
    by (intro exI conjI) (assumption | rule refl | simp)+
qed

section \<open>An instance\<close>

definition sample_platform :: "(unit, string \<Rightarrow> sample_store, unit, unit, unit) platform" where
  "sample_platform = \<lparr>pf_tokens = \<lambda>_. Inr [()], pf_static = \<lambda>_ _. Inl (Gerr [Err_Unrecognized] ''unrecognized''),
     pf_jwks = \<lambda>_ _. Inl (Gerr [Err_Unrecognized] ''unrecognized''), pf_dbs = sample_dbs,
     pf_sealer = Inl (Gerr [] ''no key''), pf_redis = \<lambda>_. Inl (Gerr [] ''no redis''), pf_embedded = \<lambda>_. None,
     pf_pem = \<lparr>x509_pair = \<lambda>c k. Inr (), x509_pool = \<lambda>t. Some ()\<rparr>, pf_listen = \<lambda>_. None,
     pf_rate_text = \<lambda>_. ''0'', pf_version = ''v0.7.0'', pf_commit = ''abc123''\<rparr>"

definition sample_flags :: serve_opts where
  "sample_flags = \<lparr>so_addr = '':8443'', so_db = ''a'', so_cert = ''c.pem'', so_key = ''k.pem'', so_clientCA = ''ca.pem'',
     so_cacheTTL = 30000000000, so_redisURL = '''', so_embedURL = '''', so_embedModel = '''',
     so_broker = \<lparr>natsAddr = ''0.0.0.0:4222'', natsToken = ''s3cr3t'', natsRoutes = '''', natsCluster = '''', natsClusterSecret = ''''\<rparr>,
     so_tokensFile = ''tokens.txt'', so_metricsAddr = '''', so_rateLimit = Finite 0, so_rateBurst = 0, so_seed = True, so_jwksURL = ''''\<rparr>"

definition pem_host :: host where
  "pem_host = sample_host\<lparr>h_files := \<lambda>_. Inr ''PEM''\<rparr>"

lemma sample_platform_simps [simp]:
  "pf_tokens sample_platform x = Inr [()]" "pf_dbs sample_platform = sample_dbs"
  "pf_embedded sample_platform cfg = None" "pf_listen sample_platform a = None"
  "x509_pair (pf_pem sample_platform) c k = Inr ()" "x509_pool (pf_pem sample_platform) t = Some ()"
  by (simp_all add: sample_platform_def)

lemma sample_flags_simps [simp]:
  "so_db sample_flags = ''a''" "so_cert sample_flags = ''c.pem''" "so_key sample_flags = ''k.pem''"
  "so_clientCA sample_flags = ''ca.pem''" "so_redisURL sample_flags = ''''" "so_cacheTTL sample_flags = 30000000000"
  "so_metricsAddr sample_flags = ''''" "so_seed sample_flags"
  "natsAddr (so_broker sample_flags) = ''0.0.0.0:4222''" "natsToken (so_broker sample_flags) = ''s3cr3t''"
  "natsRoutes (so_broker sample_flags) = ''''" "natsCluster (so_broker sample_flags) = ''''"
  by (simp_all add: sample_flags_def)

lemma sample_steps:
  "open_db sample_dbs ''a'' (h, s) = (Inr (), (h, s))"
  "check_key sample_dbs ''a'' (h, s) = (Inr (), (h, s))"
  "h_files h = h_files pem_host \<Longrightarrow> creds_step (pf_pem sample_platform) sample_flags (h, s)
     = (Inr (Some \<lparr>t_certificates = [()], t_client_cas = Some (), t_client_auth = RequireAndVerifyClientCert, t_root_cas = None\<rparr>), (h, s))"
  "checkTLSFlags ''c.pem'' ''k.pem'' ''ca.pem'' = None"
  by (simp_all add: open_db_def failing_def outside_def check_key_def os_env_def checkEncryptionKey_def seq_def ask_def give_def
      creds_step_def serverCreds_def load_pair_def certPool_def zero_tls_def pem_host_def checkTLSFlags_def)

lemma sample_broker:
  obtains cfg where "broker_step (pf_embedded sample_platform) (so_broker sample_flags) ps (h, s) = (Inr (Some cfg), (h, s))"
    and "cfg_host cfg = ''0.0.0.0''"
proof -
  have "splitHostPort ''0.0.0.0:4222'' = Inr (''0.0.0.0'', 4222)" by code_simp
  then have "\<exists>cfg. serve_broker (so_broker sample_flags) ps = Inr (Some cfg) \<and> cfg_host cfg = ''0.0.0.0''"
    by (simp add: serve_broker_def with_cluster_def Let_def)
  then show ?thesis using that by (auto simp: broker_step_def give_def)
qed

lemma sample_seed:
  obtains s1 ls where "seed_step sample_dbs ''a'' (h, \<lambda>_. sample_empty) = (Inr (), (h\<lparr>h_stderr := h_stderr h @ ls\<rparr>, s1))"
    and "find_head demo_uri (s1 ''a'') \<noteq> None"
proof -
  have head: "find_head u sample_empty = None" for u by (simp add: find_head_def sample_empty_def)
  have "\<exists>s1. seedDemo (store_at ''a'' sample_ops) (\<lambda>_. sample_empty)
      = (s1, [(''seeded demo prompt %s'', [demo_uri])]) \<and> find_head demo_uri (s1 ''a'') \<noteq> None"
    by (simp add: seedDemo_def store_at_def at_path_def head not_found_def sample_commit_def Let_def)
  then obtain s1 where s1: "seedDemo (store_at ''a'' sample_ops) (\<lambda>_. sample_empty)
      = (s1, [(''seeded demo prompt %s'', [demo_uri])])" "find_head demo_uri (s1 ''a'') \<noteq> None" by blast
  have "seed_step sample_dbs ''a'' (h, \<lambda>_. sample_empty)
      = (Inr (), (h\<lparr>h_stderr := h_stderr h @ [(''seeded demo prompt %s'', [demo_uri])]\<rparr>, s1))"
    by (simp add: seed_step_def outside_def seq_def s1(1) log_err_def give_def)
  then show ?thesis using that s1(2) by blast
qed

lemma sample_serve:
  obtains rn h' s' where "serve_cmd sample_platform sample_flags (pem_host, \<lambda>_. sample_empty) = (Inr rn, (h', s'))"
    and "rn_creds rn = Some \<lparr>t_certificates = [()], t_client_cas = Some (), t_client_auth = RequireAndVerifyClientCert, t_root_cas = None\<rparr>"
    and "\<exists>cfg. rn_broker rn = Some cfg \<and> cfg_host cfg = ''0.0.0.0''"
    and "find_head demo_uri (s' ''a'') \<noteq> None"
proof -
  obtain s1 ls where s1: "seed_step sample_dbs ''a'' (pem_host, \<lambda>_. sample_empty) = (Inr (), (pem_host\<lparr>h_stderr := h_stderr pem_host @ ls\<rparr>, s1))"
    and head: "find_head demo_uri (s1 ''a'') \<noteq> None" by (rule sample_seed)
  let ?h = "pem_host\<lparr>h_stderr := h_stderr pem_host @ ls\<rparr>" let ?ps = "serve_providers sample_platform sample_flags [()]"
  obtain cfg where cfg: "broker_step (pf_embedded sample_platform) (so_broker sample_flags) ?ps (?h, s1) = (Inr (Some cfg), (?h, s1))"
    "cfg_host cfg = ''0.0.0.0''" by (rule sample_broker)
  have "\<exists>rn h'. serve_cmd sample_platform sample_flags (pem_host, \<lambda>_. sample_empty) = (Inr rn, (h', s1))
    \<and> rn_creds rn = Some \<lparr>t_certificates = [()], t_client_cas = Some (), t_client_auth = RequireAndVerifyClientCert, t_root_cas = None\<rparr>
    \<and> rn_broker rn = Some cfg"
    using s1 cfg sample_steps(3) [of ?h s1]
    by (simp add: serve_cmd_def sample_steps os_env_def seq_def ask_def give_def buildCache_def NewMemCache_def log_err_def)
  then show ?thesis using that head cfg(2) by blast
qed

theorem start_keeps_the_data_witness:
  "\<exists>outcome h' s'. serve_cmd sample_platform sample_flags (pem_host, \<lambda>_. sample_empty) = (outcome, (h', s'))
     \<and> find_head demo_uri (s' ''a'') \<noteq> None \<and> served (db_store sample_dbs ''a'') s' acme_uri = served sample_ops sample_empty acme_uri"
proof -
  obtain rn h' s' where run: "serve_cmd sample_platform sample_flags (pem_host, \<lambda>_. sample_empty) = (Inr rn, (h', s'))"
    "find_head demo_uri (s' ''a'') \<noteq> None" by (rule sample_serve)
  have laws: "open_law (pf_dbs sample_platform)" "dump_pure (pf_dbs sample_platform) (so_db sample_flags)"
    "reads_pure (db_store (pf_dbs sample_platform) (so_db sample_flags))"
    "commit_contract sample_lib (db_store (pf_dbs sample_platform) (so_db sample_flags))" "default_branch sample_lib = ''main''"
    using store_contractD [OF sample_store_contract]
    by (simp_all add: open_law_def dump_pure_def reads_pure_store_at commit_contract_store_at)
  have "acme_uri \<noteq> demo_uri" by (simp add: acme_uri_def demo_uri_def)
  with start_keeps_the_data [OF laws run(1)]
  have "served (db_store sample_dbs ''a'') s' acme_uri = served sample_ops sample_empty acme_uri" by simp
  with run show ?thesis by blast
qed

theorem serve_starts_guarded_witness:
  "\<exists>rn w' cfg. serve_cmd sample_platform sample_flags (pem_host, \<lambda>_. sample_empty) = (Inr rn, w')
     \<and> rn_broker rn = Some cfg \<and> \<not> isLoopback (cfg_host cfg) \<and> demands_token (options cfg) (natsAuth (rn_providers rn)) ''s3cr3t''"
proof -
  obtain rn h' s' where run: "serve_cmd sample_platform sample_flags (pem_host, \<lambda>_. sample_empty) = (Inr rn, (h', s'))"
    "\<exists>cfg. rn_broker rn = Some cfg \<and> cfg_host cfg = ''0.0.0.0''" by (rule sample_serve)
  then obtain cfg where cfg: "rn_broker rn = Some cfg" "cfg_host cfg = ''0.0.0.0''" by blast
  have open': "\<not> isLoopback (cfg_host cfg)" unfolding cfg(2) by (simp add: isLoopback_def)
  with serve_starts_guarded [OF run(1)] cfg(1) run(1) show ?thesis by simp
qed

theorem startup_line_is_true_witness:
  "\<exists>rn h' s' l. serve_cmd sample_platform sample_flags (pem_host, \<lambda>_. sample_empty) = (Inr rn, (h', s'))
     \<and> l \<in> set (h_stderr h') \<and> snd l ! 3 = ''true'' \<and> snd l ! 4 = ''true''"
proof -
  obtain rn h' s' where run: "serve_cmd sample_platform sample_flags (pem_host, \<lambda>_. sample_empty) = (Inr rn, (h', s'))"
    "rn_creds rn = Some \<lparr>t_certificates = [()], t_client_cas = Some (), t_client_auth = RequireAndVerifyClientCert, t_root_cas = None\<rparr>"
    by (rule sample_serve)
  obtain ls v c a tls mtls auth k embed nats metrics rate where line: "h_stderr h' = ls @
      [(''priompt %s (%s) serving on %s (tls=%v mtls=%v auth=%d-token cache=%s embed=%s nats=%s metrics=%s ratelimit=%g/s)'',
        [v, c, a, tls, mtls, auth, k, embed, nats, metrics, rate])]"
    and "tls = ''true'' \<longleftrightarrow> rn_creds rn \<noteq> None"
    and "mtls = ''true'' \<longleftrightarrow> (\<exists>cfg. rn_creds rn = Some cfg \<and> t_client_auth cfg = RequireAndVerifyClientCert)"
    using startup_line_is_true [OF run(1)] by (elim exE conjE)
  then have "tls = ''true''" "mtls = ''true''" using run(2) by auto
  then have "\<exists>l\<in>set (h_stderr h'). snd l ! 3 = ''true'' \<and> snd l ! 4 = ''true''"
    unfolding line by (auto simp: numeral_eq_Suc)
  with run(1) show ?thesis by blast
qed

end
