(* ===== verification/Serve_Flags.thy ===== *)
theory Serve_Flags
  imports Serve_Run
begin

text \<open>
  \<open>priompt serve\<close> from its arguments (\<open>cmd/priompt/main.go\<close>): the flag set, whose defaults come from
  the environment, what the parsed flags mean for the start, and the command as \<open>main\<close> calls it.
\<close>

section \<open>The flags\<close>

definition serve_flags :: "string list \<Rightarrow> flag_set" where
  "serve_flags E =
     [(''addr'', StringFlag '':8443''),
      (''db'', StringFlag ''priompt.db''),
      (''tls-cert'', StringFlag ''''),
      (''tls-key'', StringFlag ''''),
      (''client-ca'', StringFlag ''''),
      (''cache-ttl'', DurationFlag 30000000000),
      (''redis-url'', StringFlag (getenv E ''PRIOMPT_REDIS_URL'')),
      (''embed-url'', StringFlag (getenv E ''PRIOMPT_EMBED_URL'')),
      (''embed-model'', StringFlag (getenv E ''PRIOMPT_EMBED_MODEL'')),
      (''nats-addr'', StringFlag ''127.0.0.1:4222''),
      (''nats-token'', StringFlag (getenv E ''PRIOMPT_NATS_TOKEN'')),
      (''nats-routes'', StringFlag (getenv E ''PRIOMPT_NATS_ROUTES'')),
      (''nats-cluster-addr'', StringFlag (getenv E ''PRIOMPT_NATS_CLUSTER_ADDR'')),
      (''nats-cluster-secret'', StringFlag (getenv E ''PRIOMPT_NATS_CLUSTER_SECRET'')),
      (''tokens-file'', StringFlag ''''),
      (''metrics-addr'', StringFlag '':2112''),
      (''rate-limit'', FloatFlag (Finite 0)),
      (''rate-burst'', IntFlag 0),
      (''seed'', BoolFlag (getenv E ''PRIOMPT_SEED'' \<noteq> ''false'')),
      (''auth-jwks-url'', StringFlag (getenv E ''PRIOMPT_JWKS_URL''))]"

definition serve_opts_of :: "flag_set \<Rightarrow> serve_opts" where
  "serve_opts_of fs =
     \<lparr>so_addr = flag_string fs ''addr'', so_db = flag_string fs ''db'',
      so_cert = flag_string fs ''tls-cert'', so_key = flag_string fs ''tls-key'',
      so_clientCA = flag_string fs ''client-ca'', so_cacheTTL = flag_duration fs ''cache-ttl'',
      so_redisURL = flag_string fs ''redis-url'', so_embedURL = flag_string fs ''embed-url'',
      so_embedModel = flag_string fs ''embed-model'',
      so_broker = \<lparr>natsAddr = flag_string fs ''nats-addr'', natsToken = flag_string fs ''nats-token'',
        natsRoutes = flag_string fs ''nats-routes'', natsCluster = flag_string fs ''nats-cluster-addr'',
        natsClusterSecret = flag_string fs ''nats-cluster-secret''\<rparr>,
      so_tokensFile = flag_string fs ''tokens-file'', so_metricsAddr = flag_string fs ''metrics-addr'',
      so_rateLimit = flag_float fs ''rate-limit'', so_rateBurst = flag_int fs ''rate-burst'',
      so_seed = flag_bool fs ''seed'', so_jwksURL = flag_string fs ''auth-jwks-url''\<rparr>"

definition serve ::
  "('tok, 'st, 'rd, 'crt, 'pool) platform \<Rightarrow> string list \<Rightarrow> (('rd, 'crt, 'pool) running, 'st) cmd" where
  "serve PF args =
     seq (ask h_environ) (\<lambda>E.
     seq (parse_args (serve_flags E) args) (\<lambda>fs.
     serve_cmd PF (serve_opts_of fs)))"

text \<open>Serving ends, if it ever does, with the error of the gRPC server.\<close>

definition serve_until ::
  "('tok, 'st, 'rd, 'crt, 'pool) platform \<Rightarrow> (('rd, 'crt, 'pool) running \<Rightarrow> gerr option) \<Rightarrow> string list \<Rightarrow> (unit, 'st) cmd" where
  "serve_until PF run args =
     seq (serve PF args) (\<lambda>rn. case run rn of Some e \<Rightarrow> die (Fatal (err_text e) []) | None \<Rightarrow> give ())"

section \<open>What a setting means\<close>

text \<open>The value a list of settings gives a flag: its last one, else its default.\<close>

definition setting :: "(string \<times> string) list \<Rightarrow> string \<Rightarrow> string \<Rightarrow> string" where
  "setting ss n d = (case map_of (rev ss) n of None \<Rightarrow> d | Some v \<Rightarrow> v)"

text \<open>
  The start the settings ask for, read off directly: which environment variable stands behind which
  flag, and which texts are numbers.
\<close>

definition asked_for :: "string list \<Rightarrow> (string \<times> string) list \<Rightarrow> serve_opts \<Rightarrow> bool" where
  "asked_for E ss F \<longleftrightarrow>
     so_addr F = setting ss ''addr'' '':8443'' \<and> so_db F = setting ss ''db'' ''priompt.db''
   \<and> so_cert F = setting ss ''tls-cert'' '''' \<and> so_key F = setting ss ''tls-key'' ''''
   \<and> so_clientCA F = setting ss ''client-ca'' ''''
   \<and> ParseDuration (setting ss ''cache-ttl'' ''30s'') = Some (so_cacheTTL F)
   \<and> so_redisURL F = setting ss ''redis-url'' (getenv E ''PRIOMPT_REDIS_URL'')
   \<and> so_embedURL F = setting ss ''embed-url'' (getenv E ''PRIOMPT_EMBED_URL'')
   \<and> so_embedModel F = setting ss ''embed-model'' (getenv E ''PRIOMPT_EMBED_MODEL'')
   \<and> natsAddr (so_broker F) = setting ss ''nats-addr'' ''127.0.0.1:4222''
   \<and> natsToken (so_broker F) = setting ss ''nats-token'' (getenv E ''PRIOMPT_NATS_TOKEN'')
   \<and> natsRoutes (so_broker F) = setting ss ''nats-routes'' (getenv E ''PRIOMPT_NATS_ROUTES'')
   \<and> natsCluster (so_broker F) = setting ss ''nats-cluster-addr'' (getenv E ''PRIOMPT_NATS_CLUSTER_ADDR'')
   \<and> natsClusterSecret (so_broker F) = setting ss ''nats-cluster-secret'' (getenv E ''PRIOMPT_NATS_CLUSTER_SECRET'')
   \<and> so_tokensFile F = setting ss ''tokens-file'' '''' \<and> so_metricsAddr F = setting ss ''metrics-addr'' '':2112''
   \<and> ParseFloat (setting ss ''rate-limit'' ''0'') = Some (so_rateLimit F)
   \<and> ParseInt (setting ss ''rate-burst'' ''0'') = Some (so_rateBurst F)
   \<and> ParseBool (setting ss ''seed'' (if getenv E ''PRIOMPT_SEED'' \<noteq> ''false'' then ''true'' else ''false'')) = Some (so_seed F)
   \<and> so_jwksURL F = setting ss ''auth-jwks-url'' (getenv E ''PRIOMPT_JWKS_URL'')"

lemma default_numbers:
  "ParseBool ''true'' = Some True" "ParseBool ''false'' = Some False" "ParseInt ''0'' = Some 0" "ParseFloat ''0'' = Some (Finite 0)" "ParseDuration ''30s'' = Some 30000000000"
proof -
  show "ParseBool ''true'' = Some True" "ParseBool ''false'' = Some False" by (simp_all add: ParseBool_def)
  show "ParseInt ''0'' = Some 0"
    by (simp add: ParseInt_def parse_uint_def drop_sign_def)
  show "ParseFloat ''0'' = Some (Finite 0)"
    by (simp add: ParseFloat_def read_float_def exponent_def drop_sign_def nearest_float_def lower_byte_def
        is_digit_def byte_between_def digit_of_def digit_value_def Let_def)
  show "ParseDuration ''30s'' = Some 30000000000"
    by (simp add: ParseDuration_def duration_sum.simps duration_part_def drop_sign_def units_def is_digit_def
        byte_between_def digit_value_def Let_def)
qed

text \<open>Reading one flag back after the settings have been parsed.\<close>

lemma parsed_flag:
  assumes "\<forall>w \<in> set ws. settable fs w"
    and "\<forall>n. map_of fs' n = (case map_of (rev (map setting_of ws)) n of
           None \<Rightarrow> map_of fs n | Some v \<Rightarrow> flag_Set (the (map_of fs n)) v)"
  shows "map_of fs n = Some (StringFlag d) \<Longrightarrow> flag_string fs' n = setting (map setting_of ws) n d"
    and "map_of fs n = Some (DurationFlag k) \<Longrightarrow> ParseDuration t = Some k
      \<Longrightarrow> ParseDuration (setting (map setting_of ws) n t) = Some (flag_duration fs' n)"
    and "map_of fs n = Some (FloatFlag x) \<Longrightarrow> ParseFloat t = Some x
      \<Longrightarrow> ParseFloat (setting (map setting_of ws) n t) = Some (flag_float fs' n)"
    and "map_of fs n = Some (IntFlag k) \<Longrightarrow> ParseInt t = Some k
      \<Longrightarrow> ParseInt (setting (map setting_of ws) n t) = Some (flag_int fs' n)"
    and "map_of fs n = Some (BoolFlag b) \<Longrightarrow> ParseBool t = Some b
      \<Longrightarrow> ParseBool (setting (map setting_of ws) n t) = Some (flag_bool fs' n)"
proof -
  have ok: "flag_Set (the (map_of fs n)) v \<noteq> None" if v: "map_of (rev (map setting_of ws)) n = Some v" for v
  proof -
    obtain w where "w \<in> set ws" "setting_of w = (n, v)" using map_of_SomeD [OF v] by auto
    then show ?thesis using assms(1) by (auto simp: settable_def)
  qed
  note look = assms(2) [rule_format, of n]
  show "map_of fs n = Some (StringFlag d) \<Longrightarrow> flag_string fs' n = setting (map setting_of ws) n d"
    using look by (cases "map_of (rev (map setting_of ws)) n") (auto simp: flag_string_def setting_def)
  show "map_of fs n = Some (DurationFlag k) \<Longrightarrow> ParseDuration t = Some k
      \<Longrightarrow> ParseDuration (setting (map setting_of ws) n t) = Some (flag_duration fs' n)"
    using look ok by (cases "map_of (rev (map setting_of ws)) n") (auto simp: flag_duration_def setting_def)
  show "map_of fs n = Some (FloatFlag x) \<Longrightarrow> ParseFloat t = Some x
      \<Longrightarrow> ParseFloat (setting (map setting_of ws) n t) = Some (flag_float fs' n)"
    using look ok by (cases "map_of (rev (map setting_of ws)) n") (auto simp: flag_float_def setting_def)
  show "map_of fs n = Some (IntFlag k) \<Longrightarrow> ParseInt t = Some k
      \<Longrightarrow> ParseInt (setting (map setting_of ws) n t) = Some (flag_int fs' n)"
    using look ok by (cases "map_of (rev (map setting_of ws)) n") (auto simp: flag_int_def setting_def)
  show "map_of fs n = Some (BoolFlag b) \<Longrightarrow> ParseBool t = Some b
      \<Longrightarrow> ParseBool (setting (map setting_of ws) n t) = Some (flag_bool fs' n)"
    using look ok by (cases "map_of (rev (map setting_of ws)) n") (auto simp: flag_bool_def setting_def)
qed

lemma serve_flags_single_valued: "single_valued (serve_flags E)"
  by (auto simp: single_valued_def serve_flags_def split: if_splits)

text \<open>
  C11. \<open>serve\<close> starts what its arguments ask for. Given any settings of its flags, in any order and
  repeated or not, with one dash or two, the value in the next argument or after an equals sign (or,
  of the boolean flag, left out or after an equals sign), each with a value its flag can hold: the
  command does exactly the start in which every option is the last value set, else that of its
  environment variable, else its default. And every other argument list is one that does not parse,
  which ends the process with its log the only thing touched.
\<close>

theorem serve_obeys_its_arguments:
  "(\<forall>ws tail. (\<forall>s \<in> set ws. settable (serve_flags (h_environ h)) s) \<and> flags_end tail \<longrightarrow>
      (\<exists>F. asked_for (h_environ h) (map setting_of ws) F
         \<and> serve PF (as_args ws @ tail) (h, w) = serve_cmd PF F (h, w)))
   \<and> (\<forall>args. (\<exists>ws tail. args = as_args ws @ tail \<and> (\<forall>s \<in> set ws. settable (serve_flags (h_environ h)) s) \<and> flags_end tail)
       \<or> (\<exists>e ls. parse_flags (serve_flags (h_environ h)) args = Inl e
            \<and> serve PF args (h, w) = (Inl (Exited (if e = HelpWanted then 0 else 2)), (h\<lparr>h_stderr := h_stderr h @ ls\<rparr>, w))))"
proof (intro conjI allI impI)
  let ?fs = "serve_flags (h_environ h)"
  show "\<exists>F. asked_for (h_environ h) (map setting_of ws) F \<and> serve PF (as_args ws @ tail) (h, w) = serve_cmd PF F (h, w)"
    if ok: "(\<forall>s \<in> set ws. settable ?fs s) \<and> flags_end tail" for ws tail
  proof -
    obtain fs' rest where parsed: "parse_flags ?fs (as_args ws @ tail) = Inr (fs', rest)"
      and look: "\<forall>n. map_of fs' n = (case map_of (rev (map setting_of ws)) n of
        None \<Rightarrow> map_of ?fs n | Some v \<Rightarrow> flag_Set (the (map_of ?fs n)) v)"
      using parse_settings [OF serve_flags_single_valued] ok by blast
    note flag = parsed_flag [OF conjunct1 [OF ok] look]
    have "asked_for (h_environ h) (map setting_of ws) (serve_opts_of fs')"
      unfolding asked_for_def serve_opts_of_def serve_opts.simps broker_flags.simps
      by (intro conjI; (rule flag)?; auto simp: serve_flags_def default_numbers)
    moreover have "serve PF (as_args ws @ tail) (h, w) = serve_cmd PF (serve_opts_of fs') (h, w)"
      by (simp add: serve_def parse_args_Inr [OF parsed])
    ultimately show ?thesis by blast
  qed
  show "(\<exists>ws tail. args = as_args ws @ tail \<and> (\<forall>s \<in> set ws. settable ?fs s) \<and> flags_end tail)
       \<or> (\<exists>e ls. parse_flags ?fs args = Inl e
            \<and> serve PF args (h, w) = (Inl (Exited (if e = HelpWanted then 0 else 2)), (h\<lparr>h_stderr := h_stderr h @ ls\<rparr>, w)))"
    for args
  proof (cases "parse_flags ?fs args")
    case (Inl e)
    have "h = h\<lparr>h_stderr := h_stderr h @ []\<rparr>" by simp
    then have "\<exists>ls. h = h\<lparr>h_stderr := h_stderr h @ ls\<rparr>" by (rule exI)
    then show ?thesis
      using Inl by (cases e) (auto simp: serve_def parse_args_def seq_assoc seq_log_err exit_with_def)
  next
    case (Inr r)
    then show ?thesis using parse_flags_Inr [OF serve_flags_single_valued] by blast
  qed
qed

text \<open>
  A start with two flags in different forms and one environment variable set, on the host of the
  sample platform, and one with a misspelt rate.
\<close>

definition token_host :: host where
  "token_host = pem_host\<lparr>h_environ := [''PRIOMPT_NATS_TOKEN=s3cr3t'']\<rparr>"

theorem serve_obeys_its_arguments_witness:
  "\<exists>F. serve sample_platform [''-nats-addr'', ''0.0.0.0:4222'', ''--seed=false''] (token_host, \<lambda>_. sample_empty)
        = serve_cmd sample_platform F (token_host, \<lambda>_. sample_empty)
     \<and> natsAddr (so_broker F) = ''0.0.0.0:4222'' \<and> natsToken (so_broker F) = ''s3cr3t'' \<and> so_addr F = '':8443''
     \<and> \<not> so_seed F
     \<and> (\<exists>h'. serve sample_platform [''-rate-limit'', ''fast''] (token_host, \<lambda>_. sample_empty)
          = (Inl (Exited 2), (h', \<lambda>_. sample_empty)))"
proof -
  let ?E = "h_environ token_host"
  let ?ws = "[(False, ''nats-addr'', Next ''0.0.0.0:4222''), (True, ''seed'', Equals ''false'')]"
  have env: "getenv ?E ''PRIOMPT_NATS_TOKEN'' = ''s3cr3t''" by (simp add: token_host_def cut_equals_def)
  have ok: "(\<forall>s\<in>set ?ws. settable (serve_flags ?E) s) \<and> flags_end []"
    by (simp add: settable_def serve_flags_def flag_name_ok_def is_bool_def ParseBool_def flags_end_def)
  have args: "as_args ?ws @ [] = [''-nats-addr'', ''0.0.0.0:4222'', ''--seed=false'']" by (simp add: dashed_def)
  have bad: "parse_flags (serve_flags ?E) [''-rate-limit'', ''fast'']
      = Inl (FlagError ''invalid value %q for flag -%s: %v'' [''fast'', ''rate-limit''])"
    by (simp add: parse_flags.simps(2) serve_flags_def cut_equals_def Let_def ParseFloat_def read_float_def drop_sign_def
        lower_byte_def is_digit_def byte_between_def)
  note rule = serve_obeys_its_arguments [of token_host sample_platform "\<lambda>_. sample_empty"]
  obtain F where F: "asked_for ?E (map setting_of ?ws) F"
    "serve sample_platform (as_args ?ws @ []) (token_host, \<lambda>_. sample_empty) = serve_cmd sample_platform F (token_host, \<lambda>_. sample_empty)"
    using conjunct1 [OF rule] ok by blast
  let ?bad = "[''-rate-limit'', ''fast'']"
  have "\<not> (\<exists>ws tail. ?bad = as_args ws @ tail \<and> (\<forall>s\<in>set ws. settable (serve_flags ?E) s) \<and> flags_end tail)"
    using parse_settings [OF serve_flags_single_valued [of ?E]] bad by fastforce
  then obtain e ls where e: "parse_flags (serve_flags ?E) ?bad = Inl e"
    "serve sample_platform ?bad (token_host, \<lambda>_. sample_empty)
      = (Inl (Exited (if e = HelpWanted then 0 else 2)), (token_host\<lparr>h_stderr := h_stderr token_host @ ls\<rparr>, \<lambda>_. sample_empty))"
    using conjunct2 [OF rule, THEN spec, of ?bad] by (elim disjE exE conjE) blast+
  have "e \<noteq> HelpWanted" using e(1) bad by auto
  then have "\<exists>h'. serve sample_platform ?bad (token_host, \<lambda>_. sample_empty) = (Inl (Exited 2), (h', \<lambda>_. sample_empty))"
    using e(2) by simp
  moreover have "\<not> so_seed F" using F(1) by (simp add: asked_for_def setting_def ParseBool_def)
  ultimately show ?thesis
    using F env args by (intro exI [of _ F]) (simp add: asked_for_def setting_def)
qed

end
