(* ===== verification/Metrics_Page.thy ===== *)
theory Metrics_Page
  imports Serve_Flags
begin

text \<open>
  The metrics of the server as they are declared and served (\<open>internal/server/observability.go\<close>):
  the three vectors, the build information, the handler, and where \<open>serve\<close> mounts it
  (\<open>cmd/priompt/main.go\<close>). The Prometheus client library is a parameter: setting a gauge of a
  vector under label values, which panics (\<open>None\<close>) unless there is one value per label, and the
  text of a scrape.
\<close>

section \<open>Declarations\<close>

record metric_vec =
  mv_name :: string
  mv_help :: string
  mv_labels :: "string list"

definition reqTotal :: metric_vec where
  "reqTotal = \<lparr>mv_name = ''priompt_requests_total'', mv_help = ''gRPC requests by method and gRPC status code.'',
     mv_labels = [''method'', ''code'']\<rparr>"

definition reqDuration :: metric_vec where
  "reqDuration = \<lparr>mv_name = ''priompt_request_duration_seconds'', mv_help = ''gRPC request latency by method.'',
     mv_labels = [''method'']\<rparr>"

definition buildInfo :: metric_vec where
  "buildInfo = \<lparr>mv_name = ''priompt_build_info'', mv_help = ''Always 1; labels identify the running build.'',
     mv_labels = [''version'', ''commit'', ''goversion'']\<rparr>"

section \<open>Serving them\<close>

record 'g prometheus =
  pm_set :: "metric_vec \<Rightarrow> string list \<Rightarrow> rat \<Rightarrow> 'g \<Rightarrow> 'g option"
  pm_text :: "'g \<Rightarrow> string"

definition SetBuildInfo :: "'g prometheus \<Rightarrow> string \<Rightarrow> string \<Rightarrow> string \<Rightarrow> 'g \<Rightarrow> 'g option" where
  "SetBuildInfo P version commit goversion g = pm_set P buildInfo [version, commit, goversion] 1 g"

definition MetricsHandler :: "'g prometheus \<Rightarrow> 'g \<Rightarrow> string" where
  "MetricsHandler P = pm_text P"

text \<open>
  What \<open>serve\<close> starts where it was given a metrics address: the registry gets the build information,
  and the paths the listener answers.
\<close>

definition metrics_endpoint ::
  "'g prometheus \<Rightarrow> string \<Rightarrow> ('rd, 'crt, 'pool) running \<Rightarrow> 'g \<Rightarrow> 'g option \<times> (string \<rightharpoonup> ('g \<Rightarrow> string))" where
  "metrics_endpoint P goversion rn g =
     (case rn_metrics rn of
        Some (version, commit, addr) \<Rightarrow>
          (SetBuildInfo P version commit goversion g, [''/metrics'' \<mapsto> MetricsHandler P])
      | None \<Rightarrow> (Some g, Map.empty))"

text \<open>
  The lines its goroutine logs, each at a time of its own among those of the command:
  \<open>http.ListenAndServe\<close> returns only with an error (\<open>None\<close> while it has not).
\<close>

definition metrics_goroutine :: "string \<Rightarrow> gerr option \<Rightarrow> log_line list" where
  "metrics_goroutine addr ended =
     (''metrics on %s/metrics'', [addr])
     # (case ended of Some e \<Rightarrow> [(''metrics server stopped: %v'', [err_text e])] | None \<Rightarrow> [])"

text \<open>Every value the program gives a vector has its label, so that the library never panics.\<close>

definition vec_law :: "'g prometheus \<Rightarrow> bool" where
  "vec_law P \<longleftrightarrow> (\<forall>v ls x g. length ls = length (mv_labels v) \<longrightarrow> pm_set P v ls x g \<noteq> None)"

lemma metrics_endpoint_total: "vec_law P \<Longrightarrow> fst (metrics_endpoint P goversion rn g) \<noteq> None"
  by (simp add: metrics_endpoint_def SetBuildInfo_def buildInfo_def vec_law_def split: option.split)

end
