(* ===== verification/Cli_Backup_Live.thy ===== *)
theory Cli_Backup_Live
  imports Cli_Backup
begin

text \<open>
  \<open>priompt backup\<close> beside a running server: the command reads the served prompts, the commits and the
  branches one after the other, and nothing keeps the store from changing in between.
\<close>

section \<open>A write between two reads\<close>

text \<open>The archive as the command sees it when another process writes after the first of its reads.\<close>

definition between_reads :: "('st \<Rightarrow> 'st) \<Rightarrow> 'st archive \<Rightarrow> 'st archive" where
  "between_reads wr A = A\<lparr>ar_dump_commits := \<lambda>s. ar_dump_commits A (wr s)\<rparr>"

text \<open>What a publish to main adds to the content: the commit, the branch and the served prompt.\<close>

definition published :: "commit \<Rightarrow> content \<Rightarrow> content" where
  "published c x = add_prompt (prompt_of c)
     (add_ref \<lparr>r_uri = c_uri c, r_branch = ''main'', r_commit = c_hash c\<rparr> (add_commit c x))"

text \<open>What such a backup holds: the history with the published commit, and the prompts served before.\<close>

definition torn_content :: "commit \<Rightarrow> content \<Rightarrow> content" where
  "torn_content c x = (published c x)\<lparr>ct_prompts := ct_prompts x\<rparr>"

lemma torn_content_sound:
  assumes "sound L x" and "hashed_commit L c"
  shows "sound L (torn_content c x)"
  using assms by (auto simp: sound_def torn_content_def published_def add_prompt_def add_ref_def add_commit_def)

lemma torn_backup:
  assumes "archive_laws L A ct" and "\<And>s'. ct s' = ct s \<Longrightarrow> ct (wr s') = published c (ct s)"
    and "backup (between_reads wr A) created s = (Inr (recs, a, b, d), s1)"
  obtains ps cs rs where "recs = backup_records created (ar_schema_version A s1) ps cs rs"
    and "ct s1 = published c (ct s)" and "lists (torn_content c (ct s)) ps cs rs"
proof -
  obtain ps cs rs s2 s3 where d: "ar_dump A s = (Inr ps, s2)" "ar_dump_commits A (wr s2) = (Inr cs, s3)"
    "ar_dump_refs A s3 = (Inr rs, s1)"
    and out: "recs = backup_records created (ar_schema_version A s1) ps cs rs"
    using assms(3) by (auto simp: backup_def between_reads_def split: prod.splits sum.splits)
  note dumps = archive_lawsD(1) [OF assms(1) d(1)] archive_lawsD(2) [OF assms(1) d(2)]
    archive_lawsD(3) [OF assms(1) d(3)]
  then have "ct (wr s2) = published c (ct s)" using assms(2) by simp
  then have "ct s1 = published c (ct s)" and "lists (torn_content c (ct s)) ps cs rs"
    using dumps by (simp_all add: lists_def torn_content_def)
  with out show thesis by (rule that)
qed

text \<open>
  C23. A backup of a live store can be torn. When a publish to main lands between the first two reads
  of a backup, the file holds the published commit and the branch that points to it, and the prompt
  served before: restored into an empty store, main's tip is the published commit and readers are
  served what was published before it, although the store that was backed up serves the new prompt.
  (The rows of the store carry the version hash of their text, the published commit has a hash of its
  own, and the file's records read back as they were written.)
\<close>

theorem backup_of_a_live_store_is_torn:
  assumes "archive_laws L A ct" and "archive_laws L B ct'" and "sound L (ct s)" and "commit_fits L c (ct s)"
    and "\<forall>s'. ct s' = ct s \<longrightarrow> ct (wr s') = published c (ct s)"
    and "backup (between_reads wr A) created s = (Inr (recs, a, b, d), s1)"
    and "\<forall>x \<in> set recs. js_record J (enc x) = Inr x" and "ct' t = empty_content"
    and "restore B J db force (map (\<lambda>x. Inr (enc x)) recs) t = (Inr n, t')"
  shows "ct_prompts (ct s1) (c_uri c) = Some (prompt_of c)
       \<and> ct_commits (ct' t') = (ct_commits (ct s))(c_hash c \<mapsto> c)
       \<and> ct_refs (ct' t') (c_uri c, ''main'') = Some (c_hash c)
       \<and> ct_prompts (ct' t') (c_uri c) = ct_prompts (ct s) (c_uri c)"
proof -
  obtain ps cs rs where recs: "recs = backup_records created (ar_schema_version A s1) ps cs rs"
    and live: "ct s1 = published c (ct s)" and torn: "lists (torn_content c (ct s)) ps cs rs"
    by (rule torn_backup [OF assms(1) _ assms(6)]) (use assms(5) in blast)
  have "sound L (torn_content c (ct s))"
    using torn_content_sound assms(3,4) unfolding commit_fits_def by blast
  moreover have "part_of (ct' t) (torn_content c (ct s))" "force \<or> ct_commits (ct' t) = Map.empty"
    by (simp_all add: assms(8))
  ultimately have "ct' t' = torn_content c (ct s)"
    using restore_of_part(1) [OF assms(2,7) recs torn, where db = db and force = force and t = t] assms(9) by simp
  then show ?thesis
    using live by (simp add: torn_content_def published_def add_prompt_def add_ref_def add_commit_def prompt_of_def)
qed

section \<open>An instance\<close>

text \<open>``Hello'' is published while the backup of a store that serves ``Hi'' runs.\<close>

definition new_commit :: commit where
  "new_commit = kept_commit\<lparr>c_hash := ''c2'', c_template := ''Hello'', c_version_hash := sample_hash ''Hello'' [], c_parent := ''c1''\<rparr>"

definition publish_new :: "rows \<Rightarrow> rows" where
  "publish_new s = s\<lparr>rw_commits := new_commit # rw_commits s,
     rw_refs := \<lparr>r_uri = ''prompt://acme/greet'', r_branch = ''main'', r_commit = ''c2''\<rparr> # rw_refs s,
     rw_prompts := prompt_of new_commit # rw_prompts s\<rparr>"

definition torn_file :: "backup_record list" where
  "torn_file = backup_records ''2026-01-01T00:00:00Z'' 3 (rw_prompts kept_rows) [new_commit, kept_commit]
     [\<lparr>r_uri = ''prompt://acme/greet'', r_branch = ''main'', r_commit = ''c2''\<rparr>]"

definition line_tag :: "backup_record \<Rightarrow> string" where
  "line_tag x = bk_kind x @ (case bk_commit x of Some c \<Rightarrow> c_hash c | None \<Rightarrow> '''')"

definition torn_codec :: json_codec where
  "torn_codec = \<lparr>js_record = \<lambda>raw. (case find (\<lambda>x. line_tag x = raw) torn_file of
       Some x \<Rightarrow> Inr x | None \<Rightarrow> Inl (Gerr [] ''invalid character'')),
     js_prompt = \<lambda>_. Inl (Gerr [] ''invalid character'')\<rparr>"

lemmas torn_defs = torn_file_def torn_codec_def line_tag_def new_commit_def kept_commit_def kept_rows_def
  backup_records_def empty_record_def backupVersion_def

theorem backup_of_a_live_store_is_torn_witness:
  "\<exists>s1 t'. backup (between_reads publish_new row_archive) ''2026-01-01T00:00:00Z'' kept_rows = (Inr (torn_file, 1, 2, 1), s1)
     \<and> restore row_archive torn_codec ''copy.db'' False (map (\<lambda>x. Inr (line_tag x)) torn_file) (no_rows False)
         = (Inr \<lparr>nP = 1, nC = 2, nR = 1, legacy = 0\<rparr>, t')
     \<and> ct_refs (rows_content t') (''prompt://acme/greet'', ''main'') = Some ''c2''
     \<and> map_option p_version_hash (ct_prompts (rows_content t') ''prompt://acme/greet'') = Some (sample_hash ''Hi'' [])"
proof -
  have fits: "commit_fits sample_lib new_commit (rows_content kept_rows)"
    by (simp add: commit_fits_def hashed_commit_def new_commit_def kept_commit_def rows_content_def kept_rows_def)
  have writes: "\<forall>s. rows_content s = rows_content kept_rows
      \<longrightarrow> rows_content (publish_new s) = published new_commit (rows_content kept_rows)"
    by (simp add: rows_content_def publish_new_def published_def add_prompt_def add_ref_def add_commit_def
        new_commit_def kept_commit_def prompt_of_def)
  have hashes: "c_hash kept_commit = ''c1''" "c_hash new_commit = ''c2''"
    by (simp_all add: new_commit_def kept_commit_def)
  have run: "backup (between_reads publish_new row_archive) ''2026-01-01T00:00:00Z'' kept_rows
      = (Inr (torn_file, 1, 2, 1), publish_new kept_rows)"
    using hashes by (simp add: backup_def between_reads_def row_archive_def one_per_def torn_file_def publish_new_def kept_rows_def)
  have reads: "\<forall>x \<in> set torn_file. js_record torn_codec (line_tag x) = Inr x" by (simp add: torn_defs)
  have "\<exists>t'. restore row_archive torn_codec ''copy.db'' False (map (\<lambda>x. Inr (line_tag x)) torn_file) (no_rows False)
      = (Inr \<lparr>nP = 1, nC = 2, nR = 1, legacy = 0\<rparr>, t')"
    by (simp add: torn_defs restore_def row_archive_def no_rows_def restore_line_def or_fatal_def)
  then obtain t' where restored: "restore row_archive torn_codec ''copy.db'' False (map (\<lambda>x. Inr (line_tag x)) torn_file) (no_rows False)
      = (Inr \<lparr>nP = 1, nC = 2, nR = 1, legacy = 0\<rparr>, t')" by blast
  from backup_of_a_live_store_is_torn [OF row_archive_laws row_archive_laws kept_sound fits writes run reads no_rows_content restored]
  have "ct_refs (rows_content t') (''prompt://acme/greet'', ''main'') = Some ''c2''"
    "ct_prompts (rows_content t') ''prompt://acme/greet'' = ct_prompts (rows_content kept_rows) ''prompt://acme/greet''"
    by (simp_all add: new_commit_def kept_commit_def)
  then show ?thesis using run restored by (simp add: rows_content_def kept_rows_def)
qed

end
