(* ===== verification/Publish_Paths.thy ===== *)
theory Publish_Paths
  imports Cli_Commands
begin

text \<open>
  The two ways a prompt gets onto main: \<open>PublishPrompt\<close> of the server and \<open>commitMain\<close> of the
  command line, which \<open>put\<close> and \<open>import\<close> use and which is meant to be the same path. The server
  compares with the served HEAD, the command line with main's tip.
\<close>

section \<open>Where the two agree\<close>

text \<open>What the store serves is what main's tip holds, or the prompt has neither.\<close>

definition head_is_tip :: "'em lib \<Rightarrow> 'st store \<Rightarrow> 'st \<Rightarrow> string \<Rightarrow> bool" where
  "head_is_tip L st s u \<longleftrightarrow>
     (case (served st s u, fst (st_resolve st u (default_branch L) s)) of
        ((p, None), Inr tip) \<Rightarrow> p_version_hash p = c_version_hash tip
      | ((p, Some e), Inl e') \<Rightarrow> errors_is e' Err_NotFound
      | _ \<Rightarrow> False)"

text \<open>What is served after a commit to main that the store answered with \<open>x\<close>.\<close>

definition served_then :: "'em lib \<Rightarrow> gerr + 'c \<Rightarrow> string \<Rightarrow> string \<Rightarrow> string list \<Rightarrow> (string \<Rightarrow> prompt \<times> gerr option)
    \<Rightarrow> string \<Rightarrow> prompt \<times> gerr option" where
  "served_then L x u t sl sv = (case x of
     Inl _ \<Rightarrow> sv
   | Inr _ \<Rightarrow> sv(u := (\<lparr>p_uri = u, p_template = t, p_slots = sl, p_version_hash = store_hash L t sl\<rparr>, None)))"

lemma served_after_commit:
  assumes "commit_contract L st" and "st_commit st u (default_branch L) t sl a g s = (x, s1)"
  shows "served st s1 = served_then L x u t sl (served st s)"
proof
  fix v
  show "served st s1 v = served_then L x u t sl (served st s) v"
    using commit_contractD [OF assms] by (cases x; cases "v = u") (simp_all add: served_then_def)
qed

text \<open>What \<open>commitMain\<close> does of a valid prompt, by the served HEAD.\<close>

lemma commitMain_by_head:
  assumes "reads_pure st" and "head_is_tip L st s u" and "validate_prompt L u t sl = None"
  shows "commitMain L st u t sl g s =
    (if \<exists>p. served st s u = (p, None) \<and> p_version_hash p = store_hash L t sl then (Inr False, s)
     else (case st_commit st u (default_branch L) t sl ''priompt'' g s of
             (Inl e, s2) \<Rightarrow> (Inl e, s2) | (Inr _, s2) \<Rightarrow> (Inr True, s2)))"
  using assms(2) resolve_pure [OF assms(1), of u "default_branch L" s]
  by (cases "served st s u"; cases "fst (st_resolve st u (default_branch L) s)")
     (auto simp: commitMain_def assms(3) head_is_tip_def Let_def split: option.splits)

section \<open>Properties\<close>


text \<open>
  Where they do not agree: a prompt that is served but has no commit, as a legacy backup leaves it.
  Publishing its content again through the server reports success and records nothing, so the
  prompt never gets a history; \<open>put\<close> of the same content commits it.
\<close>

lemma publish_leaves_legacy_prompt_without_history:
  assumes "reads_pure (sv_store S)" and "may_write L ctx (pq_uri q)"
    and "validate_prompt L (pq_uri q) (pq_template q) (pq_slots q) = None"
    and "branchOr L (pq_branch q) = default_branch L"
    and "served (sv_store S) (w_store w) (pq_uri q) = (p, None)"
    and "p_version_hash p = store_hash L (pq_template q) (pq_slots q)"
    and "fst (st_resolve (sv_store S) (pq_uri q) (default_branch L) (w_store w)) = Inl e" and "errors_is e Err_NotFound"
    and "st_commit (sv_store S) (pq_uri q) (default_branch L) (pq_template q) (pq_slots q) ''priompt'' g (w_store w) = (Inr c, s1)"
    and "PublishPrompt L S ctx q w = (r, w2)"
  shows "commitMain L (sv_store S) (pq_uri q) (pq_template q) (pq_slots q) g (w_store w) = (Inr True, s1)"
    and "w_store w2 = w_store w"
    and "cleared_or (inv_ok (sv_cache S) (pq_uri q) (w_cache w)) (store_hash L (pq_template q) (pq_slots q)) r"
proof -
  show "commitMain L (sv_store S) (pq_uri q) (pq_template q) (pq_slots q) g (w_store w) = (Inr True, s1)"
    using resolve_pure [OF assms(1), of "pq_uri q" "default_branch L" "w_store w"] assms(3,7-9)
    by (simp add: commitMain_def)
qed (use publish_main_same [OF assms(1-6,10)] in simp_all)

section \<open>Witness\<close>


end
