(* ===== verification/Spec2Isabelle.thy ===== *)
theory Spec2Isabelle
  imports Server_Writers Server_Types Server_Listing Nats_Bus Cli_Transfer Cli_Watch Metrics_Page Cli_Backup_Live Publish_Paths
begin

text \<open>
  \<^bold>\<open>Priompt: a verification development\<close>

  Priompt is a server that stores prompt templates under addresses \<open>prompt://org/name\<close>, versions
  them in a commit history with branches, checks them when they are written, announces changes of
  the served version, and answers reads over gRPC. One binary holds the server and the command line.
  The development models its Go code (\<open>internal/auth\<close>, \<open>internal/server\<close>, \<open>internal/pubsub\<close>,
  \<open>cmd/priompt\<close>) as executable HOL functions over explicit state.

  \<^bold>\<open>How the parts interact\<close>

  A call passes the interceptors of \<open>Rpc_Observe\<close> (metrics outermost, then the authentication of
  another module, the audit log, the rate limiter) and reaches one of the eleven methods of
  \<open>Prompt_Server\<close>. A method asks \<open>Authz\<close> whether the caller may, asks the storage engine, and turns
  the engine's errors into statuses with \<open>Store_Status\<close>. \<open>GetPrompt\<close> goes through the cache
  (\<open>L2_Cache\<close> in the process or \<open>Redis_L2\<close> shared); a write to branch main clears the cache, then
  sends an event to the notifier, which is the bus of \<open>Nats_Subject\<close>, \<open>Nats_Broker\<close>, \<open>Nats_Events\<close>
  and \<open>Nats_Bus\<close>. \<open>Serve_Startup\<close>, \<open>Serve_Run\<close> and \<open>Serve_Flags\<close> are \<open>priompt serve\<close> from its
  arguments to the point where it serves. The other commands (\<open>Cli_Text\<close>, \<open>Cli_Commands\<close>,
  \<open>Cli_Backup\<close>, \<open>Cli_Host\<close>, \<open>Cli_Main\<close>, \<open>Cli_Watch\<close>) write to the storage engine directly, call the
  server, or watch its events.

  \<^bold>\<open>Theories and source\<close>

  \<^item> \<open>Go_Prelude\<close>, \<open>Go_Time\<close>, \<open>Go_Url\<close>, \<open>Go_Net\<close>, \<open>Go_Json\<close>, \<open>Go_Number\<close>, \<open>Go_Flag\<close>: what the source
    uses of Go and its standard library. A Go string is its list of bytes; \<open>strings\<close>, error values as
    a text with the sentinels on their \<open>Unwrap\<close> chain, gRPC codes and statuses, log lines; instants in
    nanoseconds and their RFC 3339 text; \<open>url.Parse\<close>; \<open>net.SplitHostPort\<close>, \<open>net.ParseIP\<close>; JSON text
    and UTF-8; integers, \<open>float64\<close> values and durations as flags read them; flag sets and their
    parsing, with the program's own repeatable flag.
  \<^item> \<open>Registry_Deps\<close>: the modules of other repositories, as records of functions that every
    definition takes as an argument: the storage engine (\<open>'st store\<close>, one field per method, each a
    transition of the engine's state, reads included), validation, semantic diff and the identity
    functions (\<open>'em lib\<close>).
  \<^item> \<open>Authz\<close>: \<open>internal/auth/auth.go\<close>, whole.
  \<^item> \<open>Store_Status\<close>: \<open>internal/server/errors.go\<close>, whole.
  \<^item> \<open>L2_Cache\<close>: \<open>internal/server/cache.go\<close>, whole. \<open>Redis_L2\<close>: \<open>redis_cache.go\<close>, over a Redis
    client, a sealer and a codec that are parameters.
  \<^item> \<open>Prompt_Server\<close>: \<open>internal/server/server.go\<close>, whole. A handler maps the request, the caller's
    context and the world (engine, cache, notifier state, clock, log) to a response or a status and
    the new world.
  \<^item> \<open>Rpc_Observe\<close>: \<open>internal/server/observability.go\<close> and the chain of \<open>main.go\<close>. An interceptor
    is a function of the handler it wraps; counters and log are in the state. A rate is a rational.
  \<^item> \<open>Metrics_Page\<close>: the declared metrics, the build information and the endpoint.
  \<^item> \<open>Nats_Subject\<close>, \<open>Nats_Broker\<close>, \<open>Nats_Events\<close>, \<open>Nats_Bus\<close>: \<open>internal/pubsub/pubsub.go\<close>, in this
    order its subjects, its access control, its payload with \<open>Publish\<close> and \<open>Subscribe\<close>, and its
    connections. A connection is a parameter; \<open>Nats_Bus\<close> keeps the calls made of the NATS libraries.
  \<^item> \<open>Serve_Startup\<close>, \<open>Serve_Run\<close>, \<open>Serve_Flags\<close>: \<open>serve\<close> of \<open>cmd/priompt/main.go\<close>, its decisions,
    its steps and its flags. \<open>Cli_Text\<close>, \<open>Cli_Commands\<close>: the text handling and the bodies of the
    commands. \<open>Cli_Host\<close>: a process as a transformation of files, environment, output and a world
    beyond, which may end with \<open>log.Fatal\<close> (the value \<open>Died (Fatal format args)\<close>) or \<open>os.Exit\<close>;
    templates, TLS and dialling. \<open>Cli_Main\<close>: every command but \<open>serve\<close> and \<open>watch\<close> from its arguments
    on, and \<open>main\<close>. \<open>Cli_Watch\<close>: \<open>watch\<close> and its hook. \<open>Cli_Backup\<close>: \<open>cmd/priompt/backup.go\<close>.
  \<^item> \<open>Sample_Registry\<close>, \<open>Sample_Server\<close>, \<open>Sample_Databases\<close>: an executable instance of the
    parameters, a small registry kept in lists and databases of it by path, on which the witnesses
    evaluate the code.

  \<^bold>\<open>Interfaces\<close>

  The \<open>Cache\<close> interface is the locale \<open>l2_cache\<close> (an answer was put and not cleared since; an entry
  may go at any time; a clear may fail) with its extension \<open>reliable_cache\<close> (a clear does not fail),
  interpreted on the in-process cache; the Redis cache meets the first under stated laws of its
  client. The codec of subjects is the locale \<open>token_codec\<close>, interpreted on \<open>subjectToken\<close>. The
  channel between the handlers and the watchers is \<open>event_channel\<close>, interpreted on the bus. The
  relations a command keeps between the states before and after it are the locale \<open>cmd_frame\<close>,
  interpreted on what a start of the server may touch and on the files it reads.

  \<^bold>\<open>What is shown\<close>

  \<^item> \<open>Server_Access\<close>, \<open>Server_Types\<close>, \<open>Server_Listing\<close>: the service as one dispatch. A call is
    answered with its method's type, refused without any effect exactly when the caller may not make
    it, and fails only with its method's codes; reads change nothing; a listing is exact.
  \<^item> \<open>Server_Safety\<close>: over any engine, every prompt a read answers passes the validation that runs at
    write time. An invariant of the cached entries over runs in which the engine's content, the
    clock and the cache move on their own.
  \<^item> \<open>Server_Events\<close>: every branch of the writing handlers on main; retries after a failed clear;
    only a write to main changes what readers get.
  \<^item> \<open>Server_Coherence\<close>: read your writes, and the refinement of the server without a cache by the
    server with a reliable one, for whole histories of calls and any expiry.
  \<^item> \<open>Server_Races\<close>: reads in two steps, interleaved with writes, clears and expiry in any way. How
    stale an answer can be, that readers converge, and how a read overtakes a publish.
  \<^item> \<open>Server_Writers\<close>: publishes in four phases and reads in their steps, any number of them
    interleaved. When the publishes are through, an event has named what main serves, and readers get
    it, but for an older response that an overtaken read has put into the cache, until it expires;
    the order of the events and their verdicts may be wrong.
  \<^item> \<open>Publish_Paths\<close>: \<open>PublishPrompt\<close> and the command line's \<open>commitMain\<close> are equivalent where the
    served prompt is main's tip, and where they are not.
  \<^item> \<open>Rpc_Observe\<close>: every call is counted and audited once; one organization's calls never use up
    another's rate.
  \<^item> \<open>Nats_Subject\<close>, \<open>Nats_Broker\<close>: different addresses have different subjects; a credential watches
    its own organization only and publishes nothing; a broker with credentials admits by them only,
    and its own publisher unless users are listed of whom none may publish; routes carry the cluster
    secret. Passwords are compared as they are: bcrypt hashes are left to the broker.
  \<^item> \<open>Nats_Events\<close>, \<open>Nats_Bus\<close>: a payload is read back, bytes that are no UTF-8 replaced as JSON
    does; a publish reaches the watchers of its prompt, who then read it; a bus leaves nothing running.
  \<^item> \<open>Go_Flag\<close>, \<open>Serve_Startup\<close>, \<open>Serve_Run\<close>, \<open>Serve_Flags\<close>: a start does what its arguments ask for,
    in every form flags can be written in; a server that serves is guarded as they say, and its
    start-up line is true; a start harms no data. A cluster port has its secret for peers and admits
    clients as the client port does, so that it is open where the client port needs no token. What
    the goroutine of the metrics listener logs is in \<open>Metrics_Page\<close>, apart from the command's log.
  \<^item> \<open>Cli_Text\<close>, \<open>Cli_Commands\<close>, \<open>Cli_Backup\<close>, \<open>Cli_Backup_Live\<close>, \<open>Cli_Transfer\<close>, \<open>Cli_Watch\<close>:
    credentials are hidden in what is printed; a diff survives the wire; an import with an invalid
    entry writes nothing, and one repeated commits nothing unless it names an address with two contents,
    which never settles; an export imported elsewhere serves the same, as far as JSON carries it;
    \<open>publish\<close> publishes the file it is given and prints what is true of its read; a hook sees the event
    it runs for; a backup restores the whole store, an interrupted restore is finished by a forced
    one, and a backup of a store that is written meanwhile can be torn.

  \<^bold>\<open>Laws of the parameters\<close>

  The theorems about the service assume of the storage engine that reads change nothing, and that
  only a commit, merge or rollback of main changes what an address serves, to the content it reports
  (\<open>store_contract\<close> of \<open>Registry_Deps\<close>). Those about backups assume the tables the README describes: every row under
  its key, the version hash recomputed from the text on every write (\<open>archive_laws\<close> and \<open>sound\<close> of
  \<open>Cli_Backup\<close>). The codec of exported prompts replaces bytes that are no UTF-8 (\<open>codec_law\<close> of
  \<open>Cli_Transfer\<close>). Each law holds of the instance the witnesses use.

  \<^bold>\<open>Bounds and recursion\<close>

  Every definition is total: structural, or ended by a measure (the text still to be read). The reader
  of JSON takes fuel, twice the length of the text and two more, and \<open>Go_Json\<close> shows that this is
  enough: with more the result is the same. In the diff messages a Go \<open>int\<close> is a 64-bit word and the
  wire's \<open>int32\<close> a 32-bit word. A duration or an integer given as a flag is refused outside 64 bits, as
  Go does; instants and sums of them are unbounded integers, where a Go \<open>time.Duration\<close> overflows after
  292 years. The rate of the limiter is rational where the limiter itself is modelled; as a flag it is
  a \<open>float64\<close> with its rounding, infinities and NaN. In \<open>Server_Coherence\<close> calls run one after the
  other; \<open>Server_Races\<close> interleaves the steps of reads with them and \<open>Server_Writers\<close> those of publishes
  and reads, each access of the cache or the engine being atomic, as the cache's mutex and the engine's
  transactions make it.

  \<^bold>\<open>What is not modelled\<close>

  The modules of other repositories and third-party libraries: the storage engine, the validator, the
  semantic diff, authentication, NATS, Redis, gRPC, protobuf and Prometheus are parameters with stated
  laws. The JSON of prompts and of backup lines is a parameter, since the fields and their names are
  the storage engine's. Of the standard library: X.509, the sockets, and the printing of a flag set's
  usage. A process that is killed between two of its steps, other than at an error.

  \<^bold>\<open>Plan\<close>

  All code of the program is modelled. What could be added are merges and rollbacks among the
  interleaved writers, and the JSON of backup lines once the engine's field names are at hand.
\<close>

end
